(* ===== verification/Gw_Prelude.thy ===== *)
theory Gw_Prelude
  imports "HOL-Library.Word" "HOL-Library.AList" "HOL-Library.Multiset"
    "HOL-Library.List_Lexorder" "HOL-Library.Char_ord"
begin

text \<open>
  Shared vocabulary of the bcos-gateway development.

  \<^item> machine integers and byte strings: \<open>uint8_t\<close>, \<open>uint16_t\<close>, \<open>uint32_t\<close> are words of their
    width, \<open>bytes\<close> is a list of bytes, \<open>std::string\<close> is a list of characters (one per byte);
  \<^item> undefined behaviour: a read outside a buffer or through a null pointer is the value \<open>Inl\<close>
    of the type \<open>'a cpp\<close>, so that it is a branch of the model and never an unspecified value;
  \<^item> containers: \<open>std::unordered_map\<close> and \<open>std::map\<close> are association lists with distinct keys,
    in the order in which the container is iterated (which the standard leaves open for the
    unordered ones: no theorem of the development depends on it), \<open>std::set\<close> is an ascending
    list without duplicates;
  \<^item> network byte order and \<open>std::to_string\<close>.
\<close>

named_theorems um_simps \<open>lookup, key and membership facts of the containers\<close>
named_theorems wire_simps \<open>facts about byte encodings and their lengths\<close>

section \<open>Machine integers, bytes, strings\<close>

type_synonym byte = "8 word"
type_synonym bytes = "byte list"
type_synonym u8 = "8 word"
type_synonym u16 = "16 word"
type_synonym u32 = "32 word"

definition byte_of_char :: "char \<Rightarrow> byte" where
  "byte_of_char c = word_of_nat (of_char c)"

definition char_of_byte :: "byte \<Rightarrow> char" where
  "char_of_byte b = char_of (unat b)"

definition bytes_of_string :: "string \<Rightarrow> bytes" where
  "bytes_of_string s = map byte_of_char s"

definition string_of_bytes :: "bytes \<Rightarrow> string" where
  "string_of_bytes bs = map char_of_byte bs"

lemma of_char_less_256: "(of_char c :: nat) < 256"
  by simp

lemma char_of_byte_of_char [simp]: "char_of_byte (byte_of_char c) = c"
  by (simp add: char_of_byte_def byte_of_char_def unat_of_nat of_char_less_256)

lemma byte_of_char_of_byte [simp]: "byte_of_char (char_of_byte b) = b"
proof -
  have "unat b < 256"
    using unsigned_less [of b, where 'a = nat] by simp
  then show ?thesis
    by (simp add: char_of_byte_def byte_of_char_def)
qed

lemma string_of_bytes_of_string [simp]: "string_of_bytes (bytes_of_string s) = s"
  by (simp add: string_of_bytes_def bytes_of_string_def o_def)

lemma bytes_of_string_of_bytes [simp]: "bytes_of_string (string_of_bytes bs) = bs"
  by (simp add: string_of_bytes_def bytes_of_string_def o_def)

lemma length_bytes_of_string [simp, wire_simps]: "length (bytes_of_string s) = length s"
  by (simp add: bytes_of_string_def)

lemma length_string_of_bytes [simp, wire_simps]: "length (string_of_bytes bs) = length bs"
  by (simp add: string_of_bytes_def)

lemma bytes_of_string_empty [simp]: "bytes_of_string s = [] \<longleftrightarrow> s = []"
  by (simp add: bytes_of_string_def)

lemma bytes_of_string_inject [simp]: "bytes_of_string s = bytes_of_string t \<longleftrightarrow> s = t"
  by (metis string_of_bytes_of_string)

text \<open>\<open>std::to_string\<close> of an unsigned and of a signed integer: decimal digits, no padding.\<close>

fun to_string_nat :: "nat \<Rightarrow> string" where
  "to_string_nat n =
     (if n < 10 then [char_of (48 + n)]
      else to_string_nat (n div 10) @ [char_of (48 + n mod 10)])"

declare to_string_nat.simps [simp del]

definition to_string_int :: "int \<Rightarrow> string" where
  "to_string_int i = (if i < 0 then CHR ''-'' # to_string_nat (nat (- i)) else to_string_nat (nat i))"

lemma to_string_nat_nonempty [simp]: "to_string_nat n \<noteq> []"
  by (subst to_string_nat.simps) simp

section \<open>Undefined behaviour\<close>

datatype ub = OutOfBounds | NullPointer

type_synonym 'a cpp = "ub + 'a"

definition cpp_bind :: "'a cpp \<Rightarrow> ('a \<Rightarrow> 'b cpp) \<Rightarrow> 'b cpp" where
  "cpp_bind x f = (case x of Inl u \<Rightarrow> Inl u | Inr a \<Rightarrow> f a)"

lemma cpp_bind_simps [simp]:
  "cpp_bind (Inl u) f = Inl u" "cpp_bind (Inr a) f = f a"
  by (simp_all add: cpp_bind_def)

lemma cpp_bind_eq_Inr: "cpp_bind x f = Inr b \<longleftrightarrow> (\<exists>a. x = Inr a \<and> f a = Inr b)"
  by (cases x) auto

definition defined :: "'a cpp \<Rightarrow> bool" where
  "defined x = (case x of Inl _ \<Rightarrow> False | Inr _ \<Rightarrow> True)"

lemma defined_simps [simp]: "\<not> defined (Inl u)" "defined (Inr a)"
  by (simp_all add: defined_def)

lemma defined_iff: "defined x \<longleftrightarrow> (\<exists>a. x = Inr a)"
  by (cases x) auto

section \<open>Network byte order\<close>

text \<open>
  \<open>host_to_network_short/long\<close> followed by copying the object's bytes, and reading the bytes
  back through \<open>network_to_host_short/long\<close>: the most significant byte comes first on every
  host. A read takes the buffer and the offset, and is undefined when it leaves the buffer.
\<close>

unbundle bit_operations_syntax

definition be16 :: "u16 \<Rightarrow> bytes" where
  "be16 w = [ucast (drop_bit 8 w), ucast w]"

definition be32 :: "u32 \<Rightarrow> bytes" where
  "be32 w = [ucast (drop_bit 24 w), ucast (drop_bit 16 w), ucast (drop_bit 8 w), ucast w]"

definition join16 :: "byte \<Rightarrow> byte \<Rightarrow> u16" where
  "join16 a b = push_bit 8 (ucast a) OR ucast b"

definition join32 :: "byte \<Rightarrow> byte \<Rightarrow> byte \<Rightarrow> byte \<Rightarrow> u32" where
  "join32 a b c d =
     push_bit 24 (ucast a) OR push_bit 16 (ucast b) OR push_bit 8 (ucast c) OR ucast d"

definition rd8 :: "bytes \<Rightarrow> nat \<Rightarrow> u8 cpp" where
  "rd8 b off = (if off < length b then Inr (b ! off) else Inl OutOfBounds)"

definition rd16 :: "bytes \<Rightarrow> nat \<Rightarrow> u16 cpp" where
  "rd16 b off = (if off + 2 \<le> length b then Inr (join16 (b ! off) (b ! (off + 1)))
                 else Inl OutOfBounds)"

definition rd32 :: "bytes \<Rightarrow> nat \<Rightarrow> u32 cpp" where
  "rd32 b off = (if off + 4 \<le> length b
                 then Inr (join32 (b ! off) (b ! (off + 1)) (b ! (off + 2)) (b ! (off + 3)))
                 else Inl OutOfBounds)"

definition subrange :: "bytes \<Rightarrow> nat \<Rightarrow> nat \<Rightarrow> bytes" where
  "subrange b off n = take n (drop off b)"

lemma length_be16 [simp, wire_simps]: "length (be16 w) = 2"
  by (simp add: be16_def)

lemma length_be32 [simp, wire_simps]: "length (be32 w) = 4"
  by (simp add: be32_def)

lemma join16_split:
  fixes w :: u16
  shows "join16 (ucast (drop_bit 8 w)) (ucast w) = w"
  unfolding join16_def by (rule bit_word_eqI) (auto simp: bit_simps)

lemma be16_join16 [wire_simps]: "be16 (join16 a b) = [a, b]"
proof -
  have "(ucast (drop_bit 8 (join16 a b)) :: byte) = a"
    unfolding join16_def by (rule bit_word_eqI) (auto simp: bit_simps dest: bit_imp_le_length)
  moreover have "(ucast (join16 a b) :: byte) = b"
    unfolding join16_def by (rule bit_word_eqI) (auto simp: bit_simps)
  ultimately show ?thesis by (simp add: be16_def)
qed

lemma join32_split:
  fixes w :: u32
  shows "join32 (ucast (drop_bit 24 w)) (ucast (drop_bit 16 w)) (ucast (drop_bit 8 w)) (ucast w) = w"
proof (unfold join32_def, rule bit_word_eqI)
  fix n :: nat
  assume n: "n < LENGTH(32)"
  consider "n < 8" | "8 \<le> n \<and> n < 16" | "16 \<le> n \<and> n < 24" | "24 \<le> n"
    by linarith
  then show "bit (push_bit 24 (ucast (ucast (drop_bit 24 w) :: byte) :: u32)
      OR push_bit 16 (ucast (ucast (drop_bit 16 w) :: byte))
      OR push_bit 8 (ucast (ucast (drop_bit 8 w) :: byte)) OR ucast (ucast w :: byte)) n
      = bit w n"
    using n by cases (auto simp: bit_simps)
qed

lemma rd16_be16 [wire_simps]:
  "length pre = off \<Longrightarrow> rd16 (pre @ be16 w @ post) off = Inr w"
  by (auto simp: rd16_def be16_def nth_append join16_split)

lemma rd32_be32 [wire_simps]:
  "length pre = off \<Longrightarrow> rd32 (pre @ be32 w @ post) off = Inr w"
  by (auto simp: rd32_def be32_def nth_append join32_split)

lemma rd8_at [wire_simps]: "length pre = off \<Longrightarrow> rd8 (pre @ c # post) off = Inr c"
  by (auto simp: rd8_def nth_append)

lemma subrange_at [wire_simps]:
  "length pre = off \<Longrightarrow> length xs = n \<Longrightarrow> subrange (pre @ xs @ post) off n = xs"
  by (auto simp: subrange_def)

lemma length_subrange: "off + n \<le> length b \<Longrightarrow> length (subrange b off n) = n"
  by (simp add: subrange_def)

lemma rd16_defined: "off + 2 \<le> length b \<Longrightarrow> defined (rd16 b off)"
  by (simp add: rd16_def)

section \<open>Maps\<close>

abbreviation um_put :: "'k \<Rightarrow> 'v \<Rightarrow> ('k \<times> 'v) list \<Rightarrow> ('k \<times> 'v) list" where
  "um_put \<equiv> AList.update" \<comment> \<open>\<open>m[k] = v\<close>\<close>

abbreviation um_erase :: "'k \<Rightarrow> ('k \<times> 'v) list \<Rightarrow> ('k \<times> 'v) list" where
  "um_erase \<equiv> AList.delete" \<comment> \<open>\<open>m.erase(k)\<close>\<close>

definition um_emplace :: "'k \<Rightarrow> 'v \<Rightarrow> ('k \<times> 'v) list \<Rightarrow> ('k \<times> 'v) list" where
  \<comment> \<open>\<open>m.insert(make_pair(k, v))\<close>: keeps the value a present key has\<close>
  "um_emplace k v m = (case map_of m k of None \<Rightarrow> um_put k v m | Some _ \<Rightarrow> m)"

definition um_has :: "'k \<Rightarrow> ('k \<times> 'v) list \<Rightarrow> bool" where
  "um_has k m = (case map_of m k of None \<Rightarrow> False | Some _ \<Rightarrow> True)"

definition um_ok :: "('k \<times> 'v) list \<Rightarrow> bool" where
  "um_ok m = distinct (map fst m)"

lemma um_ok_Nil [simp]: "um_ok []"
  by (simp add: um_ok_def)

lemma um_ok_put [simp, intro]: "um_ok m \<Longrightarrow> um_ok (um_put k v m)"
  by (simp add: um_ok_def distinct_update)

lemma um_ok_erase [simp, intro]: "um_ok m \<Longrightarrow> um_ok (um_erase k m)"
  by (simp add: um_ok_def distinct_delete)

lemma um_ok_emplace [simp, intro]: "um_ok m \<Longrightarrow> um_ok (um_emplace k v m)"
  by (simp add: um_emplace_def split: option.split)

lemma um_find_put [um_simps]: "map_of (um_put k v m) x = (if x = k then Some v else map_of m x)"
  by (simp add: update_conv)

lemma um_find_erase [um_simps]: "map_of (um_erase k m) x = (if x = k then None else map_of m x)"
  by (simp add: delete_conv)

lemma um_find_emplace [um_simps]:
  "map_of (um_emplace k v m) x = (if x = k \<and> map_of m k = None then Some v else map_of m x)"
  by (auto simp: um_emplace_def um_find_put split: option.split)

lemma um_has_iff: "um_has k m \<longleftrightarrow> map_of m k \<noteq> None"
  by (auto simp: um_has_def split: option.split)

lemma um_mem_iff: "um_ok m \<Longrightarrow> (k, v) \<in> set m \<longleftrightarrow> map_of m k = Some v"
  by (auto simp: um_ok_def)

lemma um_ok_filter [simp, intro]: "um_ok m \<Longrightarrow> um_ok (filter P m)"
  by (induction m) (auto simp: um_ok_def)

lemma um_find_filter [um_simps]:
  "um_ok m \<Longrightarrow>
   map_of (filter (\<lambda>(k, v). P k v) m) x =
     (case map_of m x of None \<Rightarrow> None | Some v \<Rightarrow> if P x v then Some v else None)"
proof (induction m)
  case Nil
  then show ?case by simp
next
  case (Cons kv m)
  obtain k v where kv: "kv = (k, v)" by (cases kv)
  from Cons.prems kv have ok: "um_ok m" and new: "map_of m k = None"
    by (auto simp: um_ok_def map_of_eq_None_iff)
  show ?case using Cons.IH [OF ok] new kv by auto
qed

section \<open>Maps of maps\<close>

text \<open>
  The gateway keeps its registration tables as \<open>groupID => nodeID => ...\<close>. \<open>um2_put\<close> is
  \<open>m[g][n] = v\<close>, which default-constructs the inner map, and \<open>um2_erase\<close> erases the inner entry
  and then the outer one if nothing is left in it.
\<close>

definition um2_find :: "('g \<times> ('n \<times> 'v) list) list \<Rightarrow> 'g \<Rightarrow> 'n \<Rightarrow> 'v option" where
  "um2_find m g n = (case map_of m g of None \<Rightarrow> None | Some inner \<Rightarrow> map_of inner n)"

definition um_at :: "('g \<times> 'b list) list \<Rightarrow> 'g \<Rightarrow> 'b list" where
  \<comment> \<open>\<open>m[g]\<close> where the value is a container\<close>
  "um_at m g = (case map_of m g of None \<Rightarrow> [] | Some inner \<Rightarrow> inner)"

definition um2_put ::
  "'g \<Rightarrow> 'n \<Rightarrow> 'v \<Rightarrow> ('g \<times> ('n \<times> 'v) list) list \<Rightarrow> ('g \<times> ('n \<times> 'v) list) list" where
  "um2_put g n v m = um_put g (um_put n v (um_at m g)) m"

definition um2_erase ::
  "'g \<Rightarrow> 'n \<Rightarrow> ('g \<times> ('n \<times> 'v) list) list \<Rightarrow> ('g \<times> ('n \<times> 'v) list) list" where
  "um2_erase g n m =
     (let inner = um_erase n (um_at m g)
      in if inner = [] then um_erase g m else um_put g inner m)"

text \<open>Distinct keys on both levels and no empty inner map.\<close>

definition um2_ok :: "('g \<times> ('n \<times> 'v) list) list \<Rightarrow> bool" where
  "um2_ok m \<longleftrightarrow> um_ok m \<and> list_all (\<lambda>(g, inner). um_ok inner \<and> inner \<noteq> []) m"

lemma um2_ok_Nil [simp]: "um2_ok []"
  by (simp add: um2_ok_def)

lemma um2_okD: "um2_ok m \<Longrightarrow> map_of m g = Some inner \<Longrightarrow> um_ok inner \<and> inner \<noteq> []"
  by (auto simp: um2_ok_def list_all_iff dest: map_of_SomeD)

lemma um_ok_at: "um2_ok m \<Longrightarrow> um_ok (um_at m g)"
  by (auto simp: um_at_def dest: um2_okD split: option.split)

lemma set_update_subset: "set (um_put k v m) \<subseteq> insert (k, v) (set m)"
  by (induction m) auto

lemma set_delete_subset: "set (um_erase k m) \<subseteq> set m"
  by (simp add: AList.delete_eq)

lemma update_nonempty [simp]: "um_put k v m \<noteq> []"
  by (cases m) auto

lemma um2_ok_update:
  assumes "um2_ok m" and "um_ok inner" and "inner \<noteq> []"
  shows "um2_ok (um_put g inner m)"
  using assms set_update_subset [of g inner m] by (auto simp: um2_ok_def list_all_iff)

lemma um2_ok_delete: "um2_ok m \<Longrightarrow> um2_ok (um_erase g m)"
  using set_delete_subset [of g m] by (auto simp: um2_ok_def list_all_iff)

lemma um2_ok_put [simp, intro]: "um2_ok m \<Longrightarrow> um2_ok (um2_put g n v m)"
  by (simp add: um2_put_def um2_ok_update um_ok_at)

lemma um2_ok_erase [simp, intro]: "um2_ok m \<Longrightarrow> um2_ok (um2_erase g n m)"
  by (simp add: um2_erase_def Let_def um2_ok_update um2_ok_delete um_ok_at)

lemma um2_find_at: "um2_find m g n = map_of (um_at m g) n"
  by (simp add: um2_find_def um_at_def split: option.split)

lemma um2_find_Nil [simp]: "um2_find [] g n = None"
  by (simp add: um2_find_def)

lemma um2_find_put [um_simps]:
  "um2_find (um2_put g n v m) g' n' = (if g' = g \<and> n' = n then Some v else um2_find m g' n')"
  by (auto simp: um2_find_def um2_put_def um_at_def um_find_put split: option.split)

lemma um2_find_erase [um_simps]:
  "um2_find (um2_erase g n m) g' n' = (if g' = g \<and> n' = n then None else um2_find m g' n')"
proof -
  have "um_erase n (um_at m g) = [] \<Longrightarrow> map_of (um_at m g) n' = None \<or> n' = n"
    using um_find_erase [of n "um_at m g" n'] by (auto split: if_splits)
  then show ?thesis
    by (auto simp: um2_find_at um2_erase_def Let_def um_at_def um_find_put um_find_erase
        split: option.splits)
qed

lemma um2_find_mem:
  assumes "um2_ok m"
  shows "(\<exists>inner. (g, inner) \<in> set m \<and> (n, v) \<in> set inner) \<longleftrightarrow> um2_find m g n = Some v"
proof -
  have "um_ok m" using assms by (simp add: um2_ok_def)
  then have "(\<exists>inner. (g, inner) \<in> set m \<and> (n, v) \<in> set inner) \<longleftrightarrow>
      (\<exists>inner. map_of m g = Some inner \<and> (n, v) \<in> set inner)"
    by (simp add: um_mem_iff)
  also have "\<dots> \<longleftrightarrow> (\<exists>inner. map_of m g = Some inner \<and> map_of inner n = Some v)"
    using um2_okD [OF assms] um_mem_iff by fast
  also have "\<dots> \<longleftrightarrow> um2_find m g n = Some v"
    by (simp add: um2_find_def split: option.split)
  finally show ?thesis .
qed

section \<open>Sets\<close>

abbreviation os_insert :: "'a::linorder \<Rightarrow> 'a list \<Rightarrow> 'a list" where
  "os_insert \<equiv> insort_insert"

definition os_erase :: "'a \<Rightarrow> 'a list \<Rightarrow> 'a list" where
  "os_erase x s = filter (\<lambda>y. y \<noteq> x) s"

definition os_ok :: "'a::linorder list \<Rightarrow> bool" where
  "os_ok s \<longleftrightarrow> sorted s \<and> distinct s"

definition os_insert_all :: "'a::linorder list \<Rightarrow> 'a list \<Rightarrow> 'a list" where
  \<comment> \<open>\<open>s.insert(first, last)\<close>\<close>
  "os_insert_all xs s = fold os_insert xs s"

lemma os_ok_Nil [simp]: "os_ok []"
  by (simp add: os_ok_def)

lemma os_ok_insert [simp, intro]: "os_ok s \<Longrightarrow> os_ok (os_insert x s)"
  by (simp add: os_ok_def sorted_insort_insert distinct_insort_insert)

lemma set_os_insert [simp]: "set (os_insert x s) = insert x (set s)"
  by (rule set_insort_insert)

lemma os_ok_erase [simp, intro]: "os_ok s \<Longrightarrow> os_ok (os_erase x s)"
  by (simp add: os_ok_def os_erase_def sorted_filter [where f = "\<lambda>x. x", simplified])

lemma set_os_erase [simp]: "set (os_erase x s) = set s - {x}"
  by (auto simp: os_erase_def)

lemma set_os_insert_all [simp]: "set (os_insert_all xs s) = set xs \<union> set s"
  unfolding os_insert_all_def by (induction xs arbitrary: s) auto

lemma os_ok_insert_all [simp, intro]: "os_ok s \<Longrightarrow> os_ok (os_insert_all xs s)"
  unfolding os_insert_all_def by (induction xs arbitrary: s) auto

lemma os_eqI: "os_ok s \<Longrightarrow> os_ok t \<Longrightarrow> set s = set t \<Longrightarrow> s = t"
  by (simp add: os_ok_def sorted_distinct_set_unique)

lemma os_insert_nonempty [simp]: "os_insert x s \<noteq> []"
  by (metis empty_iff insertI1 list.set(1) set_os_insert)

section \<open>Words as counters\<close>

lemma word32_add_of_nat_cancel:
  fixes w :: u32
  assumes "k < 2 ^ 32" and "w + of_nat k = w"
  shows "k = 0"
proof -
  from assms(2) have "(of_nat k :: u32) = 0" by simp
  then have "unat (of_nat k :: u32) = 0" by simp
  with assms(1) show ?thesis by (simp add: unat_of_nat)
qed

end
