(* ===== verification/Seq_Gossip.thy ===== *)
theory Seq_Gossip
  imports Gw_Prelude
begin

text \<open>
  The two contracts behind the gossip of the gateway. The node manager and the topic manager both
  announce a 32-bit sequence number, hand out their local tables on request, and remember for
  each peer the last number and table they received. The publisher's side (\<open>versioned\<close>): a state
  that changes its table changes its number. The receiver's side (\<open>seq_cache\<close>): a stored table
  is the one that came with the stored number. Each is proved here once, and both managers are
  interpreted in their own theories.
\<close>

section \<open>Publisher\<close>

text \<open>
  An operation adds between 0 and \<open>bound op\<close> to the number, and leaves the content alone when
  it adds nothing.
\<close>

locale versioned =
  fixes step :: "'op \<Rightarrow> 's \<Rightarrow> 's" and seq :: "'s \<Rightarrow> u32" and content :: "'s \<Rightarrow> 'c"
    and bound :: "'op \<Rightarrow> nat"
  assumes step_bump: "\<exists>k \<le> bound op. seq (step op s) = seq s + of_nat k \<and>
    (k = 0 \<longrightarrow> content (step op s) = content s)"
begin

lemma run_bump:
  "\<exists>k \<le> sum_list (map bound ops). seq (fold step ops s) = seq s + of_nat k \<and>
     (k = 0 \<longrightarrow> content (fold step ops s) = content s)"
proof (induction ops arbitrary: s)
  case Nil
  then show ?case by simp
next
  case (Cons op ops)
  obtain k where k: "k \<le> bound op" "seq (step op s) = seq s + of_nat k"
      "k = 0 \<longrightarrow> content (step op s) = content s"
    using step_bump by blast
  obtain j where j: "j \<le> sum_list (map bound ops)"
      "seq (fold step ops (step op s)) = seq (step op s) + of_nat j"
      "j = 0 \<longrightarrow> content (fold step ops (step op s)) = content (step op s)"
    using Cons.IH by blast
  have "seq (fold step (op # ops) s) = seq s + of_nat (k + j)"
    using k j by (simp add: add.assoc)
  moreover have "k + j = 0 \<longrightarrow> content (fold step (op # ops) s) = content s"
    using k j by simp
  moreover have "k + j \<le> sum_list (map bound (op # ops))"
    using k j by simp
  ultimately show ?case by blast
qed

lemma same_seq_same_content:
  assumes "sum_list (map bound ops) < 2 ^ 32" and "seq (fold step ops s) = seq s"
  shows "content (fold step ops s) = content s"
proof -
  obtain k where k: "k \<le> sum_list (map bound ops)" "seq (fold step ops s) = seq s + of_nat k"
      "k = 0 \<longrightarrow> content (fold step ops s) = content s"
    using run_bump by blast
  have "k = 0" using word32_add_of_nat_cancel [of k "seq s"] k assms by simp
  with k show ?thesis by simp
qed

text \<open>Two snapshots of one run that carry the same number carry the same content.\<close>

lemma same_seq_in_run:
  assumes "sum_list (map bound ops) < 2 ^ 32"
    and "ops = before @ between @ after"
    and "seq (fold step (before @ between) s) = seq (fold step before s)"
  shows "content (fold step (before @ between) s) = content (fold step before s)"
  using same_seq_same_content [of between "fold step before s"] assms by simp

text \<open>What a run publishes: the number and the content after each of its prefixes.\<close>

definition published :: "'op list \<Rightarrow> 's \<Rightarrow> u32 \<Rightarrow> 'c \<Rightarrow> bool" where
  "published ops s n c \<longleftrightarrow>
     (\<exists>k \<le> length ops. n = seq (fold step (take k ops) s) \<and> c = content (fold step (take k ops) s))"

lemma take_between: "i \<le> j \<Longrightarrow> take j xs = take i xs @ take (j - i) (drop i xs)"
  by (metis le_add_diff_inverse take_add)

lemma published_prefixes:
  assumes small: "sum_list (map bound ops) < 2 ^ 32" and ij: "i \<le> j" "j \<le> length ops"
    and same: "seq (fold step (take i ops) s) = seq (fold step (take j ops) s)"
  shows "content (fold step (take i ops) s) = content (fold step (take j ops) s)"
proof -
  have "ops = take i ops @ take (j - i) (drop i ops) @ drop j ops"
    using take_between [OF ij(1), of ops] by (metis append.assoc append_take_drop_id)
  from same_seq_in_run [OF small this] same show ?thesis
    by (simp add: take_between [OF ij(1)])
qed

lemma published_unique:
  assumes small: "sum_list (map bound ops) < 2 ^ 32"
    and "published ops s n c" and "published ops s n c'"
  shows "c = c'"
proof -
  obtain i j where ij: "i \<le> length ops" "j \<le> length ops"
      "n = seq (fold step (take i ops) s)" "c = content (fold step (take i ops) s)"
      "n = seq (fold step (take j ops) s)" "c' = content (fold step (take j ops) s)"
    using assms(2,3) unfolding published_def by blast
  show ?thesis
  proof (cases "i \<le> j")
    case True
    with published_prefixes [OF small, of i j s] ij show ?thesis by simp
  next
    case False
    with published_prefixes [OF small, of j i s] ij show ?thesis by simp
  qed
qed

end

section \<open>Receiver\<close>

text \<open>
  \<open>learn p n v\<close> stores what peer \<open>p\<close> answered, \<open>stale p n\<close> is the question asked when \<open>p\<close>
  announces \<open>n\<close>, and \<open>view s p\<close> is what the state knows of \<open>p\<close>.
\<close>

locale seq_cache =
  fixes inv :: "'s \<Rightarrow> bool" and ok :: "'v \<Rightarrow> bool"
    and learn :: "'p \<Rightarrow> u32 \<Rightarrow> 'v \<Rightarrow> 's \<Rightarrow> 's" and stale :: "'p \<Rightarrow> u32 \<Rightarrow> 's \<Rightarrow> bool"
    and view :: "'s \<Rightarrow> 'p \<Rightarrow> 'c" and abs :: "'v \<Rightarrow> 'c"
  assumes inv_learn: "inv s \<Longrightarrow> ok v \<Longrightarrow> inv (learn p n v s)"
    and stale_learn: "inv s \<Longrightarrow> ok v \<Longrightarrow>
      stale q k (learn p n v s) \<longleftrightarrow> (if q = p then k \<noteq> n else stale q k s)"
    and view_learn: "inv s \<Longrightarrow> ok v \<Longrightarrow>
      view (learn p n v s) q = (if q = p then abs v else view s q)"
begin

text \<open>\<open>says p n c\<close>: peer \<open>p\<close> has published the content \<open>c\<close> under the number \<open>n\<close>.\<close>

definition coherent :: "('p \<Rightarrow> u32 \<Rightarrow> 'c \<Rightarrow> bool) \<Rightarrow> 's \<Rightarrow> bool" where
  "coherent says s \<longleftrightarrow> inv s \<and> (\<forall>p n. \<not> stale p n s \<longrightarrow> says p n (view s p))"

lemma coherent_learn:
  "coherent says s \<Longrightarrow> ok v \<Longrightarrow> says p n (abs v) \<Longrightarrow> coherent says (learn p n v s)"
  by (auto simp: coherent_def inv_learn stale_learn view_learn)

lemma coherent_run:
  "coherent says s \<Longrightarrow> list_all (\<lambda>(p, n, v). ok v \<and> says p n (abs v)) es \<Longrightarrow>
   coherent says (fold (\<lambda>(p, n, v). learn p n v) es s)"
  by (induction es arbitrary: s) (auto simp: coherent_learn)

lemma current_content:
  assumes "coherent says s" and "\<not> stale p n s" and "says p n c"
    and "\<And>c c'. says p n c \<Longrightarrow> says p n c' \<Longrightarrow> c = c'"
  shows "view s p = c"
  using assms by (auto simp: coherent_def)

end

text \<open>A receiver that also forgets a peer, when its connection is lost.\<close>

locale forgetting_cache = seq_cache inv ok learn stale view abs
  for inv :: "'s \<Rightarrow> bool" and ok :: "'v \<Rightarrow> bool"
    and learn :: "'p \<Rightarrow> u32 \<Rightarrow> 'v \<Rightarrow> 's \<Rightarrow> 's" and stale :: "'p \<Rightarrow> u32 \<Rightarrow> 's \<Rightarrow> bool"
    and view :: "'s \<Rightarrow> 'p \<Rightarrow> 'c" and abs :: "'v \<Rightarrow> 'c" +
  fixes forget :: "'p \<Rightarrow> 's \<Rightarrow> 's" and empty :: 'c
  assumes inv_forget: "inv s \<Longrightarrow> inv (forget p s)"
    and stale_forget: "inv s \<Longrightarrow> stale q k (forget p s) \<longleftrightarrow> q = p \<or> stale q k s"
    and view_forget: "inv s \<Longrightarrow> view (forget p s) q = (if q = p then empty else view s q)"
begin

lemma coherent_forget: "coherent says s \<Longrightarrow> coherent says (forget p s)"
  by (auto simp: coherent_def inv_forget stale_forget view_forget)

end

end
