(* ===== verification/Gossip_Net.thy ===== *)
theory Gossip_Net
  imports Seq_Gossip
begin

text \<open>
  A network of any number of gateways that gossip by sequence number: the state of each, the
  packets under way, and the steps. Packets are delivered in any order, late or never; the
  connection of two gateways may be lost at any time. What the network guarantees is proved from
  the two contracts of \<open>Seq_Gossip\<close> and from what a receiver makes of the three packets (locale
  \<open>gossip_protocol\<close>); the node managers and the topic managers are its interpretations.
\<close>

section \<open>Networks\<close>

record ('p, 's, 'm, 'op) gossip_net =
  gn_state :: "'p \<Rightarrow> 's"
  gn_wire :: "('p \<times> 'p \<times> 'm) list" \<comment> \<open>sender, receiver, packet\<close>
  gn_history :: "'p \<Rightarrow> 'op list" \<comment> \<open>the local operations of each gateway so far\<close>

text \<open>
  \<open>lstep\<close> is a local operation, \<open>announce\<close> the packet a gateway sends by its timer, \<open>recv p m s\<close>
  the answers to packet \<open>m\<close> of gateway \<open>p\<close> with the state after, and \<open>forget p\<close> what the loss of
  the connection with \<open>p\<close> does.
\<close>

inductive gossip_step :: "('op \<Rightarrow> 's \<Rightarrow> 's) \<Rightarrow> ('op \<Rightarrow> bool) \<Rightarrow> ('s \<Rightarrow> 'm) \<Rightarrow> ('p \<Rightarrow> 'm \<Rightarrow> 's \<Rightarrow> ('m list \<times> 's) option) \<Rightarrow>
    ('p \<Rightarrow> 's \<Rightarrow> 's) \<Rightarrow> ('p, 's, 'm, 'op) gossip_net \<Rightarrow> ('p, 's, 'm, 'op) gossip_net \<Rightarrow> bool"
  for lstep op_ok announce recv forget where
  gossip_local:
    "op_ok op \<Longrightarrow> gossip_step lstep op_ok announce recv forget n
      (n\<lparr>gn_state := (gn_state n)(p := lstep op (gn_state n p)),
         gn_history := (gn_history n)(p := gn_history n p @ [op])\<rparr>)"
| gossip_announce:
    "gossip_step lstep op_ok announce recv forget n (n\<lparr>gn_wire := gn_wire n @ [(p, q, announce (gn_state n p))]\<rparr>)"
| gossip_deliver:
    "gn_wire n = before @ (p, q, m) # after \<Longrightarrow> recv p m (gn_state n q) = Some (outs, s') \<Longrightarrow>
     gossip_step lstep op_ok announce recv forget n
      (n\<lparr>gn_state := (gn_state n)(q := s'), gn_wire := before @ after @ map (\<lambda>out. (q, p, out)) outs\<rparr>)"
| gossip_lose:
    "gn_wire n = before @ packet # after \<Longrightarrow>
     gossip_step lstep op_ok announce recv forget n (n\<lparr>gn_wire := before @ after\<rparr>)"
| gossip_forget:
    "gossip_step lstep op_ok announce recv forget n (n\<lparr>gn_state := (gn_state n)(p := forget q (gn_state n p))\<rparr>)"

inductive gossip_steps :: "('op \<Rightarrow> 's \<Rightarrow> 's) \<Rightarrow> ('op \<Rightarrow> bool) \<Rightarrow> ('s \<Rightarrow> 'm) \<Rightarrow> ('p \<Rightarrow> 'm \<Rightarrow> 's \<Rightarrow> ('m list \<times> 's) option) \<Rightarrow>
    ('p \<Rightarrow> 's \<Rightarrow> 's) \<Rightarrow> ('p, 's, 'm, 'op) gossip_net \<Rightarrow> ('p, 's, 'm, 'op) gossip_net \<Rightarrow> bool"
  for lstep op_ok announce recv forget where
  gossip_refl: "gossip_steps lstep op_ok announce recv forget n n"
| gossip_more:
    "gossip_steps lstep op_ok announce recv forget n n' \<Longrightarrow> gossip_step lstep op_ok announce recv forget n' n'' \<Longrightarrow>
     gossip_steps lstep op_ok announce recv forget n n''"

definition gossip_start :: "('p \<Rightarrow> 's) \<Rightarrow> ('p, 's, 'm, 'op) gossip_net" where
  "gossip_start s0 = \<lparr>gn_state = s0, gn_wire = [], gn_history = (\<lambda>_. [])\<rparr>"

lemma gossip_steps_trans:
  "gossip_steps lstep op_ok announce recv forget n' n'' \<Longrightarrow> gossip_steps lstep op_ok announce recv forget n n' \<Longrightarrow>
   gossip_steps lstep op_ok announce recv forget n n''"
  by (induction rule: gossip_steps.induct) (auto intro: gossip_more)

lemma gossip_steps_one:
  "gossip_step lstep op_ok announce recv forget n n' \<Longrightarrow> gossip_steps lstep op_ok announce recv forget n n'"
  by (rule gossip_more [OF gossip_refl])

section \<open>The contract of the protocol\<close>

text \<open>
  \<open>own s\<close> is the part of a state that the local operations work on; it decides what is announced
  and answered, and learning and forgetting leave it alone. \<open>table s\<close> is what \<open>answer s\<close> carries.
\<close>

locale gossip_protocol =
  pub: versioned lstep seq content bound + cache: forgetting_cache inv ok learn stale view abs forget empty
  for lstep :: "'op \<Rightarrow> 's \<Rightarrow> 's" and seq :: "'s \<Rightarrow> u32" and content :: "'s \<Rightarrow> 'c" and bound :: "'op \<Rightarrow> nat"
    and inv :: "'s \<Rightarrow> bool" and ok :: "'v \<Rightarrow> bool" and learn :: "'p \<Rightarrow> u32 \<Rightarrow> 'v \<Rightarrow> 's \<Rightarrow> 's"
    and stale :: "'p \<Rightarrow> u32 \<Rightarrow> 's \<Rightarrow> bool" and view :: "'s \<Rightarrow> 'p \<Rightarrow> 'c" and abs :: "'v \<Rightarrow> 'c"
    and forget :: "'p \<Rightarrow> 's \<Rightarrow> 's" and empty :: 'c +
  fixes op_ok :: "'op \<Rightarrow> bool" and own :: "'s \<Rightarrow> 'l" and table :: "'s \<Rightarrow> 'v"
    and announce :: "'s \<Rightarrow> 'm" and ask :: 'm and answer :: "'s \<Rightarrow> 'm" and recv :: "'p \<Rightarrow> 'm \<Rightarrow> 's \<Rightarrow> ('m list \<times> 's) option"
  assumes inv_step: "inv s \<Longrightarrow> op_ok op \<Longrightarrow> inv (lstep op s)"
    and step_cache: "stale q k (lstep op s) = stale q k s" "view (lstep op s) q = view s q"
    and own_step: "own s = own s' \<Longrightarrow> own (lstep op s) = own (lstep op s')"
    and own_learn: "own (learn q k v s) = own s" and own_forget: "own (forget q s) = own s"
    and own_seq: "own s = own s' \<Longrightarrow> seq s = seq s'" and own_content: "own s = own s' \<Longrightarrow> content s = content s'"
    and own_announce: "own s = own s' \<Longrightarrow> announce s = announce s'" and own_answer: "own s = own s' \<Longrightarrow> answer s = answer s'"
    and table_ok: "inv s \<Longrightarrow> ok (table s)" and table_content: "inv s \<Longrightarrow> abs (table s) = content s"
    and recv_announce: "inv s \<Longrightarrow> inv s' \<Longrightarrow> recv p (announce s') s = Some (if stale p (seq s') s then [ask] else [], s)"
    and recv_ask: "inv s \<Longrightarrow> recv p ask s = Some ([answer s], s)"
    and recv_answer: "inv s \<Longrightarrow> inv s' \<Longrightarrow> recv p (answer s') s = Some ([], learn p (seq s') (table s') s)"
begin

abbreviation "step \<equiv> gossip_step lstep op_ok announce recv forget"
abbreviation "steps \<equiv> gossip_steps lstep op_ok announce recv forget"

definition snapshot :: "'op list \<Rightarrow> 's \<Rightarrow> 's \<Rightarrow> bool" where
  "snapshot ops s0 s \<longleftrightarrow> (\<exists>i \<le> length ops. s = fold lstep (take i ops) s0)"

definition packet_ok :: "'op list \<Rightarrow> 's \<Rightarrow> 'm \<Rightarrow> bool" where
  "packet_ok ops s0 m \<longleftrightarrow> m = ask \<or> (\<exists>s. snapshot ops s0 s \<and> (m = announce s \<or> m = answer s))"

definition net_ok :: "('p \<Rightarrow> 's) \<Rightarrow> ('p, 's, 'm, 'op) gossip_net \<Rightarrow> bool" where
  "net_ok s0 n \<longleftrightarrow>
     (\<forall>p. list_all op_ok (gn_history n p)) \<and>
     (\<forall>p. own (gn_state n p) = own (fold lstep (gn_history n p) (s0 p))) \<and>
     (\<forall>p. cache.coherent (\<lambda>q. pub.published (gn_history n q) (s0 q)) (gn_state n p)) \<and>
     (\<forall>p q m. (p, q, m) \<in> set (gn_wire n) \<longrightarrow> packet_ok (gn_history n p) (s0 p) m)"

lemma own_run: "own s = own s' \<Longrightarrow> own (fold lstep ops s) = own (fold lstep ops s')"
proof (induction ops arbitrary: s s')
  case (Cons op ops)
  show ?case using Cons.IH [OF own_step [OF Cons.prems]] by simp
qed simp

lemma inv_run: "inv s \<Longrightarrow> list_all op_ok ops \<Longrightarrow> inv (fold lstep ops s)"
  by (induction ops arbitrary: s) (simp_all add: inv_step)

lemma snapshot_inv: "inv s0 \<Longrightarrow> list_all op_ok ops \<Longrightarrow> snapshot ops s0 s \<Longrightarrow> inv s"
  by (auto simp: snapshot_def intro!: inv_run) (auto simp: list_all_iff dest: in_set_takeD)

lemma snapshot_now: "snapshot ops s0 (fold lstep ops s0)"
  by (auto simp: snapshot_def intro: exI [of _ "length ops"])

lemma take_prefix: "i \<le> length ops \<Longrightarrow> take i (ops @ ops') = take i ops \<and> i \<le> length (ops @ ops')"
  by simp

lemma snapshot_more: "snapshot ops s0 s \<Longrightarrow> snapshot (ops @ ops') s0 s"
  unfolding snapshot_def using take_prefix by metis

lemma snapshot_published: "snapshot ops s0 s \<Longrightarrow> pub.published ops s0 (seq s) (content s)"
  by (auto simp: snapshot_def pub.published_def)

lemma published_more: "pub.published ops s0 k c \<Longrightarrow> pub.published (ops @ ops') s0 k c"
  unfolding pub.published_def using take_prefix by metis

lemma packet_more: "packet_ok ops s0 m \<Longrightarrow> packet_ok (ops @ ops') s0 m"
  by (auto simp: packet_ok_def dest: snapshot_more)

lemma coherent_mono:
  "cache.coherent says s \<Longrightarrow> (\<And>q k c. says q k c \<Longrightarrow> says' q k c) \<Longrightarrow> cache.coherent says' s"
  by (auto simp: cache.coherent_def)

lemma published_longer:
  "pub.published (h q) (s0 q) k c \<Longrightarrow> pub.published ((h(p := h p @ [op])) q) (s0 q) k c"
  by (cases "q = p") (auto dest: published_more)

lemma coherent_local: "cache.coherent says s \<Longrightarrow> op_ok op \<Longrightarrow> cache.coherent says (lstep op s)"
  by (simp add: cache.coherent_def inv_step step_cache)

text \<open>Every step keeps the network in order.\<close>

lemma net_okD:
  assumes "net_ok s0 n"
  shows "list_all op_ok (gn_history n p)" and "own (gn_state n p) = own (fold lstep (gn_history n p) (s0 p))"
    and "cache.coherent (\<lambda>q. pub.published (gn_history n q) (s0 q)) (gn_state n p)"
    and "(p, q, m) \<in> set (gn_wire n) \<Longrightarrow> packet_ok (gn_history n p) (s0 p) m" and "inv (gn_state n p)"
  using assms unfolding net_ok_def cache.coherent_def by blast+

lemma net_okI:
  assumes "\<And>p. list_all op_ok (gn_history n p)" and "\<And>p. own (gn_state n p) = own (fold lstep (gn_history n p) (s0 p))"
    and "\<And>p. cache.coherent (\<lambda>q. pub.published (gn_history n q) (s0 q)) (gn_state n p)"
    and "\<And>p q m. (p, q, m) \<in> set (gn_wire n) \<Longrightarrow> packet_ok (gn_history n p) (s0 p) m"
  shows "net_ok s0 n"
  using assms unfolding net_ok_def by blast

lemma net_ok_local:
  assumes ok: "net_ok s0 n" and op: "op_ok op"
  shows "net_ok s0 (n\<lparr>gn_state := (gn_state n)(p := lstep op (gn_state n p)),
     gn_history := (gn_history n)(p := gn_history n p @ [op])\<rparr>)"
proof -
  let ?h = "gn_history n" and ?h' = "(gn_history n)(p := gn_history n p @ [op])"
  have coherent: "cache.coherent (\<lambda>q. pub.published (?h' q) (s0 q)) (gn_state n r)" for r
    by (rule coherent_mono [OF net_okD(3) [OF ok] published_longer])
  have own: "own (lstep op (gn_state n p)) = own (fold lstep (?h' p) (s0 p))"
    using own_step [OF net_okD(2) [OF ok], of op p] by simp
  show ?thesis
  proof (rule net_okI)
    fix r
    show "list_all op_ok (gn_history (n\<lparr>gn_state := (gn_state n)(p := lstep op (gn_state n p)), gn_history := ?h'\<rparr>) r)"
      using net_okD(1) [OF ok] op by simp
    show "own (gn_state (n\<lparr>gn_state := (gn_state n)(p := lstep op (gn_state n p)), gn_history := ?h'\<rparr>) r)
        = own (fold lstep (gn_history (n\<lparr>gn_state := (gn_state n)(p := lstep op (gn_state n p)), gn_history := ?h'\<rparr>) r) (s0 r))"
      using own net_okD(2) [OF ok] by simp
    show "cache.coherent (\<lambda>q. pub.published (gn_history (n\<lparr>gn_state := (gn_state n)(p := lstep op (gn_state n p)),
        gn_history := ?h'\<rparr>) q) (s0 q)) (gn_state (n\<lparr>gn_state := (gn_state n)(p := lstep op (gn_state n p)), gn_history := ?h'\<rparr>) r)"
      using coherent coherent_local [OF coherent op] by (cases "r = p") simp_all
  next
    fix r q m
    assume "(r, q, m) \<in> set (gn_wire (n\<lparr>gn_state := (gn_state n)(p := lstep op (gn_state n p)), gn_history := ?h'\<rparr>))"
    then have "packet_ok (?h r) (s0 r) m" using net_okD(4) [OF ok] by simp
    then show "packet_ok (gn_history (n\<lparr>gn_state := (gn_state n)(p := lstep op (gn_state n p)), gn_history := ?h'\<rparr>) r) (s0 r) m"
      by (cases "r = p") (auto dest: packet_more)
  qed
qed

lemma net_ok_learn:
  assumes ok: "net_ok s0 n" and s0: "\<And>p. inv (s0 p)" and wire: "(p, q, m) \<in> set (gn_wire n)"
    and recv: "recv p m (gn_state n q) = Some (outs, s')"
  shows "own s' = own (gn_state n q)" and "cache.coherent (\<lambda>q. pub.published (gn_history n q) (s0 q)) s'"
    and "out \<in> set outs \<Longrightarrow> out = ask \<or> out = answer (gn_state n q)"
proof -
  have coherent: "cache.coherent (\<lambda>q. pub.published (gn_history n q) (s0 q)) (gn_state n q)"
    and inv: "inv (gn_state n q)" and hist: "list_all op_ok (gn_history n p)"
    using net_okD [OF ok] by blast+
  consider "m = ask" | s where "snapshot (gn_history n p) (s0 p) s" "m = announce s"
    | s where "snapshot (gn_history n p) (s0 p) s" "m = answer s"
    using net_okD(4) [OF ok wire] unfolding packet_ok_def by blast
  then have "own s' = own (gn_state n q) \<and> cache.coherent (\<lambda>q. pub.published (gn_history n q) (s0 q)) s' \<and>
      (out \<in> set outs \<longrightarrow> out = ask \<or> out = answer (gn_state n q))"
  proof cases
    case 1
    then show ?thesis using recv recv_ask [OF inv] coherent by auto
  next
    case (2 s)
    then show ?thesis using recv recv_announce [OF inv snapshot_inv [OF s0 hist 2(1)]] coherent by (auto split: if_splits)
  next
    case (3 s)
    have s: "inv s" by (rule snapshot_inv [OF s0 hist 3(1)])
    then have "s' = learn p (seq s) (table s) (gn_state n q)" "outs = []" using recv recv_answer [OF inv s] 3(2) by auto
    moreover have "pub.published (gn_history n p) (s0 p) (seq s) (abs (table s))"
      using snapshot_published [OF 3(1)] table_content [OF s] by simp
    ultimately show ?thesis using cache.coherent_learn [OF coherent table_ok [OF s]] by (simp add: own_learn)
  qed
  then show "own s' = own (gn_state n q)" and "cache.coherent (\<lambda>q. pub.published (gn_history n q) (s0 q)) s'"
    and "out \<in> set outs \<Longrightarrow> out = ask \<or> out = answer (gn_state n q)" by blast+
qed

lemma packet_own:
  assumes "own s = own (fold lstep ops s0)"
  shows "packet_ok ops s0 (announce s)" and "packet_ok ops s0 (answer s)"
  using own_announce [OF assms] own_answer [OF assms] snapshot_now [of ops s0] by (auto simp: packet_ok_def)

lemma net_ok_step:
  assumes ok: "net_ok s0 n" and s0: "\<And>p. inv (s0 p)" and step: "step n n'"
  shows "net_ok s0 n'"
  using step
proof (cases rule: gossip_step.cases)
  case (gossip_local op p)
  then show ?thesis using net_ok_local [OF ok] by simp
next
  case (gossip_announce p q)
  show ?thesis
    using net_okD [OF ok] packet_own(1) [OF net_okD(2) [OF ok]] by (intro net_okI) (auto simp: gossip_announce)
next
  case (gossip_deliver before p q m after outs s')
  have "(p, q, m) \<in> set (gn_wire n)" by (simp add: gossip_deliver(2))
  note new = net_ok_learn [OF ok s0 this gossip_deliver(3)]
  have out: "packet_ok (gn_history n q) (s0 q) out" if "out \<in> set outs" for out
    using new(3) [OF that] packet_own(2) [OF net_okD(2) [OF ok]] by (auto simp: packet_ok_def)
  have old: "(r, t, x) \<in> set before \<Longrightarrow> packet_ok (gn_history n r) (s0 r) x"
      "(r, t, x) \<in> set after \<Longrightarrow> packet_ok (gn_history n r) (s0 r) x" for r t x
    using net_okD(4) [OF ok, of r t x] by (simp_all add: gossip_deliver(2))
  show ?thesis
    using net_okD(1-3) [OF ok] new(1,2) out old by (intro net_okI) (auto simp: gossip_deliver(1))
next
  case (gossip_lose before packet after)
  have old: "(r, t, x) \<in> set before \<Longrightarrow> packet_ok (gn_history n r) (s0 r) x"
      "(r, t, x) \<in> set after \<Longrightarrow> packet_ok (gn_history n r) (s0 r) x" for r t x
    using net_okD(4) [OF ok, of r t x] by (simp_all add: gossip_lose(2))
  show ?thesis using net_okD(1-3) [OF ok] old by (intro net_okI) (auto simp: gossip_lose(1))
next
  case (gossip_forget p q)
  show ?thesis
    using net_okD [OF ok] by (intro net_okI) (auto simp: gossip_forget own_forget intro: cache.coherent_forget)
qed

lemma net_ok_steps: "steps n n' \<Longrightarrow> (\<And>p. inv (s0 p)) \<Longrightarrow> net_ok s0 n \<Longrightarrow> net_ok s0 n'"
  by (induction rule: gossip_steps.induct) (auto intro: net_ok_step)

lemma net_ok_start:
  assumes "\<And>p. inv (s0 p)" and "\<And>p q k. stale q k (s0 p)"
  shows "net_ok s0 (gossip_start s0)"
  using assms by (simp add: net_ok_def gossip_start_def cache.coherent_def)

text \<open>
  Equal numbers mean equal tables, in every state of the network: what \<open>p\<close> holds of \<open>q\<close> under the
  number that \<open>q\<close> has now is what \<open>q\<close> has now.
\<close>

lemma net_in_step:
  assumes ok: "net_ok s0 n" and small: "sum_list (map bound (gn_history n q)) < 2 ^ 32"
    and current: "\<not> stale q (seq (gn_state n q)) (gn_state n p)"
  shows "view (gn_state n p) q = content (gn_state n q)"
proof -
  let ?s = "fold lstep (gn_history n q) (s0 q)"
  have "pub.published (gn_history n q) (s0 q) (seq (gn_state n q)) (content (gn_state n q))"
    using snapshot_published [OF snapshot_now] own_seq [OF net_okD(2) [OF ok]] own_content [OF net_okD(2) [OF ok]] by simp
  then show ?thesis
    by (rule cache.current_content [OF net_okD(3) [OF ok] current]) (rule pub.published_unique [OF small])
qed

text \<open>A whole exchange: \<open>q\<close> announces itself to \<open>p\<close>, which asks and is answered if it has to.\<close>

definition synced :: "'p \<Rightarrow> 'p \<Rightarrow> ('p, 's, 'm, 'op) gossip_net \<Rightarrow> ('p, 's, 'm, 'op) gossip_net" where
  "synced p q n = (if stale q (seq (gn_state n q)) (gn_state n p)
     then n\<lparr>gn_state := (gn_state n)(p := learn q (seq (gn_state n q)) (table (gn_state n q)) (gn_state n p))\<rparr> else n)"

lemma steps_synced:
  assumes ok: "net_ok s0 n"
  shows "steps n (synced p q n)"
proof -
  note inv = net_okD(5) [OF ok]
  let ?w = "gn_wire n" and ?heard = "stale q (seq (gn_state n q)) (gn_state n p)"
  let ?n1 = "n\<lparr>gn_wire := ?w @ [(q, p, announce (gn_state n q))]\<rparr>"
  have 1: "step n ?n1" by (rule gossip_announce)
  have heard: "step ?n1 (n\<lparr>gn_wire := ?w @ map (\<lambda>out. (p, q, out)) outs\<rparr>)"
    if "recv q (announce (gn_state n q)) (gn_state n p) = Some (outs, gn_state n p)" for outs
    using gossip_deliver [of ?n1 ?w q p "announce (gn_state n q)" "[]" recv outs "gn_state n p"] that by simp
  have same: "n\<lparr>gn_wire := ?w\<rparr> = n" by (cases n) simp
  show ?thesis
  proof (cases ?heard)
    case False
    then have "step ?n1 n" using heard [of "[]"] recv_announce [OF inv inv] same by simp
    with False gossip_more [OF gossip_steps_one [OF 1]] show ?thesis by (simp add: synced_def)
  next
    case True
    let ?n2 = "n\<lparr>gn_wire := ?w @ [(p, q, ask)]\<rparr>" and ?n3 = "n\<lparr>gn_wire := ?w @ [(q, p, answer (gn_state n q))]\<rparr>"
    have "step ?n1 ?n2" using heard [of "[ask]"] recv_announce [OF inv inv] True by simp
    moreover have "step ?n2 ?n3"
      using gossip_deliver [of ?n2 ?w p q ask "[]" recv "[answer (gn_state n q)]" "gn_state n q"] recv_ask [OF inv] by simp
    moreover have "step ?n3 (synced p q n)"
      using gossip_deliver [of ?n3 ?w q p "answer (gn_state n q)" "[]" recv "[]"
          "learn q (seq (gn_state n q)) (table (gn_state n q)) (gn_state n p)"] recv_answer [OF inv inv] True
      by (simp add: synced_def)
    ultimately show ?thesis using gossip_more [OF gossip_more [OF gossip_more [OF gossip_steps_one [OF 1]]]] by blast
  qed
qed

lemma synced_facts:
  assumes ok: "net_ok s0 n" and small: "sum_list (map bound (gn_history n q)) < 2 ^ 32"
  shows "own (gn_state (synced p q n) r) = own (gn_state n r)"
    and "gn_history (synced p q n) = gn_history n" and "gn_wire (synced p q n) = gn_wire n"
    and "view (gn_state (synced p q n) p) q = content (gn_state n q)"
    and "(r, t) \<noteq> (p, q) \<Longrightarrow> view (gn_state (synced p q n) r) t = view (gn_state n r) t"
proof -
  note inv = net_okD(5) [OF ok]
  show "own (gn_state (synced p q n) r) = own (gn_state n r)"
    and "gn_history (synced p q n) = gn_history n" and "gn_wire (synced p q n) = gn_wire n"
    by (simp_all add: synced_def own_learn)
  show "view (gn_state (synced p q n) p) q = content (gn_state n q)"
    using net_in_step [OF ok small, of p] cache.view_learn [OF inv table_ok [OF inv]] table_content [OF inv]
    by (simp add: synced_def)
  show "(r, t) \<noteq> (p, q) \<Longrightarrow> view (gn_state (synced p q n) r) t = view (gn_state n r) t"
    using cache.view_learn [OF inv table_ok [OF inv]] by (auto simp: synced_def)
qed

text \<open>From every state exchanges between the gateways bring them in step, without any other operation.\<close>

lemma net_converges:
  assumes ok: "net_ok s0 n" and s0: "\<And>p. inv (s0 p)" and small: "\<And>q. sum_list (map bound (gn_history n q)) < 2 ^ 32"
  shows "\<exists>n'. steps n n' \<and> gn_history n' = gn_history n \<and> gn_wire n' = gn_wire n \<and>
    (\<forall>r. own (gn_state n' r) = own (gn_state n r)) \<and>
    (\<forall>(p, q) \<in> set pairs. view (gn_state n' p) q = content (gn_state n' q)) \<and>
    (\<forall>p q. (p, q) \<notin> set pairs \<longrightarrow> view (gn_state n' p) q = view (gn_state n p) q)"
proof (induction pairs)
  case Nil
  then show ?case using gossip_refl by (intro exI [of _ n]) simp
next
  case (Cons pq pairs)
  then obtain n1 where n1: "steps n n1" "gn_history n1 = gn_history n" "gn_wire n1 = gn_wire n"
      "\<And>r. own (gn_state n1 r) = own (gn_state n r)"
      "\<And>p q. (p, q) \<in> set pairs \<Longrightarrow> view (gn_state n1 p) q = content (gn_state n1 q)"
      "\<And>p q. (p, q) \<notin> set pairs \<Longrightarrow> view (gn_state n1 p) q = view (gn_state n p) q" by blast
  obtain p q where pq: "pq = (p, q)" by fastforce
  have ok1: "net_ok s0 n1" by (rule net_ok_steps [OF n1(1) s0 ok])
  have small1: "sum_list (map bound (gn_history n1 q)) < 2 ^ 32" using small n1(2) by simp
  note new = synced_facts [OF ok1 small1, where p = p]
  have content: "content (gn_state (synced p q n1) r) = content (gn_state n1 r)" for r by (rule own_content [OF new(1)])
  have "view (gn_state (synced p q n1) r) t = content (gn_state (synced p q n1) t)" if "(r, t) \<in> set (pq # pairs)" for r t
    using that new(4) new(5) [where r = r and t = t] n1(5) content by (cases "(r, t) = (p, q)") (auto simp: pq)
  moreover have "view (gn_state (synced p q n1) r) t = view (gn_state n r) t" if "(r, t) \<notin> set (pq # pairs)" for r t
    using that new(5) [where r = r and t = t] n1(6) [of r t] by (simp add: pq)
  moreover have "steps n (synced p q n1)" by (rule gossip_steps_trans [OF steps_synced [OF ok1] n1(1)])
  ultimately show ?case using new(1-3) n1(2-4) by (intro exI [of _ "synced p q n1"]) auto
qed

end

end
