(* ===== verification/Net_Common.thy ===== *)
theory Net_Common
  imports Gw_Prelude
begin

text \<open>
  \<open>libnetwork/Common.h\<close> and \<open>libnetwork/Message.h\<close>: the enumerations of the network layer,
  network exceptions, and the sequence counter of the message factory. The record \<open>bcos_fw\<close>
  gathers what the gateway takes from bcos-framework, whose sources are not part of the
  repository: the packet type and error code constants, the cropping of a byte reference, the
  key and hex conversions and the text-to-number casts. It is an argument of every definition
  that uses one of its members, and each fact a theorem needs of it is a hypothesis that says
  what the member is documented to do.
\<close>

section \<open>Enumerations\<close>

datatype disconnect_reason =
    DisconnectRequested | TCPError | BadProtocol | UselessPeer | TooManyPeers | DuplicatePeer
  | IncompatibleProtocol | NullIdentity | ClientQuit | UnexpectedIdentity | LocalIdentity
  | PingTimeout | UserReason | IdleWaitTimeout | NoDisconnect

fun disconnect_code :: "disconnect_reason \<Rightarrow> int" where
  "disconnect_code DisconnectRequested = 0"
| "disconnect_code TCPError = 1"
| "disconnect_code BadProtocol = 2"
| "disconnect_code UselessPeer = 3"
| "disconnect_code TooManyPeers = 4"
| "disconnect_code DuplicatePeer = 5"
| "disconnect_code IncompatibleProtocol = 6"
| "disconnect_code NullIdentity = 7"
| "disconnect_code ClientQuit = 8"
| "disconnect_code UnexpectedIdentity = 9"
| "disconnect_code LocalIdentity = 10"
| "disconnect_code PingTimeout = 11"
| "disconnect_code UserReason = 0x10"
| "disconnect_code IdleWaitTimeout = 0x11"
| "disconnect_code NoDisconnect = 0xffff"

fun reasonOf :: "disconnect_reason \<Rightarrow> string" where
  "reasonOf DisconnectRequested = ''Disconnect was requested.''"
| "reasonOf TCPError = ''Low-level TCP communication error.''"
| "reasonOf BadProtocol = ''Data format error.''"
| "reasonOf UselessPeer = ''Peer had no use for this node.''"
| "reasonOf TooManyPeers = ''Peer had too many connections.''"
| "reasonOf DuplicatePeer = ''Peer was already connected.''"
| "reasonOf IncompatibleProtocol = ''Peer protocol versions are incompatible.''"
| "reasonOf NullIdentity = ''Null identity given.''"
| "reasonOf ClientQuit = ''Peer is exiting.''"
| "reasonOf UnexpectedIdentity = ''Unexpected identity given.''"
| "reasonOf LocalIdentity = ''Connected to ourselves.''"
| "reasonOf UserReason = ''Subprotocol reason.''"
| "reasonOf NoDisconnect = ''(No disconnect has happened.)''"
| "reasonOf IdleWaitTimeout =
     ''(Idle connection for no network io happens during 5s time intervals.)''"
| "reasonOf _ = ''Unknown reason.''"

datatype p2p_exception_type =
    Success | ProtocolError | NetworkTimeout | Disconnect | P2PExceptionTypeCnt | ConnectError
  | DuplicateSession | NotInWhitelist | AllExceptions

fun exception_code :: "p2p_exception_type \<Rightarrow> int" where
  "exception_code Success = 0"
| "exception_code ProtocolError = 1"
| "exception_code NetworkTimeout = 2"
| "exception_code Disconnect = 3"
| "exception_code P2PExceptionTypeCnt = 4"
| "exception_code ConnectError = 5"
| "exception_code DuplicateSession = 6"
| "exception_code NotInWhitelist = 7"
| "exception_code AllExceptions = 8"

definition MESSAGE_ERROR :: int where "MESSAGE_ERROR = -1"

definition MESSAGE_INCOMPLETE :: int where "MESSAGE_INCOMPLETE = 0"

definition ext_Response :: u16 where "ext_Response = 0x0001"

lemma exception_code_eq_0 [simp]: "exception_code t = 0 \<longleftrightarrow> t = Success"
  by (cases t) auto

lemma exception_code_inject: "exception_code a = exception_code b \<longleftrightarrow> a = b"
  by (cases a; cases b) auto

section \<open>Exceptions and errors\<close>

record network_exception =
  ne_code :: int
  ne_msg :: string

record error_info =
  err_code :: int
  err_msg :: string

definition network_error :: "p2p_exception_type \<Rightarrow> string \<Rightarrow> network_exception" where
  "network_error t msg = \<lparr>ne_code = exception_code t, ne_msg = msg\<rparr>"

definition toError :: "network_exception \<Rightarrow> error_info" where
  "toError e = \<lparr>err_code = ne_code e, err_msg = ne_msg e\<rparr>"

lemma ne_code_network_error [simp]: "ne_code (network_error t msg) = exception_code t"
  by (simp add: network_error_def)

section \<open>What the gateway takes from bcos-framework\<close>

record 'key bcos_fw =
  mtHandshake :: u16
  mtHeartbeat :: u16
  mtRequestNodeIDs :: u16
  mtResponseNodeIDs :: u16
  mtPeerToPeerMessage :: u16
  mtBroadcastMessage :: u16
  mtAMOPMessageType :: u16
  mtWSMessageType :: u16
  ceSUCCESS :: int
  ceNotFoundFrontServiceSendMsg :: int
  ceGatewaySendMsgFailed :: int
  ceNotFoundFrontServiceDispatchMsg :: int
  ceNotFoundPeerByTopicSendMsg :: int
  ceAMOPSendMsgFailed :: int
  ceNotFoundClientByTopicDispatchMsg :: int
  cropFrom :: "bytes \<Rightarrow> nat \<Rightarrow> bytes" \<comment> \<open>\<open>getCroppedData(start)\<close>\<close>
  cropRange :: "bytes \<Rightarrow> nat \<Rightarrow> nat \<Rightarrow> bytes" \<comment> \<open>\<open>getCroppedData(start, count)\<close>\<close>
  createKey :: "bytes \<Rightarrow> 'key"
  keyEncode :: "'key \<Rightarrow> bytes"
  keyHex :: "'key \<Rightarrow> string"
  fromHexString :: "string \<Rightarrow> bytes option" \<comment> \<open>\<open>None\<close>: a null pointer\<close>
  castInt :: "string \<Rightarrow> int option" \<comment> \<open>\<open>boost::lexical_cast<int>\<close>, \<open>None\<close>: it throws\<close>
  castU32 :: "string \<Rightarrow> u32 option" \<comment> \<open>\<open>boost::lexical_cast<uint32_t>\<close>\<close>

text \<open>
  A cropped reference is the part of the buffer it names. Nothing is said of a crop that leaves
  the buffer.
\<close>

definition crop_spec :: "('key, 'more) bcos_fw_scheme \<Rightarrow> bool" where
  "crop_spec fw \<longleftrightarrow>
     (\<forall>b i. i \<le> length b \<longrightarrow> cropFrom fw b i = drop i b) \<and>
     (\<forall>b i n. i + n \<le> length b \<longrightarrow> cropRange fw b i n = take n (drop i b))"

lemma crop_from_eq: "crop_spec fw \<Longrightarrow> i \<le> length b \<Longrightarrow> cropFrom fw b i = drop i b"
  by (simp add: crop_spec_def)

lemma crop_range_eq:
  "crop_spec fw \<Longrightarrow> i + n \<le> length b \<Longrightarrow> cropRange fw b i n = take n (drop i b)"
  by (simp add: crop_spec_def)

text \<open>The packet types that select a branch of \<open>Service::onMessage\<close> are different constants.\<close>

definition types_spec :: "('key, 'more) bcos_fw_scheme \<Rightarrow> bool" where
  "types_spec fw \<longleftrightarrow>
     distinct [mtHandshake fw, mtHeartbeat fw, mtRequestNodeIDs fw, mtResponseNodeIDs fw,
       mtPeerToPeerMessage fw, mtBroadcastMessage fw, mtAMOPMessageType fw, mtWSMessageType fw]"

text \<open>
  A concrete instance, for the examples that show the hypotheses can hold: keys are byte strings,
  the casts read unsigned decimals.
\<close>

fun read_dec :: "nat \<Rightarrow> string \<Rightarrow> nat option" where
  "read_dec acc [] = Some acc"
| "read_dec acc (c # cs) =
     (let d = (of_char c :: nat)
      in if 48 \<le> d \<and> d \<le> 57 then read_dec (10 * acc + (d - 48)) cs else None)"

definition read_int :: "string \<Rightarrow> int option" where
  "read_int s = (case s of [] \<Rightarrow> None
     | c # cs \<Rightarrow> if c = CHR ''-'' then (if cs = [] then None else map_option (\<lambda>n. - int n) (read_dec 0 cs))
                 else map_option int (read_dec 0 s))"

definition example_fw :: "bytes bcos_fw" where
  "example_fw = \<lparr>mtHandshake = 1, mtHeartbeat = 2, mtRequestNodeIDs = 3, mtResponseNodeIDs = 4,
     mtPeerToPeerMessage = 5, mtBroadcastMessage = 6, mtAMOPMessageType = 7, mtWSMessageType = 8,
     ceSUCCESS = 0, ceNotFoundFrontServiceSendMsg = 101, ceGatewaySendMsgFailed = 102,
     ceNotFoundFrontServiceDispatchMsg = 103, ceNotFoundPeerByTopicSendMsg = 104,
     ceAMOPSendMsgFailed = 105, ceNotFoundClientByTopicDispatchMsg = 106,
     cropFrom = (\<lambda>b i. drop i b), cropRange = (\<lambda>b i n. take n (drop i b)),
     createKey = (\<lambda>b. b), keyEncode = (\<lambda>k. k), keyHex = string_of_bytes,
     fromHexString = (\<lambda>s. Some (bytes_of_string s)),
     castInt = read_int,
     castU32 = (\<lambda>s. if s = [] then None else map_option of_nat (read_dec 0 s))\<rparr>"

lemma example_fw_sel [simp]:
  "mtHandshake example_fw = 1" "mtHeartbeat example_fw = 2" "mtRequestNodeIDs example_fw = 3"
  "mtResponseNodeIDs example_fw = 4" "mtPeerToPeerMessage example_fw = 5"
  "mtBroadcastMessage example_fw = 6" "mtAMOPMessageType example_fw = 7"
  "mtWSMessageType example_fw = 8" "ceSUCCESS example_fw = 0"
  "cropFrom example_fw b i = drop i b" "cropRange example_fw b i n = take n (drop i b)"
  "createKey example_fw b = b" "keyEncode example_fw b = b" "keyHex example_fw b = string_of_bytes b"
  "fromHexString example_fw s = Some (bytes_of_string s)"
  "castInt example_fw s = read_int s"
  "castU32 example_fw s = (if s = [] then None else map_option of_nat (read_dec 0 s))"
  by (simp_all add: example_fw_def)

lemma example_fw_crop [simp]: "crop_spec example_fw"
  by (simp add: crop_spec_def)

lemma example_fw_types [simp]: "types_spec example_fw"
  by (simp add: types_spec_def)

text \<open>The casts read back what \<open>std::to_string\<close> prints.\<close>

definition decimal_spec :: "('key, 'more) bcos_fw_scheme \<Rightarrow> bool" where
  "decimal_spec fw \<longleftrightarrow> (\<forall>u. castU32 fw (to_string_nat (unat u)) = Some u) \<and>
     (\<forall>i. - (2 ^ 31) \<le> i \<longrightarrow> i < 2 ^ 31 \<longrightarrow> castInt fw (to_string_int i) = Some i)"

lemma read_dec_append: "read_dec acc (s @ t) = (case read_dec acc s of None \<Rightarrow> None | Some n \<Rightarrow> read_dec n t)"
  by (induction acc s rule: read_dec.induct) (simp_all add: Let_def)

lemma read_dec_digit: "d < 10 \<Longrightarrow> read_dec acc [char_of (48 + d)] = Some (10 * acc + d)"
  by (simp add: Let_def)

lemma read_dec_to_string: "read_dec 0 (to_string_nat n) = Some n"
proof (induction n rule: to_string_nat.induct)
  case (1 n)
  show ?case
  proof (cases "n < 10")
    case True
    then show ?thesis using read_dec_digit [of n 0] by (subst to_string_nat.simps) simp
  next
    case False
    then show ?thesis
      using 1 read_dec_digit [of "n mod 10" "n div 10"]
      by (subst to_string_nat.simps) (simp add: read_dec_append)
  qed
qed

lemma to_string_nat_digit: "\<exists>c cs. to_string_nat n = c # cs \<and> c \<noteq> CHR ''-''"
proof -
  obtain c cs where cs: "to_string_nat n = c # cs" by (metis to_string_nat_nonempty neq_Nil_conv)
  have "c \<noteq> CHR ''-''" using read_dec_to_string [of n] by (auto simp: cs Let_def)
  with cs show ?thesis by blast
qed

lemma example_fw_decimal [simp]: "decimal_spec example_fw"
proof -
  have "read_int (to_string_int i) = Some i" for i
    using to_string_nat_digit [of "nat i"] read_dec_to_string [of "nat i"] read_dec_to_string [of "nat (- i)"]
    by (auto simp: read_int_def to_string_int_def)
  then show ?thesis by (simp add: decimal_spec_def read_dec_to_string)
qed

section \<open>The sequence counter of the message factory\<close>

text \<open>\<open>m_seq\<close> starts at 1 and \<open>newSeq\<close> returns the incremented value (it wraps at 32 bits).\<close>

definition initial_seq :: u32 where "initial_seq = 1"

definition newSeq :: "u32 \<Rightarrow> u32 \<times> u32" where
  "newSeq m_seq = (let seq = m_seq + 1 in (seq, seq))"

fun newSeqs :: "nat \<Rightarrow> u32 \<Rightarrow> u32 list" where
  "newSeqs 0 m_seq = []"
| "newSeqs (Suc n) m_seq = (case newSeq m_seq of (s, m_seq') \<Rightarrow> s # newSeqs n m_seq')"

lemma length_newSeqs [simp]: "length (newSeqs n s) = n"
  by (induction n arbitrary: s) (simp_all add: newSeq_def Let_def)

lemma nth_newSeqs: "i < n \<Longrightarrow> newSeqs n s ! i = s + of_nat (Suc i)"
proof (induction n arbitrary: s i)
  case 0
  then show ?case by simp
next
  case (Suc n)
  then show ?case by (cases i) (simp_all add: newSeq_def Let_def add.assoc)
qed

end
