(* ===== verification/P2P_Message.thy ===== *)
theory P2P_Message
  imports Net_Common
begin

text \<open>
  \<open>libp2p/P2PMessage.h\<close> and \<open>libp2p/P2PMessage.cpp\<close>: the packet of the gateway network. The
  options carry the group and the node ids, the message the header, the options of the two
  packet types that have them, and the payload. Decoding mutates the message it is called on:
  the functions take the message before and return the message after, with the \<open>ssize_t\<close> result;
  a thrown range error is the result \<open>MESSAGE_ERROR\<close> with the fields assigned until then.
\<close>

section \<open>Options\<close>

definition OPTIONS_MIN_LENGTH :: nat where "OPTIONS_MIN_LENGTH = 5"

definition MAX_GROUPID_LENGTH :: nat where "MAX_GROUPID_LENGTH = 65535"

definition MAX_NODEID_LENGTH :: nat where "MAX_NODEID_LENGTH = 65535"

definition MAX_DST_NODEID_COUNT :: nat where "MAX_DST_NODEID_COUNT = 255"

text \<open>A \<open>shared_ptr<bytes>\<close> is an option: \<open>None\<close> is the null pointer.\<close>

record p2p_options =
  m_groupID :: string
  m_srcNodeID :: "bytes option"
  m_dstNodeIDs :: "bytes option list"

definition new_options :: p2p_options where
  "new_options = \<lparr>m_groupID = [], m_srcNodeID = Some [], m_dstNodeIDs = []\<rparr>"

definition bad_nodeID :: "bytes option \<Rightarrow> bool" where
  "bad_nodeID p = (case p of None \<Rightarrow> True | Some b \<Rightarrow> b = [] \<or> MAX_NODEID_LENGTH < length b)"

text \<open>
  \<open>P2PMessageOptions::encode\<close>: the parameter checks, then the fields, appended to the buffer.
\<close>

definition node_bytes :: "bytes option \<Rightarrow> bytes" where
  "node_bytes p = (case p of None \<Rightarrow> [] | Some b \<Rightarrow> b)"

definition options_bytes :: "p2p_options \<Rightarrow> bytes" where
  "options_bytes ops =
     be16 (word_of_nat (length (m_groupID ops))) @ bytes_of_string (m_groupID ops)
     @ be16 (word_of_nat (length (node_bytes (m_srcNodeID ops)))) @ node_bytes (m_srcNodeID ops)
     @ [word_of_nat (length (m_dstNodeIDs ops))]
     @ concat (map node_bytes (m_dstNodeIDs ops))"

definition options_encode :: "p2p_options \<Rightarrow> bytes \<Rightarrow> bool \<times> bytes" where
  "options_encode ops buf =
     (if MAX_GROUPID_LENGTH < length (m_groupID ops) then (False, buf)
      else if bad_nodeID (m_srcNodeID ops) then (False, buf)
      else if MAX_DST_NODEID_COUNT < length (m_dstNodeIDs ops) then (False, buf)
      else if list_ex bad_nodeID (m_dstNodeIDs ops) then (False, buf)
      else (True, buf @ options_bytes ops))"

text \<open>
  \<open>P2PMessageOptions::decode\<close>. \<open>off_throws\<close> is the check macro. The three parts below are the
  three stretches of the function between which fields of the object are assigned.
\<close>

definition off_throws :: "nat \<Rightarrow> nat \<Rightarrow> bool" where
  "off_throws off len \<longleftrightarrow> len < off"

fun read_nodeIDs :: "bytes \<Rightarrow> nat \<Rightarrow> nat \<Rightarrow> nat \<Rightarrow> bytes option list" where
  "read_nodeIDs b off n 0 = []"
| "read_nodeIDs b off n (Suc k) = Some (subrange b off n) # read_nodeIDs b (off + n) n k"

definition options_decode_dst :: "p2p_options \<Rightarrow> bytes \<Rightarrow> nat \<Rightarrow> nat \<Rightarrow> (int \<times> p2p_options) cpp" where
  "options_decode_dst ops b off nodeIDLength =
     (if off_throws (off + 1) (length b) then Inr (MESSAGE_ERROR, ops)
      else cpp_bind (rd8 b off) (\<lambda>dstNodeCount.
        let off' = off + 1; n = unat dstNodeCount
        in if off_throws (off' + n * nodeIDLength) (length b) then Inr (MESSAGE_ERROR, ops)
           else Inr (int (off' + n * nodeIDLength),
                  ops\<lparr>m_dstNodeIDs := read_nodeIDs b off' nodeIDLength n\<rparr>)))"

definition options_decode_src :: "p2p_options \<Rightarrow> bytes \<Rightarrow> nat \<Rightarrow> (int \<times> p2p_options) cpp" where
  "options_decode_src ops b off =
     (if off_throws (off + 2) (length b) then Inr (MESSAGE_ERROR, ops)
      else cpp_bind (rd16 b off) (\<lambda>len.
        let off' = off + 2; nodeIDLength = unat len
        in if off_throws (off' + nodeIDLength) (length b) then Inr (MESSAGE_ERROR, ops)
           else (case m_srcNodeID ops of
               None \<Rightarrow> Inl NullPointer
             | Some old \<Rightarrow>
                 options_decode_dst
                   (ops\<lparr>m_srcNodeID := Some (subrange b off' nodeIDLength @ old)\<rparr>)
                   b (off' + nodeIDLength) nodeIDLength)))"

definition options_decode :: "p2p_options \<Rightarrow> bytes \<Rightarrow> (int \<times> p2p_options) cpp" where
  "options_decode ops b =
     (if off_throws (0 + OPTIONS_MIN_LENGTH) (length b) then Inr (MESSAGE_ERROR, ops)
      else cpp_bind (rd16 b 0) (\<lambda>groupIDLength.
        let off = 2; n = unat groupIDLength
        in if 0 < n
           then (if off_throws (off + n) (length b) then Inr (MESSAGE_ERROR, ops)
                 else options_decode_src (ops\<lparr>m_groupID := string_of_bytes (subrange b off n)\<rparr>)
                        b (off + n))
           else options_decode_src ops b off))"

section \<open>Messages\<close>

definition MESSAGE_HEADER_LENGTH :: nat where "MESSAGE_HEADER_LENGTH = 14"

record p2p_message =
  m_length :: u32
  m_version :: u16
  m_packetType :: u16
  m_seq :: u32
  m_ext :: u16
  m_options :: p2p_options
  m_payload :: bytes

definition new_message :: p2p_message where
  "new_message = \<lparr>m_length = 0, m_version = 0, m_packetType = 0, m_seq = 0, m_ext = 0,
     m_options = new_options, m_payload = []\<rparr>"

definition setRespPacket :: "p2p_message \<Rightarrow> p2p_message" where
  "setRespPacket m = m\<lparr>m_ext := m_ext m OR ext_Response\<rparr>"

definition isRespPacket :: "p2p_message \<Rightarrow> bool" where
  "isRespPacket m \<longleftrightarrow> m_ext m AND ext_Response \<noteq> 0"

definition hasOptions :: "('key, 'more) bcos_fw_scheme \<Rightarrow> p2p_message \<Rightarrow> bool" where
  "hasOptions fw m \<longleftrightarrow>
     m_packetType m = mtPeerToPeerMessage fw \<or> m_packetType m = mtBroadcastMessage fw"

definition message_header :: "u32 \<Rightarrow> p2p_message \<Rightarrow> bytes" where
  "message_header len m =
     be32 len @ be16 (m_version m) @ be16 (m_packetType m) @ be32 (m_seq m) @ be16 (m_ext m)"

text \<open>
  \<open>P2PMessage::encode\<close> clears the buffer, writes the header with a zero length, then the options
  and the payload, and patches the length in last. When the options do not encode it returns
  \<open>false\<close> and leaves the header with its zero length in the buffer.
\<close>

definition message_encode :: "('key, 'more) bcos_fw_scheme \<Rightarrow> p2p_message \<Rightarrow> bool \<times> bytes" where
  "message_encode fw m =
     (let buf = message_header 0 m;
          (ok, buf1) = (if hasOptions fw m then options_encode (m_options m) buf else (True, buf))
      in if \<not> ok then (False, buf1)
         else let buf2 = buf1 @ m_payload m
              in (True, be32 (word_of_nat (length buf2)) @ drop 4 buf2))"

definition decodeHeader :: "p2p_message \<Rightarrow> bytes \<Rightarrow> (nat \<times> p2p_message) cpp" where
  "decodeHeader m b =
     cpp_bind (rd32 b 0) (\<lambda>len.
     cpp_bind (rd16 b 4) (\<lambda>version.
     cpp_bind (rd16 b 6) (\<lambda>packetType.
     cpp_bind (rd32 b 8) (\<lambda>seq.
     cpp_bind (rd16 b 12) (\<lambda>ext.
       Inr (14, m\<lparr>m_length := len, m_version := version, m_packetType := packetType,
                  m_seq := seq, m_ext := ext\<rparr>))))))"

text \<open>
  \<open>P2PMessage::decode\<close>. The options are decoded from the rest of the whole buffer, not from the
  part that belongs to this message; \<open>m_length - offset\<close> is a 32-bit subtraction.
\<close>

definition decode_payload ::
  "('key, 'more) bcos_fw_scheme \<Rightarrow> p2p_message \<Rightarrow> bytes \<Rightarrow> nat \<Rightarrow> (int \<times> p2p_message) cpp" where
  "decode_payload fw m b off =
     Inr (int (unat (m_length m)),
       m\<lparr>m_payload := cropRange fw b off (unat (m_length m - word_of_nat off))\<rparr>)"

definition message_decode ::
  "('key, 'more) bcos_fw_scheme \<Rightarrow> p2p_message \<Rightarrow> bytes \<Rightarrow> (int \<times> p2p_message) cpp" where
  "message_decode fw m b =
     (if length b < MESSAGE_HEADER_LENGTH then Inr (MESSAGE_INCOMPLETE, m)
      else cpp_bind (decodeHeader m b) (\<lambda>(off, m1).
        if length b < unat (m_length m1) then Inr (MESSAGE_INCOMPLETE, m1)
        else if hasOptions fw m1
        then cpp_bind (options_decode (m_options m1) (cropFrom fw b off)) (\<lambda>(r, ops).
               if r < 0 then Inr (MESSAGE_ERROR, m1\<lparr>m_options := ops\<rparr>)
               else decode_payload fw (m1\<lparr>m_options := ops\<rparr>) b (off + nat r))
        else decode_payload fw m1 b off))"

section \<open>What can be encoded\<close>

definition options_encodable :: "p2p_options \<Rightarrow> bool" where
  "options_encodable ops \<longleftrightarrow>
     length (m_groupID ops) \<le> MAX_GROUPID_LENGTH \<and> \<not> bad_nodeID (m_srcNodeID ops) \<and>
     length (m_dstNodeIDs ops) \<le> MAX_DST_NODEID_COUNT \<and>
     list_all (\<lambda>d. \<not> bad_nodeID d) (m_dstNodeIDs ops)"

text \<open>
  The decoder cuts every destination to the length of the source, so what it can give back is an
  encodable options block whose node ids all have one length.
\<close>

definition same_length_ids :: "p2p_options \<Rightarrow> bool" where
  "same_length_ids ops \<longleftrightarrow>
     list_all (\<lambda>d. length (node_bytes d) = length (node_bytes (m_srcNodeID ops))) (m_dstNodeIDs ops)"

definition encode_size :: "('key, 'more) bcos_fw_scheme \<Rightarrow> p2p_message \<Rightarrow> nat" where
  "encode_size fw m = length (snd (message_encode fw m))"

definition wire_message :: "('key, 'more) bcos_fw_scheme \<Rightarrow> p2p_message \<Rightarrow> bool" where
  "wire_message fw m \<longleftrightarrow>
     (if hasOptions fw m then options_encodable (m_options m) \<and> same_length_ids (m_options m)
      else m_options m = new_options) \<and>
     encode_size fw m < 2 ^ 32"

definition wire_normal :: "('key, 'more) bcos_fw_scheme \<Rightarrow> p2p_message \<Rightarrow> p2p_message" where
  \<comment> \<open>the received message: the length field is filled in\<close>
  "wire_normal fw m = m\<lparr>m_length := word_of_nat (encode_size fw m)\<rparr>"

section \<open>Encoding and decoding the options\<close>

lemma node_bytes_simps [simp]: "node_bytes None = []" "node_bytes (Some b) = b"
  by (simp_all add: node_bytes_def)

lemma bad_nodeID_simps [simp]:
  "bad_nodeID None" "bad_nodeID (Some b) \<longleftrightarrow> b = [] \<or> MAX_NODEID_LENGTH < length b"
  by (simp_all add: bad_nodeID_def)

lemma options_encode_ok:
  "options_encodable ops \<Longrightarrow> options_encode ops buf = (True, buf @ options_bytes ops)"
  by (auto simp: options_encodable_def options_encode_def list_ex_iff list_all_iff)

lemma options_encode_fails:
  "\<not> options_encodable ops \<Longrightarrow> options_encode ops buf = (False, buf)"
  by (auto simp: options_encodable_def options_encode_def list_ex_iff list_all_iff)

lemma unat_word_of_nat16: "n \<le> 65535 \<Longrightarrow> unat (word_of_nat n :: u16) = n"
  by (simp add: unat_of_nat)

lemma unat_word_of_nat8: "n \<le> 255 \<Longrightarrow> unat (word_of_nat n :: u8) = n"
  by (simp add: unat_of_nat)

lemma read_nodeIDs_concat:
  assumes "list_all (\<lambda>d. d \<noteq> None \<and> length (node_bytes d) = n) ds" and "length pre = off"
  shows "read_nodeIDs (pre @ concat (map node_bytes ds) @ rest) off n (length ds) = ds"
  using assms
proof (induction ds arbitrary: pre off)
  case Nil
  then show ?case by simp
next
  case (Cons d ds)
  then obtain b where d: "d = Some b" and b: "length b = n"
    by auto
  have "read_nodeIDs ((pre @ b) @ concat (map node_bytes ds) @ rest) (off + n) n (length ds) = ds"
    by (rule Cons.IH) (use Cons.prems b in auto)
  moreover have "subrange (pre @ b @ concat (map node_bytes ds) @ rest) off n = b"
    by (rule subrange_at) (use Cons.prems b in auto)
  ultimately show ?case
    by (simp add: d)
qed

lemma length_concat_ids:
  "list_all (\<lambda>d. d \<noteq> None \<and> length (node_bytes d) = n) ds \<Longrightarrow>
   length (concat (map node_bytes ds)) = length ds * n"
  by (induction ds) auto

lemma options_decode_dst_at:
  assumes ids: "list_all (\<lambda>d. d \<noteq> None \<and> length (node_bytes d) = n) ds"
    and "length ds \<le> 255" and pre: "length pre = off"
  shows "options_decode_dst ops
      (pre @ [word_of_nat (length ds)] @ concat (map node_bytes ds) @ rest) off n
    = Inr (int (off + 1 + length ds * n), ops\<lparr>m_dstNodeIDs := ds\<rparr>)"
proof -
  let ?k = "word_of_nat (length ds) :: u8"
  have "read_nodeIDs ((pre @ [?k]) @ concat (map node_bytes ds) @ rest) (off + 1) n (length ds) = ds"
    by (rule read_nodeIDs_concat [OF ids]) (simp add: pre)
  then show ?thesis
    using assms length_concat_ids [OF ids]
    by (simp add: options_decode_dst_def off_throws_def wire_simps unat_word_of_nat8 Let_def)
qed

lemma options_decode_src_at:
  assumes s: "length s \<le> 65535"
    and ids: "list_all (\<lambda>d. d \<noteq> None \<and> length (node_bytes d) = length s) ds"
    and n: "length ds \<le> 255" and pre: "length pre = off" and old: "m_srcNodeID ops = Some []"
  shows "options_decode_src ops
      (pre @ be16 (word_of_nat (length s)) @ s @ [word_of_nat (length ds)]
        @ concat (map node_bytes ds) @ rest) off
    = Inr (int (off + 2 + length s + 1 + length ds * length s),
        ops\<lparr>m_srcNodeID := Some s, m_dstNodeIDs := ds\<rparr>)"
proof -
  let ?l = "be16 (word_of_nat (length s))"
  let ?tail = "[word_of_nat (length ds)] @ concat (map node_bytes ds) @ rest"
  have dst: "options_decode_dst ops' ((pre @ ?l @ s) @ ?tail) (off + 2 + length s) (length s)
      = Inr (int (off + 2 + length s + 1 + length ds * length s), ops'\<lparr>m_dstNodeIDs := ds\<rparr>)" for ops'
    by (rule options_decode_dst_at [OF ids n]) (simp add: pre)
  have "subrange ((pre @ ?l) @ s @ ?tail) (off + 2) (length s) = s"
    by (rule subrange_at) (simp_all add: pre)
  then show ?thesis
    using dst [of "ops\<lparr>m_srcNodeID := Some s\<rparr>"] s pre old
    by (simp add: options_decode_src_def off_throws_def rd16_be16 unat_word_of_nat16 Let_def)
qed

lemma encodable_ids:
  assumes "options_encodable ops" and "same_length_ids ops" and "m_srcNodeID ops = Some s"
  shows "list_all (\<lambda>d. d \<noteq> None \<and> length (node_bytes d) = length s) (m_dstNodeIDs ops)"
proof (unfold list_all_iff, rule ballI)
  fix d
  assume "d \<in> set (m_dstNodeIDs ops)"
  with assms have "\<not> bad_nodeID d" and "length (node_bytes d) = length s"
    by (auto simp: options_encodable_def same_length_ids_def list_all_iff)
  then show "d \<noteq> None \<and> length (node_bytes d) = length s"
    by (cases d) auto
qed

lemma options_decode_encode:
  assumes enc: "options_encodable ops" and same: "same_length_ids ops"
  shows "options_decode new_options (options_bytes ops @ rest)
    = Inr (int (length (options_bytes ops)), ops)"
proof -
  obtain s where src: "m_srcNodeID ops = Some s" and s: "length s \<le> 65535"
    using enc by (auto simp: options_encodable_def bad_nodeID_def MAX_NODEID_LENGTH_def
        split: option.splits)
  note ids = encodable_ids [OF enc same src]
  let ?g = "m_groupID ops" and ?ds = "m_dstNodeIDs ops"
  have g: "length ?g \<le> 65535" and n: "length ?ds \<le> 255"
    using enc by (auto simp: options_encodable_def MAX_GROUPID_LENGTH_def MAX_DST_NODEID_COUNT_def)
  let ?pre = "be16 (word_of_nat (length ?g)) @ bytes_of_string ?g"
  let ?tail = "be16 (word_of_nat (length s)) @ s @ [word_of_nat (length ?ds)]
    @ concat (map node_bytes ?ds) @ rest"
  have buf: "options_bytes ops @ rest = ?pre @ ?tail"
    by (simp add: options_bytes_def src)
  have decode_src: "options_decode_src o' (?pre @ ?tail) (2 + length ?g)
      = Inr (int (2 + length ?g + 2 + length s + 1 + length ?ds * length s),
          o'\<lparr>m_srcNodeID := Some s, m_dstNodeIDs := ?ds\<rparr>)"
    if "m_srcNodeID o' = Some []" for o'
    by (rule options_decode_src_at [OF s ids n _ that]) simp
  have len: "length (options_bytes ops) = 2 + length ?g + 2 + length s + 1 + length ?ds * length s"
    using length_concat_ids [OF ids] by (simp add: options_bytes_def src)
  have header: "rd16 (?pre @ ?tail) 0 = Inr (word_of_nat (length ?g))"
    using rd16_be16 [of "[]" 0 "word_of_nat (length ?g)" "bytes_of_string ?g @ ?tail"] by simp
  have group: "subrange (?pre @ ?tail) 2 (length ?g) = bytes_of_string ?g"
    using subrange_at [of "be16 (word_of_nat (length ?g))" 2 "bytes_of_string ?g" "length ?g" ?tail]
    by simp
  have min: "OPTIONS_MIN_LENGTH \<le> length (?pre @ ?tail)"
    by (simp add: OPTIONS_MIN_LENGTH_def)
  show ?thesis
    unfolding buf len
    using decode_src [of new_options] decode_src [of "new_options\<lparr>m_groupID := ?g\<rparr>"]
      header group min g src
    by (cases "?g = []")
      (auto simp: options_decode_def off_throws_def unat_word_of_nat16 Let_def new_options_def)
qed

section \<open>Encoding and decoding messages\<close>

definition message_body :: "('key, 'more) bcos_fw_scheme \<Rightarrow> p2p_message \<Rightarrow> bytes" where
  "message_body fw m = (if hasOptions fw m then options_bytes (m_options m) else [])"

definition message_encodable :: "('key, 'more) bcos_fw_scheme \<Rightarrow> p2p_message \<Rightarrow> bool" where
  "message_encodable fw m \<longleftrightarrow> \<not> hasOptions fw m \<or> options_encodable (m_options m)"

lemma length_message_header [simp, wire_simps]: "length (message_header len m) = 14"
  by (simp add: message_header_def)

lemma message_header_patch: "be32 len @ drop 4 (message_header 0 m @ b) = message_header len m @ b"
  by (simp add: message_header_def)

lemma message_encode_ok:
  "message_encodable fw m \<Longrightarrow>
   message_encode fw m =
     (True, message_header (word_of_nat (14 + length (message_body fw m) + length (m_payload m))) m
        @ message_body fw m @ m_payload m)"
  using message_header_patch [of _ m "message_body fw m @ m_payload m"]
  by (auto simp: message_encode_def message_encodable_def message_body_def options_encode_ok Let_def
      add.assoc)

lemma message_encode_fails:
  "\<not> message_encodable fw m \<Longrightarrow> message_encode fw m = (False, message_header 0 m)"
  by (simp add: message_encode_def message_encodable_def options_encode_fails Let_def)

lemma wire_message_encodable: "wire_message fw m \<Longrightarrow> message_encodable fw m"
  by (simp add: wire_message_def message_encodable_def split: if_splits)

lemma encode_size_eq:
  "message_encodable fw m \<Longrightarrow>
   encode_size fw m = 14 + length (message_body fw m) + length (m_payload m)"
  by (simp add: encode_size_def message_encode_ok)

definition with_header :: "u32 \<Rightarrow> p2p_message \<Rightarrow> p2p_message \<Rightarrow> p2p_message" where
  "with_header len m m0 = m0\<lparr>m_length := len, m_version := m_version m,
     m_packetType := m_packetType m, m_seq := m_seq m, m_ext := m_ext m\<rparr>"

lemma decodeHeader_at:
  "decodeHeader m0 (message_header len m @ rest) = Inr (14, with_header len m m0)"
proof -
  let ?v = "be16 (m_version m)" and ?t = "be16 (m_packetType m)"
  let ?s = "be32 (m_seq m)" and ?e = "be16 (m_ext m)"
  have "rd32 ([] @ be32 len @ ?v @ ?t @ ?s @ ?e @ rest) 0 = Inr len"
    by (rule rd32_be32) simp
  moreover have "rd16 (be32 len @ ?v @ ?t @ ?s @ ?e @ rest) 4 = Inr (m_version m)"
    by (rule rd16_be16) simp
  moreover have "rd16 ((be32 len @ ?v) @ ?t @ ?s @ ?e @ rest) 6 = Inr (m_packetType m)"
    by (rule rd16_be16) simp
  moreover have "rd32 ((be32 len @ ?v @ ?t) @ ?s @ ?e @ rest) 8 = Inr (m_seq m)"
    by (rule rd32_be32) simp
  moreover have "rd16 ((be32 len @ ?v @ ?t @ ?s) @ ?e @ rest) 12 = Inr (m_ext m)"
    by (rule rd16_be16) simp
  ultimately show ?thesis
    by (simp add: decodeHeader_def message_header_def with_header_def)
qed

lemma unat_of_nat_len: "n < 2 ^ LENGTH('a) \<Longrightarrow> unat (word_of_nat n :: 'a::len word) = n"
  by (simp add: unat_of_nat)

lemma unat_word32_diff:
  assumes "a \<le> b" and "b < 2 ^ 32"
  shows "unat (word_of_nat b - word_of_nat a :: u32) = b - a"
proof -
  have eq: "(word_of_nat b - word_of_nat a :: u32) = word_of_nat (b - a)"
    using assms(1) by simp
  have "b - a < 2 ^ LENGTH(32)" using assms by simp
  then show ?thesis unfolding eq by (rule unat_of_nat_len)
qed

lemma decode_payload_at:
  assumes "crop_spec fw" and "n = off + length p" and "n < 2 ^ 32" and "length pre = off"
    and "m_length m = word_of_nat n"
  shows "decode_payload fw m (pre @ p @ rest) off = Inr (int n, m\<lparr>m_payload := p\<rparr>)"
proof -
  have "unat (m_length m - word_of_nat off) = length p"
    using unat_word32_diff [of off n] assms by simp
  moreover have "unat (m_length m) = n"
    unfolding assms(5) by (rule unat_of_nat_len) (use assms(3) in simp)
  moreover have "cropRange fw (pre @ p @ rest) off (length p) = p"
    using assms(4) by (simp add: crop_range_eq [OF assms(1)])
  ultimately show ?thesis by (simp add: decode_payload_def)
qed

lemma hasOptions_with_header [simp]: "hasOptions fw (with_header len m m0) = hasOptions fw m"
  by (simp add: hasOptions_def with_header_def)

lemma m_length_with_header [simp]: "m_length (with_header len m m0) = len"
  by (simp add: with_header_def)

lemma message_decode_encode:
  assumes crop: "crop_spec fw" and wire: "wire_message fw m"
  shows "message_decode fw new_message (snd (message_encode fw m) @ rest)
    = Inr (int (encode_size fw m), wire_normal fw m)"
proof -
  note enc = wire_message_encodable [OF wire]
  let ?body = "message_body fw m"
  define n where "n = encode_size fw m"
  let ?h = "message_header (word_of_nat n) m"
  let ?m1 = "with_header (word_of_nat n) m new_message"
  have small: "n < 2 ^ 32" using wire by (simp add: wire_message_def n_def)
  have n: "n = 14 + length ?body + length (m_payload m)"
    unfolding n_def by (rule encode_size_eq [OF enc])
  have buf: "snd (message_encode fw m) @ rest = (?h @ ?body) @ m_payload m @ rest"
    by (simp add: message_encode_ok [OF enc] n)
  have len: "unat (word_of_nat n :: u32) = n" using small by (simp add: unat_of_nat)
  have payload: "decode_payload fw m' ((?h @ ?body) @ m_payload m @ rest) (14 + length ?body)
    = Inr (int n, m'\<lparr>m_payload := m_payload m\<rparr>)" if "m_length m' = word_of_nat n" for m'
    by (rule decode_payload_at [OF crop n small _ that]) simp
  have body: "cropFrom fw ((?h @ ?body) @ m_payload m @ rest) 14 = ?body @ m_payload m @ rest"
    by (simp add: crop_from_eq [OF crop])
  have header: "decodeHeader new_message ((?h @ ?body) @ m_payload m @ rest) = Inr (14, ?m1)"
    using decodeHeader_at by simp
  have enough: "\<not> length ((?h @ ?body) @ m_payload m @ rest) < n"
    using n by simp
  show ?thesis
  proof (cases "hasOptions fw m")
    case True
    then have ops: "options_encodable (m_options m)" "same_length_ids (m_options m)"
      using wire by (simp_all add: wire_message_def)
    have "options_decode (m_options ?m1) (?body @ m_payload m @ rest)
        = Inr (int (length ?body), m_options m)"
      using options_decode_encode [OF ops] True
      by (simp add: message_body_def with_header_def new_message_def)
    moreover have "hasOptions fw ?m1" using True by simp
    moreover have "decode_payload fw (?m1\<lparr>m_options := m_options m\<rparr>)
        ((?h @ ?body) @ m_payload m @ rest) (14 + length ?body)
      = Inr (int n, ?m1\<lparr>m_options := m_options m, m_payload := m_payload m\<rparr>)"
      using payload [of "?m1\<lparr>m_options := m_options m\<rparr>"] by (simp add: with_header_def)
    ultimately show ?thesis
      unfolding message_decode_def buf header n_def [symmetric] using body enough len
      by (simp add: MESSAGE_HEADER_LENGTH_def wire_normal_def with_header_def new_message_def
          n_def [symmetric])
  next
    case False
    then have "m_options m = new_options" and "?body = []"
      using wire by (simp_all add: wire_message_def message_body_def)
    moreover have "\<not> hasOptions fw ?m1" using False by simp
    ultimately show ?thesis
      unfolding message_decode_def buf header n_def [symmetric]
      using payload [of ?m1] enough len
      by (simp add: MESSAGE_HEADER_LENGTH_def wire_normal_def with_header_def new_message_def
          n_def [symmetric])
  qed
qed

text \<open>A proper part of an encoded message asks for more bytes.\<close>

lemma message_decode_prefix:
  assumes wire: "wire_message fw m" and k: "k < encode_size fw m"
  shows "\<exists>m'. message_decode fw new_message (take k (snd (message_encode fw m))) = Inr (0, m')"
proof (cases "k < 14")
  case True
  then have "length (take k (snd (message_encode fw m))) < 14" by simp
  then show ?thesis
    by (simp add: message_decode_def MESSAGE_HEADER_LENGTH_def MESSAGE_INCOMPLETE_def)
next
  case False
  note enc = wire_message_encodable [OF wire]
  define n where "n = encode_size fw m"
  let ?h = "message_header (word_of_nat n) m"
  let ?part = "take (k - 14) (message_body fw m @ m_payload m)"
  have n: "n = 14 + length (message_body fw m) + length (m_payload m)"
    unfolding n_def by (rule encode_size_eq [OF enc])
  have len: "unat (word_of_nat n :: u32) = n"
    using wire by (simp add: wire_message_def unat_of_nat n_def)
  have part: "take k (snd (message_encode fw m)) = ?h @ ?part"
    using False by (simp add: message_encode_ok [OF enc] n [symmetric])
  have short: "length (?h @ ?part) < n" and long: "\<not> length (?h @ ?part) < 14"
    using False k by (simp_all add: n n_def [symmetric])
  show ?thesis
    unfolding part using short long
    by (simp add: message_decode_def decodeHeader_at MESSAGE_HEADER_LENGTH_def
        MESSAGE_INCOMPLETE_def len del: length_append)
qed

section \<open>Memory safety and bounds of the decoder\<close>

lemma options_decode_src_defined:
  "m_srcNodeID ops \<noteq> None \<Longrightarrow> defined (options_decode_src ops b off)"
  by (auto simp: options_decode_src_def options_decode_dst_def off_throws_def rd16_def rd8_def Let_def
      split: option.split)

lemma options_decode_defined:
  "m_srcNodeID ops \<noteq> None \<Longrightarrow> defined (options_decode ops b)"
  by (auto simp: options_decode_def off_throws_def rd16_def OPTIONS_MIN_LENGTH_def Let_def
      intro!: options_decode_src_defined)

definition consumed_within :: "int \<Rightarrow> nat \<Rightarrow> bool" where
  "consumed_within r n \<longleftrightarrow> r = MESSAGE_ERROR \<or> (0 \<le> r \<and> r \<le> int n)"

lemma consumed_within_error [simp]: "consumed_within MESSAGE_ERROR n"
  by (simp add: consumed_within_def)

lemma consumed_within_off: "\<not> off_throws k n \<Longrightarrow> consumed_within (int k) n"
  by (simp add: consumed_within_def off_throws_def del: of_nat_add)

lemma options_decode_dst_range:
  "options_decode_dst ops b off n = Inr (r, ops') \<Longrightarrow> consumed_within r (length b)"
  by (auto simp: options_decode_dst_def cpp_bind_eq_Inr Let_def simp del: of_nat_add of_nat_mult
      of_nat_Suc intro: consumed_within_off split: if_splits)

lemma options_decode_src_range:
  "options_decode_src ops b off = Inr (r, ops') \<Longrightarrow> consumed_within r (length b)"
  by (auto simp: options_decode_src_def cpp_bind_eq_Inr Let_def
      dest: options_decode_dst_range split: if_splits option.splits)

lemma options_decode_range:
  "options_decode ops b = Inr (r, ops') \<Longrightarrow> consumed_within r (length b)"
  by (auto simp: options_decode_def cpp_bind_eq_Inr Let_def
      dest: options_decode_src_range split: if_splits)

lemma decodeHeader_defined: "14 \<le> length b \<Longrightarrow> defined (decodeHeader m b)"
  by (simp add: decodeHeader_def rd16_def rd32_def)

lemma decodeHeader_options: "decodeHeader m b = Inr (off, m') \<Longrightarrow> m_options m' = m_options m"
  by (auto simp: decodeHeader_def cpp_bind_eq_Inr)

lemma message_decode_defined:
  assumes "m_srcNodeID (m_options m) \<noteq> None"
  shows "defined (message_decode fw m b)"
proof (cases "length b < 14")
  case True
  then show ?thesis by (simp add: message_decode_def MESSAGE_HEADER_LENGTH_def)
next
  case False
  then obtain off m1 where h: "decodeHeader m b = Inr (off, m1)"
    using decodeHeader_defined [of b m] by (auto simp: defined_iff)
  then have "defined (options_decode (m_options m1) b')" for b'
    using assms decodeHeader_options [OF h] by (simp add: options_decode_defined)
  then obtain r where "options_decode (m_options m1) (cropFrom fw b off) = Inr r"
    unfolding defined_iff by blast
  with h False show ?thesis
    by (cases r) (simp add: message_decode_def MESSAGE_HEADER_LENGTH_def decode_payload_def)
qed

lemma decode_payload_range:
  "\<not> length b < unat (m_length m) \<Longrightarrow> decode_payload fw m b off = Inr (r, m') \<Longrightarrow>
   consumed_within r (length b)"
  by (auto simp: decode_payload_def consumed_within_def simp del: of_nat_unat)

lemma message_decode_range:
  assumes dec: "message_decode fw m b = Inr (r, m')"
  shows "consumed_within r (length b)"
proof (cases "length b < MESSAGE_HEADER_LENGTH")
  case True
  with dec show ?thesis
    by (simp add: message_decode_def MESSAGE_INCOMPLETE_def consumed_within_def)
next
  case False
  with dec obtain off m1 where h: "decodeHeader m b = Inr (off, m1)"
    by (auto simp: message_decode_def cpp_bind_eq_Inr)
  show ?thesis
  proof (cases "length b < unat (m_length m1)")
    case True
    with dec False h show ?thesis
      by (simp add: message_decode_def MESSAGE_INCOMPLETE_def consumed_within_def)
  next
    case enough: False
    show ?thesis
    proof (cases "hasOptions fw m1")
      case True
      with dec False h enough obtain s ops
        where "options_decode (m_options m1) (cropFrom fw b off) = Inr (s, ops)"
          and "(if s < 0 then Inr (MESSAGE_ERROR, m1\<lparr>m_options := ops\<rparr>)
            else decode_payload fw (m1\<lparr>m_options := ops\<rparr>) b (off + nat s)) = Inr (r, m')"
        by (auto simp: message_decode_def cpp_bind_eq_Inr)
      then show ?thesis
        using decode_payload_range [of b "m1\<lparr>m_options := ops\<rparr>"] enough
        by (auto split: if_splits)
    next
      case no: False
      with dec False h enough have "decode_payload fw m1 b off = Inr (r, m')"
        by (simp add: message_decode_def)
      with enough show ?thesis by (rule decode_payload_range)
    qed
  qed
qed

section \<open>Properties\<close>

text \<open>
  What the decoder can give back of an options block: the destinations it reads all have the
  length of the source.
\<close>

lemma read_nodeIDs_lengths:
  "off + k * n \<le> length b \<Longrightarrow> list_all (\<lambda>d. length (node_bytes d) = n) (read_nodeIDs b off n k)"
  by (induction k arbitrary: off) (simp_all add: length_subrange)

lemma options_decode_dst_lengths:
  "options_decode_dst ops b off n = Inr (r, ops') \<Longrightarrow> 0 \<le> r \<Longrightarrow>
   list_all (\<lambda>d. length (node_bytes d) = n) (m_dstNodeIDs ops') \<and> m_srcNodeID ops' = m_srcNodeID ops"
  by (auto simp: options_decode_dst_def cpp_bind_eq_Inr off_throws_def MESSAGE_ERROR_def Let_def
      intro!: read_nodeIDs_lengths split: if_splits)

lemma options_decode_src_lengths:
  assumes "options_decode_src ops b off = Inr (r, ops')" and "0 \<le> r" and "m_srcNodeID ops = Some []"
  shows "same_length_ids ops'"
  using assms options_decode_dst_lengths
  by (fastforce simp: options_decode_src_def cpp_bind_eq_Inr off_throws_def MESSAGE_ERROR_def Let_def
      same_length_ids_def length_subrange split: if_splits option.splits)

lemma options_decode_lengths:
  "options_decode new_options b = Inr (r, ops') \<Longrightarrow> 0 \<le> r \<Longrightarrow> same_length_ids ops'"
  by (auto simp: options_decode_def cpp_bind_eq_Inr off_throws_def MESSAGE_ERROR_def Let_def
      new_options_def elim!: options_decode_src_lengths split: if_splits)

text \<open>
  Claim C10: encoding a message and decoding the result, followed by whatever else is in the
  buffer, gives back the message (with its length field filled in) and consumes exactly the
  encoded bytes. It holds of every message without options, and of every message whose options
  encode and whose node ids have one length, up to the 32-bit size of the length field.
\<close>

theorem p2p_message_roundtrip:
  assumes "crop_spec fw" and "wire_message fw m"
  shows "message_decode fw new_message (snd (message_encode fw m) @ rest)
    = Inr (int (encode_size fw m), wire_normal fw m)"
  using assms by (rule message_decode_encode)

definition example_message :: p2p_message where
  "example_message = \<lparr>m_length = 0, m_version = 1, m_packetType = 5, m_seq = 7, m_ext = 0,
     m_options = \<lparr>m_groupID = ''g1'', m_srcNodeID = Some [1, 2], m_dstNodeIDs = [Some [3, 4]]\<rparr>,
     m_payload = [9, 8, 7]\<rparr>"

lemma example_message_wire: "wire_message example_fw example_message"
  by (simp add: wire_message_def example_message_def hasOptions_def options_encodable_def
      same_length_ids_def MAX_GROUPID_LENGTH_def MAX_NODEID_LENGTH_def MAX_DST_NODEID_COUNT_def
      encode_size_def message_encode_def options_encode_def options_bytes_def Let_def)

theorem p2p_message_roundtrip_witness:
  "message_decode example_fw new_message (snd (message_encode example_fw example_message) @ [1, 2])
    = Inr (int (encode_size example_fw example_message), wire_normal example_fw example_message)"
  by (rule p2p_message_roundtrip) (simp_all add: example_message_wire)

text \<open>
  A proper prefix of an encoded message makes the decoder ask for more bytes (result
  0), so a message that arrives in pieces is never decoded early nor rejected.
\<close>

theorem p2p_prefix_incomplete:
  assumes "wire_message fw m" and "k < encode_size fw m"
  shows "\<exists>m'. message_decode fw new_message (take k (snd (message_encode fw m))) = Inr (0, m')"
  using assms by (rule message_decode_prefix)

theorem p2p_prefix_incomplete_witness:
  "\<exists>m'. message_decode example_fw new_message
     (take 20 (snd (message_encode example_fw example_message))) = Inr (0, m')"
  by (rule p2p_prefix_incomplete)
    (simp_all add: example_message_wire, simp add: example_message_def hasOptions_def
      encode_size_def message_encode_def options_encode_def options_bytes_def Let_def
      MAX_GROUPID_LENGTH_def MAX_NODEID_LENGTH_def MAX_DST_NODEID_COUNT_def)

text \<open>
  Claim C30: the decoder never reads outside the buffer it is given, whatever bytes arrive: on a
  fresh message it always returns, and the result is either the error or a number of consumed
  bytes that lie in the buffer.
\<close>

theorem p2p_decode_safe:
  "case message_decode fw new_message b of
     Inl _ \<Rightarrow> False
   | Inr (r, m') \<Rightarrow> consumed_within r (length b)"
  using message_decode_defined [of new_message fw b]
  by (auto simp: new_message_def new_options_def defined_iff dest: message_decode_range
      split: sum.split)

text \<open>
  Claim C35: \<open>encode\<close> succeeds exactly for messages without options and for messages whose options
  pass the parameter checks; then the buffer is the header with the real size, the options and
  the payload. When it fails it leaves a bare header in the buffer, whose length field is zero.
\<close>

theorem p2p_encode_result:
  "message_encode fw m =
     (if message_encodable fw m
      then (True, message_header (word_of_nat (14 + length (message_body fw m) + length (m_payload m))) m
                    @ message_body fw m @ m_payload m)
      else (False, message_header 0 m))"
  by (simp add: message_encode_ok message_encode_fails)

text \<open>
  A header without options whose length field is zero is never consumed: whatever
  follows it, the decoder answers 0, which the session reads as an incomplete packet.
\<close>

theorem p2p_zero_length_stuck:
  assumes "\<not> hasOptions fw m"
  shows "\<exists>m'. message_decode fw new_message (message_header 0 m @ rest) = Inr (0, m')"
  using assms
  by (simp add: message_decode_def decodeHeader_at MESSAGE_HEADER_LENGTH_def decode_payload_def)

theorem p2p_zero_length_stuck_witness:
  "\<exists>m'. message_decode example_fw new_message (message_header 0 new_message @ [1, 2, 3]) = Inr (0, m')"
  by (rule p2p_zero_length_stuck) (simp add: hasOptions_def new_message_def)

text \<open>
  Claim C36: options that pass the encoder's checks survive the trip exactly when all the node
  ids have the length of the source: the wire format carries only that one length, and the
  encoder accepts destinations of any length.
\<close>

theorem p2p_options_roundtrip_iff:
  assumes "options_encodable ops"
  shows "options_decode new_options (options_bytes ops) = Inr (int (length (options_bytes ops)), ops)
    \<longleftrightarrow> same_length_ids ops"
  using options_decode_encode [OF assms, of "[]"] options_decode_lengths
  by (metis append.right_neutral of_nat_0_le_iff)

theorem p2p_options_roundtrip_iff_witness:
  "options_decode new_options (options_bytes (m_options example_message))
    = Inr (int (length (options_bytes (m_options example_message))), m_options example_message)
    \<longleftrightarrow> same_length_ids (m_options example_message)"
  by (rule p2p_options_roundtrip_iff)
    (simp add: example_message_def options_encodable_def MAX_GROUPID_LENGTH_def
      MAX_NODEID_LENGTH_def MAX_DST_NODEID_COUNT_def)

end
