(* ===== verification/Message_Framing.thy ===== *)
theory Message_Framing
  imports P2P_Message
begin

text \<open>
  The framing of the byte stream of a connection: the \<open>while (true)\<close> loop of \<open>Session::doRead\<close>,
  generic in the decoder and in what the session does with a message (\<open>Session_Model\<close> fills
  these in), and the interface the loop needs of a codec, which \<open>P2PMessage\<close> provides.
\<close>

section \<open>The read loop\<close>

text \<open>
  One pass over the receive buffer \<open>m_data\<close>: decode; on a positive result deliver and erase
  that many bytes, on zero ask for more, on a negative result report and stop. Erasing more
  than the buffer holds is undefined behaviour. The result says whether reading goes on, what
  is left in the buffer, and the state after the deliveries.
\<close>

function read_loop ::
  "(bytes \<Rightarrow> (int \<times> 'm) cpp) \<Rightarrow> ('m \<Rightarrow> 's \<Rightarrow> 's) \<Rightarrow> ('m \<Rightarrow> 's \<Rightarrow> 's) \<Rightarrow> bytes \<Rightarrow> 's
     \<Rightarrow> (bool \<times> bytes \<times> 's) cpp" where
  "read_loop dec onMsg onErr data s =
     (case dec data of
        Inl u \<Rightarrow> Inl u
      | Inr (result, message) \<Rightarrow>
          if 0 < result
          then (if length data < nat result then Inl OutOfBounds
                else read_loop dec onMsg onErr (drop (nat result) data) (onMsg message s))
          else if result = 0 then Inr (True, data, s)
          else Inr (False, data, onErr message s))"
  by pat_completeness auto

termination
  by (relation "measure (\<lambda>(dec, onMsg, onErr, data, s). length data)") auto

declare read_loop.simps [simp del]

text \<open>The chunks of a connection in the order \<open>async_read_some\<close> hands them over.\<close>

fun feed ::
  "(bytes \<Rightarrow> (int \<times> 'm) cpp) \<Rightarrow> ('m \<Rightarrow> 's \<Rightarrow> 's) \<Rightarrow> ('m \<Rightarrow> 's \<Rightarrow> 's) \<Rightarrow> bytes list \<Rightarrow> bytes \<Rightarrow> 's
     \<Rightarrow> (bool \<times> bytes \<times> 's) cpp" where
  "feed dec onMsg onErr [] data s = Inr (True, data, s)"
| "feed dec onMsg onErr (c # cs) data s =
     (case read_loop dec onMsg onErr (data @ c) s of
        Inl u \<Rightarrow> Inl u
      | Inr (goon, data', s') \<Rightarrow>
          if goon then feed dec onMsg onErr cs data' s' else Inr (False, data', s'))"

lemma read_loop_deliver:
  "dec data = Inr (int n, m) \<Longrightarrow> 0 < n \<Longrightarrow> n \<le> length data \<Longrightarrow>
   read_loop dec f g data s = read_loop dec f g (drop n data) (f m s)"
  by (subst read_loop.simps) simp

lemma read_loop_more: "dec data = Inr (0, m) \<Longrightarrow> read_loop dec f g data s = Inr (True, data, s)"
  by (subst read_loop.simps) simp

lemma read_loop_error:
  "dec data = Inr (r, m) \<Longrightarrow> r < 0 \<Longrightarrow> read_loop dec f g data s = Inr (False, data, g m s)"
  by (subst read_loop.simps) simp

text \<open>A decoder that is defined and stays in its buffer makes the loop defined.\<close>

lemma read_loop_suffix:
  assumes "\<And>b. \<exists>r m. dec b = Inr (r, m) \<and> consumed_within r (length b)"
  shows "\<exists>goon k s'. read_loop dec f g data s = Inr (goon, drop k data, s')"
proof (induction data arbitrary: s rule: length_induct)
  case (1 data)
  obtain r m where dec: "dec data = Inr (r, m)" and r: "consumed_within r (length data)"
    using assms by blast
  consider "0 < r" | "r = 0" | "r < 0" by linarith
  then show ?case
  proof cases
    case 1
    then have "dec data = Inr (int (nat r), m)" and "0 < nat r" and "nat r \<le> length data"
      using r dec by (simp_all add: consumed_within_def MESSAGE_ERROR_def)
    have step: "read_loop dec f g data s = read_loop dec f g (drop (nat r) data) (f m s)"
      by (rule read_loop_deliver) fact+
    have "length (drop (nat r) data) < length data"
      using \<open>0 < nat r\<close> \<open>nat r \<le> length data\<close> by simp
    with "1.IH" obtain goon k s'
      where "read_loop dec f g (drop (nat r) data) (f m s) = Inr (goon, drop k (drop (nat r) data), s')"
      by blast
    then show ?thesis by (auto simp: step)
  next
    case 2
    with dec have "read_loop dec f g data s = Inr (True, drop 0 data, s)"
      by (simp add: read_loop_more)
    then show ?thesis by blast
  next
    case 3
    with dec have "read_loop dec f g data s = Inr (False, drop 0 data, g m s)"
      by (simp add: read_loop_error)
    then show ?thesis by blast
  qed
qed

section \<open>The interface of a codec\<close>

text \<open>
  What the reader relies on: an encoded message at the front of the buffer is recognised with
  its exact length whatever follows it, and a part of one asks for more.
\<close>

locale framed_codec =
  fixes enc :: "'m \<Rightarrow> bytes" and dec :: "bytes \<Rightarrow> (int \<times> 'r) cpp"
    and ok :: "'m \<Rightarrow> bool" and recv :: "'m \<Rightarrow> 'r"
  assumes dec_whole: "ok m \<Longrightarrow> dec (enc m @ rest) = Inr (int (length (enc m)), recv m)"
    and dec_part: "ok m \<Longrightarrow> k < length (enc m) \<Longrightarrow> \<exists>r. dec (take k (enc m)) = Inr (0, r)"
    and dec_none: "\<exists>r. dec [] = Inr (0, r)"
    and enc_nonempty: "ok m \<Longrightarrow> enc m \<noteq> []"
begin

lemma loop_one:
  "ok m \<Longrightarrow> read_loop dec f g (enc m @ rest) s = read_loop dec f g rest (f (recv m) s)"
  using read_loop_deliver [of dec "enc m @ rest" "length (enc m)" "recv m" f g s]
    dec_whole [of m rest] enc_nonempty [of m] by simp

lemma loop_many:
  "list_all ok ms \<Longrightarrow>
   read_loop dec f g (concat (map enc ms) @ rest) s = read_loop dec f g rest (fold f (map recv ms) s)"
  by (induction ms arbitrary: s) (simp_all add: loop_one)

text \<open>The bytes left over between two chunks: none, or a proper part of the next message.\<close>

definition pending :: "bytes \<Rightarrow> 'm list \<Rightarrow> bool" where
  "pending data todo =
     (case todo of [] \<Rightarrow> data = []
      | m # _ \<Rightarrow> length data < length (enc m) \<and> data = take (length data) (enc m))"

lemma loop_pending:
  assumes "list_all ok todo" and "pending data todo"
  shows "read_loop dec f g data s = Inr (True, data, s)"
proof (cases todo)
  case Nil
  then show ?thesis using assms(2) dec_none by (auto simp: pending_def intro: read_loop_more)
next
  case (Cons m ms)
  then have data: "length data < length (enc m)" "data = take (length data) (enc m)"
    using assms(2) by (simp_all add: pending_def)
  obtain r where "dec (take (length data) (enc m)) = Inr (0, r)"
    using dec_part [OF _ data(1)] assms(1) Cons by auto
  then have "dec data = Inr (0, r)" using data(2) by simp
  then show ?thesis by (rule read_loop_more)
qed

lemma split_stream:
  assumes "list_all ok ms" and "concat (map enc ms) = data @ later"
  shows "\<exists>seen todo left. ms = seen @ todo \<and> data = concat (map enc seen) @ left
    \<and> pending left todo \<and> left @ later = concat (map enc todo)"
  using assms
proof (induction ms arbitrary: data)
  case Nil
  then show ?case by (auto simp: pending_def)
next
  case (Cons m ms)
  show ?case
  proof (cases "length data < length (enc m)")
    case True
    then have "data = take (length data) (enc m)"
      using Cons.prems(2) by (simp add: append_eq_append_conv_if split: if_splits)
    with True have "pending data (m # ms)" by (simp add: pending_def)
    with Cons.prems(2) show ?thesis
      by (intro exI [of _ "[]"] exI [of _ "m # ms"] exI [of _ data]) simp
  next
    case False
    then obtain data' where data: "data = enc m @ data'"
      using Cons.prems(2) by (auto simp: append_eq_append_conv_if split: if_splits)
        (metis append_take_drop_id)
    with Cons.prems have "list_all ok ms" and "concat (map enc ms) = data' @ later" by simp_all
    with Cons.IH obtain seen todo left
      where "ms = seen @ todo" "data' = concat (map enc seen) @ left"
        "pending left todo" "left @ later = concat (map enc todo)"
      by blast
    then show ?thesis
      using data by (intro exI [of _ "m # seen"] exI [of _ todo] exI [of _ left]) simp
  qed
qed

lemma pending_all: "list_all ok ms \<Longrightarrow> pending (concat (map enc ms)) ms \<Longrightarrow> ms = []"
  by (cases ms) (auto simp: pending_def)

lemma feed_stream:
  assumes "list_all ok ms" and "pending data ms" and "data @ concat chunks = concat (map enc ms)"
  shows "feed dec f g chunks data s = Inr (True, [], fold f (map recv ms) s)"
  using assms
proof (induction chunks arbitrary: data ms s)
  case Nil
  then have "ms = []" using pending_all by simp
  with Nil show ?case by (simp add: pending_def)
next
  case (Cons c chunks)
  then have "concat (map enc ms) = (data @ c) @ concat chunks" by simp
  then obtain seen todo left where split: "ms = seen @ todo"
      "data @ c = concat (map enc seen) @ left" "pending left todo"
      "left @ concat chunks = concat (map enc todo)"
    using split_stream [OF Cons.prems(1)] by blast
  then have ok: "list_all ok seen" "list_all ok todo" using Cons.prems(1) by simp_all
  have "read_loop dec f g (data @ c) s = Inr (True, left, fold f (map recv seen) s)"
    unfolding split(2) loop_many [OF ok(1)] by (rule loop_pending [OF ok(2) split(3)])
  moreover have "feed dec f g chunks left (fold f (map recv seen) s)
      = Inr (True, [], fold f (map recv todo) (fold f (map recv seen) s))"
    by (rule Cons.IH [OF ok(2) split(3) split(4)])
  ultimately show ?case by (simp add: split(1))
qed

theorem feed_from_empty:
  assumes "list_all ok ms" and "concat chunks = concat (map enc ms)"
  shows "feed dec f g chunks [] s = Inr (True, [], fold f (map recv ms) s)"
proof -
  have "pending [] ms" using assms(1) enc_nonempty by (cases ms) (auto simp: pending_def)
  with assms show ?thesis by (intro feed_stream) simp_all
qed

end

section \<open>The P2P codec is framed\<close>

definition p2p_enc :: "('key, 'more) bcos_fw_scheme \<Rightarrow> p2p_message \<Rightarrow> bytes" where
  "p2p_enc fw m = snd (message_encode fw m)"

definition p2p_dec :: "('key, 'more) bcos_fw_scheme \<Rightarrow> bytes \<Rightarrow> (int \<times> p2p_message) cpp" where
  "p2p_dec fw b = message_decode fw new_message b"

interpretation p2p: framed_codec "p2p_enc fw" "p2p_dec fw" "\<lambda>m. crop_spec fw \<and> wire_message fw m"
  "wire_normal fw" for fw
proof unfold_locales
  fix m rest
  assume "crop_spec fw \<and> wire_message fw m"
  then show "p2p_dec fw (p2p_enc fw m @ rest) = Inr (int (length (p2p_enc fw m)), wire_normal fw m)"
    using message_decode_encode [of fw m rest] by (simp add: p2p_dec_def p2p_enc_def encode_size_def)
next
  fix m k
  assume "crop_spec fw \<and> wire_message fw m" and "k < length (p2p_enc fw m)"
  then show "\<exists>r. p2p_dec fw (take k (p2p_enc fw m)) = Inr (0, r)"
    using message_decode_prefix [of fw m k] by (simp add: p2p_dec_def p2p_enc_def encode_size_def)
next
  show "\<exists>r. p2p_dec fw [] = Inr (0, r)"
    by (simp add: p2p_dec_def message_decode_def MESSAGE_HEADER_LENGTH_def MESSAGE_INCOMPLETE_def)
next
  fix m
  assume "crop_spec fw \<and> wire_message fw m"
  then have "message_encodable fw m" by (simp add: wire_message_encodable)
  then show "p2p_enc fw m \<noteq> []" by (simp add: p2p_enc_def message_encode_ok message_header_def be32_def)
qed

lemma p2p_dec_bounded: "\<exists>r m. p2p_dec fw b = Inr (r, m) \<and> consumed_within r (length b)"
proof -
  have "defined (p2p_dec fw b)"
    unfolding p2p_dec_def by (rule message_decode_defined) (simp add: new_message_def new_options_def)
  then show ?thesis
    by (fastforce simp: defined_iff p2p_dec_def dest: message_decode_range)
qed

section \<open>Properties\<close>

text \<open>
  Claim C11: whatever way the network cuts a stream of encoded messages into chunks, the read
  loop hands exactly those messages to the session, in the order in which they were sent, and
  ends with an empty receive buffer, still reading.
\<close>

theorem stream_reassembly:
  assumes "crop_spec fw" and "list_all (wire_message fw) ms"
    and "concat chunks = concat (map (\<lambda>m. snd (message_encode fw m)) ms)"
  shows "feed (p2p_dec fw) onMsg onErr chunks [] s
    = Inr (True, [], fold onMsg (map (wire_normal fw) ms) s)"
  by (rule p2p.feed_from_empty) (use assms in \<open>simp_all add: p2p_enc_def [abs_def] list_all_iff\<close>)

theorem stream_reassembly_witness:
  "feed (p2p_dec example_fw) (#) (#)
     (map (\<lambda>b. [b]) (concat (map (\<lambda>m. snd (message_encode example_fw m)) [example_message, example_message])))
     [] []
   = Inr (True, [], fold (#) (map (wire_normal example_fw) [example_message, example_message]) [])"
  by (rule stream_reassembly) (simp_all add: example_message_wire)

text \<open>
  Claim C31: the read loop returns for every content of the receive buffer, reads and erases
  only what is there, and keeps a suffix of it: no bytes from the peer make the reader spin or
  leave the buffer.
\<close>

theorem read_loop_safe:
  "case read_loop (p2p_dec fw) onMsg onErr data s of
     Inl _ \<Rightarrow> False
   | Inr (goon, left, s') \<Rightarrow> \<exists>k. left = drop k data"
proof -
  obtain goon k s' where "read_loop (p2p_dec fw) onMsg onErr data s = Inr (goon, drop k data, s')"
    using read_loop_suffix [where dec = "p2p_dec fw" and f = onMsg and g = onErr and data = data
        and s = s, OF p2p_dec_bounded] by blast
  then show ?thesis by auto
qed

end
