(* ===== verification/Session_Model.thy ===== *)
theory Session_Model
  imports Message_Framing
begin

text \<open>
  \<open>libnetwork/Session.h\<close> and \<open>libnetwork/Session.cpp\<close>: a connection to a peer. Every operation
  takes the session and returns the effects it has outside the object, in order, with the
  session after; a null pointer it follows is a result of its own. Closures handed in as
  callbacks are named by numbers, a closure given to the thread pool or to a timer is a value
  of the datatype that carries what it captured.
\<close>

section \<open>State and effects\<close>

type_synonym callback = nat

record response_callback =
  rc_callback :: callback
  rc_timer :: bool \<comment> \<open>\<open>timeoutHandler\<close> is set\<close>

datatype session_job =
    JInactive callback
  | JDropped callback network_exception
  | JHandlerDropped network_exception
  | JResponse network_exception callback p2p_message
  | JHandler network_exception p2p_message
  | JTimeout callback u32

datatype session_effect =
    PostDoRead
  | AsyncReadSome
  | AsyncWrite bytes
  | Enqueue session_job
  | ArmTimer u32 u32
  | CancelTimer u32
  | ArmIdle
  | CancelIdle
  | CloseSocket
  | AsyncShutdown

text \<open>
  \<open>m_writeQueue\<close> is a \<open>boost::heap::priority_queue\<close>, whose operations are a parameter. Its
  comparison answers \<open>false\<close> to every pair and the heap is declared stable, so it is documented
  to return the elements in the order of their insertion: \<open>fifo_spec\<close>. (The time stored beside
  each buffer is never used, and not kept.)
\<close>

record 'q write_queue =
  wq_empty :: "'q \<Rightarrow> bool"
  wq_push :: "'q \<Rightarrow> bytes \<Rightarrow> 'q"
  wq_top :: "'q \<Rightarrow> bytes"
  wq_pop :: "'q \<Rightarrow> 'q"

definition fifo_spec :: "'q write_queue \<Rightarrow> ('q \<Rightarrow> bytes list) \<Rightarrow> bool" where
  "fifo_spec wq view \<longleftrightarrow>
     (\<forall>q. wq_empty wq q \<longleftrightarrow> view q = []) \<and>
     (\<forall>q b. view (wq_push wq q b) = view q @ [b]) \<and>
     (\<forall>q. view q \<noteq> [] \<longrightarrow> wq_top wq q = hd (view q) \<and> view (wq_pop wq q) = tl (view q))"

definition list_queue :: "bytes list write_queue" where
  "list_queue = \<lparr>wq_empty = (\<lambda>q. q = []), wq_push = (\<lambda>q b. q @ [b]), wq_top = hd, wq_pop = tl\<rparr>"

lemma list_queue_fifo: "fifo_spec list_queue (\<lambda>q. q)"
  by (simp add: fifo_spec_def list_queue_def)

record 'q session =
  m_server :: "bool option" \<comment> \<open>\<open>None\<close>: the host is gone; else \<open>haveNetwork()\<close>\<close>
  m_socketConnected :: bool
  m_actived :: bool
  m_data :: bytes
  m_writeQueue :: 'q
  m_writing :: bool
  m_seq2Callback :: "(u32 \<times> response_callback) list"
  m_messageHandler :: bool
  m_idleTimers :: bool

type_synonym 'q session_result = "(session_effect list \<times> 'q session) cpp"

definition eff_bind :: "(session_effect list \<times> 'q session) cpp \<Rightarrow>
    ('q session \<Rightarrow> (session_effect list \<times> 'q session) cpp) \<Rightarrow>
    (session_effect list \<times> 'q session) cpp" where
  "eff_bind x f = cpp_bind x (\<lambda>(es, s). cpp_bind (f s) (\<lambda>(es', s'). Inr (es @ es', s')))"

section \<open>Operations\<close>

text \<open>\<open>SessionFactory::create_session\<close>: the constructor and \<open>setHost\<close>, \<open>setSocket\<close>.\<close>

definition setHost :: "bool option \<Rightarrow> 'q session \<Rightarrow> 'q session" where
  "setHost host s =
     (let s' = s\<lparr>m_server := host\<rparr> in if host = Some True then s'\<lparr>m_idleTimers := True\<rparr> else s')"

definition create_session :: "bool option \<Rightarrow> bool \<Rightarrow> 'q \<Rightarrow> 'q session" where
  "create_session host connected emptyQueue =
     setHost host \<lparr>m_server = None, m_socketConnected = connected, m_actived = False, m_data = [],
       m_writeQueue = emptyQueue, m_writing = False, m_seq2Callback = [], m_messageHandler = False,
       m_idleTimers = False\<rparr>"

definition actived :: "'q session \<Rightarrow> bool" where
  "actived s \<longleftrightarrow> m_actived s \<and> m_server s = Some True \<and> m_socketConnected s"

definition updateIdleTimer :: "'q session \<Rightarrow> session_effect list" where
  "updateIdleTimer s = (if m_actived s \<and> m_idleTimers s then [ArmIdle] else [])"

text \<open>
  \<open>drop\<close>. Closing is attempted when the socket is connected; the shutdown timer is then made
  from the host without a check that there is one.
\<close>

definition drop_error :: "disconnect_reason \<Rightarrow> network_exception" where
  "drop_error r = (if r = DuplicatePeer then network_error DuplicateSession ''DuplicateSession''
                   else network_error Disconnect ''Disconnect'')"

definition drop_callbacks ::
  "bool option \<Rightarrow> network_exception \<Rightarrow> (u32 \<times> response_callback) list \<Rightarrow> session_effect list" where
  "drop_callbacks server e cbs = concat (map (\<lambda>(seq, rc).
     (if rc_timer rc then [CancelTimer seq] else []) @
     (if server \<noteq> None then [Enqueue (JDropped (rc_callback rc) e)] else [])) cbs)"

definition session_drop :: "disconnect_reason \<Rightarrow> 'q session \<Rightarrow> 'q session_result" where
  "session_drop r s =
     (if \<not> m_actived s then Inr ([], s)
      else let idle = (if m_idleTimers s then [CancelIdle, CancelIdle] else []);
               calls = drop_callbacks (m_server s) (drop_error r) (m_seq2Callback s);
               handler = (if m_server s \<noteq> None \<and> m_messageHandler s
                          then [Enqueue (JHandlerDropped (drop_error r))] else []);
               s' = s\<lparr>m_actived := False, m_seq2Callback := []\<rparr>
           in if m_socketConnected s
              then (if m_server s = None then Inl NullPointer
                    else Inr (idle @ calls @ handler @ [CloseSocket, AsyncShutdown],
                              s'\<lparr>m_socketConnected := False\<rparr>))
              else Inr (idle @ calls @ handler, s'))"

definition session_write :: "'q write_queue \<Rightarrow> 'q session \<Rightarrow> 'q session_result" where
  "session_write wq s =
     (if \<not> actived s then Inr ([], s)
      else if m_writing s then Inr ([], s)
      else if wq_empty wq (m_writeQueue s) then Inr ([], s\<lparr>m_writing := False\<rparr>)
      else let buffer = wq_top wq (m_writeQueue s);
               s' = s\<lparr>m_writing := True, m_writeQueue := wq_pop wq (m_writeQueue s)\<rparr>
           in if m_server s' = Some True
              then (if m_socketConnected s' then Inr ([AsyncWrite buffer], s')
                    else session_drop TCPError s')
              else session_drop TCPError s')"

definition session_send :: "'q write_queue \<Rightarrow> bytes \<Rightarrow> 'q session \<Rightarrow> 'q session_result" where
  "session_send wq msg s =
     (if \<not> actived s then Inr ([], s)
      else if \<not> m_socketConnected s then Inr ([], s)
      else session_write wq (s\<lparr>m_writeQueue := wq_push wq (m_writeQueue s) msg\<rparr>))"

definition addSeqCallback :: "u32 \<Rightarrow> response_callback \<Rightarrow> 'q session \<Rightarrow> 'q session" where
  "addSeqCallback seq rc s = s\<lparr>m_seq2Callback := um_emplace seq rc (m_seq2Callback s)\<rparr>"

definition removeSeqCallback :: "u32 \<Rightarrow> 'q session \<Rightarrow> 'q session" where
  "removeSeqCallback seq s = s\<lparr>m_seq2Callback := um_erase seq (m_seq2Callback s)\<rparr>"

definition getCallbackBySeq :: "u32 \<Rightarrow> 'q session \<Rightarrow> response_callback option" where
  "getCallbackBySeq seq s = map_of (m_seq2Callback s) seq"

definition clearSeqCallback :: "'q session \<Rightarrow> 'q session" where
  "clearSeqCallback s = s\<lparr>m_seq2Callback := []\<rparr>"

text \<open>The destructor closes the socket that is still connected, and calls no callback.\<close>

definition destroy_session :: "'q session \<Rightarrow> session_effect list" where
  "destroy_session s = (if m_socketConnected s then [CloseSocket] else [])"

text \<open>\<open>asyncSendMessage\<close>: the result of \<open>encode\<close> is not looked at.\<close>

definition asyncSendMessage :: "('key, 'more) bcos_fw_scheme \<Rightarrow> 'q write_queue \<Rightarrow> p2p_message \<Rightarrow>
    u32 \<Rightarrow> callback option \<Rightarrow> 'q session \<Rightarrow> 'q session_result" where
  "asyncSendMessage fw wq message timeout callback s =
     (if \<not> actived s
      then (case callback of None \<Rightarrow> Inr ([], s)
            | Some c \<Rightarrow> if m_server s = None then Inl NullPointer else Inr ([Enqueue (JInactive c)], s))
      else let (es, s') =
             (case callback of None \<Rightarrow> ([], s)
              | Some c \<Rightarrow> (if 0 < timeout then [ArmTimer (m_seq message) timeout] else [],
                  addSeqCallback (m_seq message) \<lparr>rc_callback = c, rc_timer = (0 < timeout)\<rparr> s))
           in eff_bind (Inr (es, s')) (session_send wq (snd (message_encode fw message))))"

definition session_onWrite :: "'q write_queue \<Rightarrow> bool \<Rightarrow> 'q session \<Rightarrow> 'q session_result" where
  "session_onWrite wq ec s =
     (if \<not> actived s then Inr ([], s)
      else let idle = updateIdleTimer s
           in if ec then eff_bind (Inr (idle, s)) (session_drop TCPError)
              else eff_bind (Inr (idle, if m_writing s then s\<lparr>m_writing := False\<rparr> else s))
                     (session_write wq))"

definition session_disconnect :: "disconnect_reason \<Rightarrow> 'q session \<Rightarrow> 'q session_result" where
  "session_disconnect r s = session_drop r s"

definition session_start :: "'q session \<Rightarrow> session_effect list \<times> 'q session" where
  "session_start s =
     (if \<not> m_actived s \<and> m_server s = Some True
      then let s' = s\<lparr>m_actived := True\<rparr>
           in (updateIdleTimer s' @ updateIdleTimer s' @ [PostDoRead], s')
      else ([], s))"

definition session_onMessage ::
  "network_exception \<Rightarrow> p2p_message \<Rightarrow> 'q session \<Rightarrow> session_effect list" where
  "session_onMessage e message s =
     (if m_actived s \<and> m_server s = Some True
      then (case (getCallbackBySeq (m_seq message) s, isRespPacket message) of
          (Some rc, True) \<Rightarrow>
            (if rc_timer rc then [CancelTimer (m_seq message)] else []) @
            [Enqueue (JResponse e (rc_callback rc) message)]
        | _ \<Rightarrow> if m_messageHandler s then [Enqueue (JHandler e message)] else [])
      else [])"

text \<open>\<open>doRead\<close>: the message it logs for a session without network asks the host for it.\<close>

definition session_doRead :: "'q session \<Rightarrow> 'q session_result" where
  "session_doRead s =
     (if m_actived s \<and> m_server s = Some True
      then (if m_socketConnected s then Inr ([AsyncReadSome], s) else session_drop TCPError s)
      else if m_server s = None then Inl NullPointer else Inr ([], s))"

text \<open>The handler of \<open>async_read_some\<close>, with the bytes it was given.\<close>

definition success :: network_exception where
  "success = network_error Success ''Success''"

definition session_onRead ::
  "('key, 'more) bcos_fw_scheme \<Rightarrow> bool \<Rightarrow> bytes \<Rightarrow> 'q session \<Rightarrow> 'q session_result" where
  "session_onRead fw ec received s =
     (if ec then session_drop TCPError s
      else cpp_bind (read_loop (p2p_dec fw)
             (\<lambda>message es. es @ session_onMessage success message s)
             (\<lambda>message es. es @ session_onMessage (network_error ProtocolError ''ProtocolError'') message s)
             (m_data s @ received) (updateIdleTimer s))
           (\<lambda>(goon, data, es).
             eff_bind (Inr (es, s\<lparr>m_data := data\<rparr>)) (if goon then session_doRead else (\<lambda>s. Inr ([], s)))))"

text \<open>\<open>_ec\<close> is an error with its category and value tested: \<open>fatal\<close> is the whole condition.\<close>

definition session_checkRead :: "bool \<Rightarrow> 'q session \<Rightarrow> (bool \<times> session_effect list \<times> 'q session) cpp" where
  "session_checkRead fatal s =
     (if fatal then cpp_bind (session_drop TCPError s) (\<lambda>(es, s'). Inr (False, es, s'))
      else Inr (True, [], s))"

definition session_onTimeout :: "bool \<Rightarrow> u32 \<Rightarrow> 'q session \<Rightarrow> session_effect list" where
  "session_onTimeout error seq s =
     (if error then []
      else if m_server s = None then []
      else (case getCallbackBySeq seq s of None \<Rightarrow> []
            | Some rc \<Rightarrow> [Enqueue (JTimeout (rc_callback rc) seq)]))"

definition session_onIdle :: "bool \<Rightarrow> 'q session \<Rightarrow> 'q session_result" where
  "session_onIdle aborted s =
     (if \<not> m_actived s then Inr ([], s)
      else if \<not> aborted then session_drop IdleWaitTimeout s
      else Inr ([], s))"

text \<open>
  What the jobs given to the thread pool do: the callbacks they call with their arguments, and
  the handler calls.
\<close>

datatype session_call =
    CallCallback callback network_exception "p2p_message option"
  | CallHandler network_exception "p2p_message option"

fun run_job :: "session_job \<Rightarrow> 'q session \<Rightarrow> session_call \<times> 'q session" where
  "run_job (JInactive c) s =
     (CallCallback c \<lparr>ne_code = -1, ne_msg = ''Session inactived''\<rparr> None, s)"
| "run_job (JDropped c e) s = (CallCallback c e None, s)"
| "run_job (JHandlerDropped e) s = (CallHandler e None, s)"
| "run_job (JResponse e c m) s = (CallCallback c e (Some m), removeSeqCallback (m_seq m) s)"
| "run_job (JHandler e m) s = (CallHandler e (Some m), s)"
| "run_job (JTimeout c seq) s =
     (CallCallback c (network_error NetworkTimeout ''NetworkTimeout'') None, removeSeqCallback seq s)"

end
