(* ===== verification/Session_World.thy ===== *)
theory Session_World
  imports Session_Model
begin

text \<open>
  A session in its environment: the asynchronous write and read the operating system works on,
  the armed timers, the jobs of the thread pool, and the calls the jobs have made. A step is one
  callback from one of these, or one call of the session from outside, run to its end; the
  environment may also take the network or the socket away. The session's host is there for the
  whole life of the session, as \<open>Session.h\<close> says of \<open>m_server\<close>.
\<close>

section \<open>The world and its steps\<close>

record 'q world =
  w_session :: "'q session"
  w_flight :: "bytes list" \<comment> \<open>writes given to the socket and not yet completed\<close>
  w_wire :: "bytes list" \<comment> \<open>all buffers given to the socket, in order\<close>
  w_reading :: bool
  w_timers :: "u32 list"
  w_jobs :: "session_job list"
  w_calls :: "session_call list"
  w_accepted :: "bytes list" \<comment> \<open>all buffers accepted by \<open>send\<close>, in order\<close>
  w_registered :: "(u32 \<times> callback) list" \<comment> \<open>all callbacks accepted for an answer\<close>

fun apply_effect :: "session_effect \<Rightarrow> 'q world \<Rightarrow> 'q world" where
  "apply_effect (AsyncWrite b) w = w\<lparr>w_flight := w_flight w @ [b], w_wire := w_wire w @ [b]\<rparr>"
| "apply_effect AsyncReadSome w = w\<lparr>w_reading := True\<rparr>"
| "apply_effect (Enqueue j) w = w\<lparr>w_jobs := w_jobs w @ [j]\<rparr>"
| "apply_effect (ArmTimer seq t) w = w\<lparr>w_timers := seq # w_timers w\<rparr>"
| "apply_effect (CancelTimer seq) w = w\<lparr>w_timers := removeAll seq (w_timers w)\<rparr>"
| "apply_effect _ w = w"

definition apply_result :: "session_effect list \<times> 'q session \<Rightarrow> 'q world \<Rightarrow> 'q world" where
  "apply_result r w = fold apply_effect (fst r) w\<lparr>w_session := snd r\<rparr>"

definition initial_world :: "bool \<Rightarrow> 'q \<Rightarrow> 'q world" where
  "initial_world handler emptyQueue =
     (let s = (create_session (Some True) True emptyQueue)\<lparr>m_messageHandler := handler\<rparr>
      in apply_result (session_start s)
           \<lparr>w_session = s, w_flight = [], w_wire = [], w_reading = False, w_timers = [], w_jobs = [],
            w_calls = [], w_accepted = [], w_registered = []\<rparr>)"

definition sending :: "('key, 'more) bcos_fw_scheme \<Rightarrow> p2p_message \<Rightarrow> callback option \<Rightarrow> 'q world \<Rightarrow> 'q world" where
  "sending fw m cb w =
     (if actived (w_session w)
      then w\<lparr>w_accepted := w_accepted w @ [snd (message_encode fw m)],
             w_registered := (case cb of None \<Rightarrow> w_registered w
                              | Some c \<Rightarrow> (m_seq m, c) # w_registered w)\<rparr>
      else w)"

text \<open>
  A message with a callback is sent with a sequence number the session has not used: the host's
  message factory counts them up (\<open>newSeq\<close>). A message without one, such as an answer, may carry any.
\<close>

inductive sess_step :: "('key, 'more) bcos_fw_scheme \<Rightarrow> 'q write_queue \<Rightarrow> 'q world \<Rightarrow> 'q world \<Rightarrow> bool"
  for fw wq where
  step_send:
    "cb = None \<or> m_seq m \<notin> fst ` set (w_registered w) \<Longrightarrow>
     asyncSendMessage fw wq m t cb (w_session w) = Inr r \<Longrightarrow>
     sess_step fw wq w (apply_result r (sending fw m cb w))"
| step_written:
    "w_flight w = b # rest \<Longrightarrow> session_onWrite wq ec (w_session w) = Inr r \<Longrightarrow>
     sess_step fw wq w (apply_result r (w\<lparr>w_flight := rest\<rparr>))"
| step_read:
    "w_reading w \<Longrightarrow> session_onRead fw ec received (w_session w) = Inr r \<Longrightarrow>
     sess_step fw wq w (apply_result r (w\<lparr>w_reading := False\<rparr>))"
| step_doRead:
    "session_doRead (w_session w) = Inr r \<Longrightarrow> sess_step fw wq w (apply_result r w)"
| step_timer:
    "seq \<in> set (w_timers w) \<Longrightarrow>
     sess_step fw wq w (apply_result (session_onTimeout False seq (w_session w), w_session w)
       (w\<lparr>w_timers := removeAll seq (w_timers w)\<rparr>))"
| step_job:
    "i < length (w_jobs w) \<Longrightarrow> run_job (w_jobs w ! i) (w_session w) = (call, s') \<Longrightarrow>
     sess_step fw wq w (w\<lparr>w_session := s', w_calls := w_calls w @ [call],
       w_jobs := take i (w_jobs w) @ drop (Suc i) (w_jobs w)\<rparr>)"
| step_disconnect:
    "session_disconnect reason (w_session w) = Inr r \<Longrightarrow> sess_step fw wq w (apply_result r w)"
| step_idle:
    "session_onIdle aborted (w_session w) = Inr r \<Longrightarrow> sess_step fw wq w (apply_result r w)"
| step_network_down:
    "sess_step fw wq w (w\<lparr>w_session := (w_session w)\<lparr>m_server := Some False\<rparr>\<rparr>)"
| step_socket_closed:
    "sess_step fw wq w (w\<lparr>w_session := (w_session w)\<lparr>m_socketConnected := False\<rparr>\<rparr>)"

inductive sess_reach :: "('key, 'more) bcos_fw_scheme \<Rightarrow> 'q write_queue \<Rightarrow> bool \<Rightarrow> 'q \<Rightarrow> 'q world \<Rightarrow> bool"
  for fw wq h q0 where
  reach_init: "sess_reach fw wq h q0 (initial_world h q0)"
| reach_step: "sess_reach fw wq h q0 w \<Longrightarrow> sess_step fw wq w w' \<Longrightarrow> sess_reach fw wq h q0 w'"

section \<open>Effects\<close>

definition writes_of :: "session_effect list \<Rightarrow> bytes list" where
  "writes_of es = concat (map (\<lambda>e. case e of AsyncWrite b \<Rightarrow> [b] | _ \<Rightarrow> []) es)"

definition jobs_of :: "session_effect list \<Rightarrow> session_job list" where
  "jobs_of es = concat (map (\<lambda>e. case e of Enqueue j \<Rightarrow> [j] | _ \<Rightarrow> []) es)"

lemma writes_of_simps [simp]:
  "writes_of [] = []" "writes_of (es @ es') = writes_of es @ writes_of es'"
  "writes_of (e # es) = (case e of AsyncWrite b \<Rightarrow> [b] | _ \<Rightarrow> []) @ writes_of es"
  by (simp_all add: writes_of_def)

lemma jobs_of_simps [simp]:
  "jobs_of [] = []" "jobs_of (es @ es') = jobs_of es @ jobs_of es'"
  "jobs_of (e # es) = (case e of Enqueue j \<Rightarrow> [j] | _ \<Rightarrow> []) @ jobs_of es"
  by (simp_all add: jobs_of_def)

lemma fold_effects [simp]:
  "w_session (fold apply_effect es w) = w_session w"
  "w_flight (fold apply_effect es w) = w_flight w @ writes_of es"
  "w_wire (fold apply_effect es w) = w_wire w @ writes_of es"
  "w_jobs (fold apply_effect es w) = w_jobs w @ jobs_of es"
  "w_calls (fold apply_effect es w) = w_calls w"
  "w_accepted (fold apply_effect es w) = w_accepted w"
  "w_registered (fold apply_effect es w) = w_registered w"
proof (induction es arbitrary: w)
  case (Cons e es)
  { case 1 show ?case using Cons(1) by (cases e) simp_all }
  { case 2 show ?case using Cons(2) by (cases e) simp_all }
  { case 3 show ?case using Cons(3) by (cases e) simp_all }
  { case 4 show ?case using Cons(4) by (cases e) simp_all }
  { case 5 show ?case using Cons(5) by (cases e) simp_all }
  { case 6 show ?case using Cons(6) by (cases e) simp_all }
  { case 7 show ?case using Cons(7) by (cases e) simp_all }
qed simp_all

lemma apply_result_simps [simp]:
  "w_session (apply_result r w) = snd r"
  "w_flight (apply_result r w) = w_flight w @ writes_of (fst r)"
  "w_wire (apply_result r w) = w_wire w @ writes_of (fst r)"
  "w_jobs (apply_result r w) = w_jobs w @ jobs_of (fst r)"
  "w_calls (apply_result r w) = w_calls w"
  "w_accepted (apply_result r w) = w_accepted w"
  "w_registered (apply_result r w) = w_registered w"
  by (simp_all add: apply_result_def)

section \<open>What an operation does to the write side\<close>

lemma eff_bind_Inr: "eff_bind x f = Inr (es, s') \<longleftrightarrow>
    (\<exists>es1 s1 es2. x = Inr (es1, s1) \<and> f s1 = Inr (es2, s') \<and> es = es1 @ es2)"
  by (auto simp: eff_bind_def cpp_bind_eq_Inr)

lemma eff_bind_pure [simp]: "eff_bind (Inr (es, s)) f = cpp_bind (f s) (\<lambda>(es', s'). Inr (es @ es', s'))"
  by (simp add: eff_bind_def)

lemma writes_of_drop_callbacks [simp]: "writes_of (drop_callbacks server e cbs) = []"
  by (induction cbs) (auto simp: drop_callbacks_def)

text \<open>Operations that leave the writes alone.\<close>

definition no_write :: "'q session \<Rightarrow> session_effect list \<Rightarrow> 'q session \<Rightarrow> bool" where
  "no_write s es s' \<longleftrightarrow> writes_of es = [] \<and> m_writeQueue s' = m_writeQueue s \<and>
     m_writing s' = m_writing s \<and> (actived s' \<longrightarrow> actived s)"

lemma no_write_drop: "session_drop r s = Inr (es, s') \<Longrightarrow> no_write s es s'"
  by (auto simp: session_drop_def no_write_def actived_def Let_def split: if_splits)

lemma no_write_idle [simp]: "writes_of (updateIdleTimer s) = []"
  by (simp add: updateIdleTimer_def)

lemma no_write_onMessage [simp]: "writes_of (session_onMessage e m s) = []"
  by (simp add: session_onMessage_def split: option.split bool.split)

lemma no_write_onTimeout [simp]: "writes_of (session_onTimeout e seq s) = []"
  by (simp add: session_onTimeout_def split: option.split)

lemma no_write_doRead: "session_doRead s = Inr (es, s') \<Longrightarrow> no_write s es s'"
  by (auto simp: session_doRead_def no_write_def intro: no_write_drop [unfolded no_write_def]
      dest: no_write_drop [unfolded no_write_def] split: if_splits)

text \<open>The loop of \<open>onRead\<close> only collects the effects of \<open>onMessage\<close>.\<close>

lemma read_loop_collects:
  assumes "read_loop dec (\<lambda>m es. es @ f m) (\<lambda>m es. es @ g m) data es = Inr (goon, left, es')"
  shows "\<exists>ms ms'. es' = es @ concat (map f ms) @ concat (map g ms')"
  using assms
proof (induction data arbitrary: es rule: length_induct)
  case (1 data)
  obtain r m where dec: "dec data = Inr (r, m)"
    using "1.prems" by (subst (asm) read_loop.simps) (auto split: sum.splits)
  consider "0 < r" | "r = 0" | "r < 0" by linarith
  then show ?case
  proof cases
    case 1
    then have bound: "nat r \<le> length data"
      using "1.prems" dec by (subst (asm) read_loop.simps) (simp split: if_splits)
    have "read_loop dec (\<lambda>m es. es @ f m) (\<lambda>m es. es @ g m) (drop (nat r) data) (es @ f m)
        = Inr (goon, left, es')"
      using "1.prems" dec 1 bound by (subst (asm) read_loop.simps) simp
    moreover have "length (drop (nat r) data) < length data" using 1 bound by simp
    ultimately obtain ms ms' where "es' = (es @ f m) @ concat (map f ms) @ concat (map g ms')"
      using "1.IH" by blast
    then show ?thesis by (intro exI [of _ "m # ms"] exI [of _ ms']) simp
  next
    case 2
    with "1.prems" dec show ?thesis
      by (intro exI [of _ "[]"]) (simp add: read_loop_more)
  next
    case 3
    with "1.prems" dec show ?thesis
      by (intro exI [of _ "[]"] exI [of _ "[m]"]) (simp add: read_loop_error)
  qed
qed

lemma onRead_effects:
  assumes "session_onRead fw ec received s = Inr (es, s')" and "\<not> ec"
  shows "\<exists>data calls goon es2. es = updateIdleTimer s @ concat (map (\<lambda>(e, m). session_onMessage e m s) calls) @ es2
    \<and> (if goon then session_doRead (s\<lparr>m_data := data\<rparr>) else Inr ([], s\<lparr>m_data := data\<rparr>)) = Inr (es2, s')"
proof -
  let ?err = "network_error ProtocolError ''ProtocolError''"
  obtain goon data es1 es2
    where loop: "read_loop (p2p_dec fw) (\<lambda>m es. es @ session_onMessage success m s)
        (\<lambda>m es. es @ session_onMessage ?err m s) (m_data s @ received) (updateIdleTimer s)
        = Inr (goon, data, es1)"
      and last: "(if goon then session_doRead (s\<lparr>m_data := data\<rparr>) else Inr ([], s\<lparr>m_data := data\<rparr>))
        = Inr (es2, s')" and es: "es = es1 @ es2"
    using assms by (auto simp: session_onRead_def cpp_bind_eq_Inr split: if_splits)
  obtain ms ms' where "es1 = updateIdleTimer s @ concat (map (\<lambda>m. session_onMessage success m s) ms)
      @ concat (map (\<lambda>m. session_onMessage ?err m s) ms')"
    using read_loop_collects [OF loop] by blast
  then have "es = updateIdleTimer s @ concat (map (\<lambda>(e, m). session_onMessage e m s)
      (map (Pair success) ms @ map (Pair ?err) ms')) @ es2"
    by (simp add: es o_def)
  with last show ?thesis by blast
qed

lemma no_write_calls: "writes_of (concat (map (\<lambda>(e, m). session_onMessage e m s) calls)) = []"
  by (induction calls) auto

lemma no_write_onRead:
  assumes "session_onRead fw ec received s = Inr (es, s')"
  shows "no_write s es s'"
proof (cases ec)
  case True
  with assms show ?thesis by (simp add: session_onRead_def no_write_drop)
next
  case False
  from onRead_effects [OF assms False] obtain data calls goon es2
    where es: "es = updateIdleTimer s @ concat (map (\<lambda>(e, m). session_onMessage e m s) calls) @ es2"
      and last: "(if goon then session_doRead (s\<lparr>m_data := data\<rparr>) else Inr ([], s\<lparr>m_data := data\<rparr>))
        = Inr (es2, s')" by blast
  have "no_write (s\<lparr>m_data := data\<rparr>) es2 s'"
    using last by (cases goon) (auto simp: no_write_doRead, simp add: no_write_def)
  then show ?thesis by (simp add: es no_write_def no_write_calls actived_def)
qed

section \<open>The write side is kept in order\<close>

definition write_ok :: "('q \<Rightarrow> bytes list) \<Rightarrow> bytes list \<Rightarrow> bytes list \<Rightarrow> bytes list \<Rightarrow> 'q session \<Rightarrow> bool" where
  "write_ok view flight wire accepted s \<longleftrightarrow>
     length flight \<le> 1 \<and> (flight \<noteq> [] \<longrightarrow> m_writing s) \<and> accepted = wire @ view (m_writeQueue s) \<and>
     (actived s \<longrightarrow> (m_writing s \<longrightarrow> flight \<noteq> []) \<and> (view (m_writeQueue s) \<noteq> [] \<longrightarrow> m_writing s))"

abbreviation world_write_ok :: "('q \<Rightarrow> bytes list) \<Rightarrow> 'q world \<Rightarrow> bool" where
  "world_write_ok view w \<equiv> write_ok view (w_flight w) (w_wire w) (w_accepted w) (w_session w)"

lemma write_ok_no_write:
  "write_ok view fl wire acc s \<Longrightarrow> no_write s es s' \<Longrightarrow>
   write_ok view (fl @ writes_of es) (wire @ writes_of es) acc s'"
  by (auto simp: write_ok_def no_write_def)

lemma write_ok_write:
  assumes fifo: "fifo_spec wq view" and res: "session_write wq s = Inr (es, s')"
    and fl: "length fl \<le> 1" "fl \<noteq> [] \<Longrightarrow> m_writing s" "acc = wire @ view (m_writeQueue s)"
      "actived s \<Longrightarrow> m_writing s \<Longrightarrow> fl \<noteq> []"
  shows "write_ok view (fl @ writes_of es) (wire @ writes_of es) acc s'"
proof (cases "actived s \<and> \<not> m_writing s \<and> view (m_writeQueue s) \<noteq> []")
  case True
  then have top: "wq_top wq (m_writeQueue s) = hd (view (m_writeQueue s))"
    and pop: "view (wq_pop wq (m_writeQueue s)) = tl (view (m_writeQueue s))"
    and nonempty: "\<not> wq_empty wq (m_writeQueue s)"
    using fifo by (simp_all add: fifo_spec_def)
  have "es = [AsyncWrite (hd (view (m_writeQueue s)))]"
    and "s' = s\<lparr>m_writing := True, m_writeQueue := wq_pop wq (m_writeQueue s)\<rparr>"
    using res True nonempty by (simp_all add: session_write_def actived_def Let_def top)
  with True fl pop show ?thesis by (auto simp: write_ok_def actived_def)
next
  case False
  then have "es = [] \<and> s' = s \<or> view (m_writeQueue s) = [] \<and> es = [] \<and> s' = s\<lparr>m_writing := False\<rparr> \<and> \<not> m_writing s"
    using fifo res by (auto simp: session_write_def fifo_spec_def split: if_splits)
  then show ?thesis using False fl by (auto simp: write_ok_def actived_def)
qed

lemma write_ok_onWrite:
  assumes fifo: "fifo_spec wq view" and res: "session_onWrite wq ec s = Inr (es, s')"
    and ok: "write_ok view (b # rest) wire acc s"
  shows "write_ok view (rest @ writes_of es) (wire @ writes_of es) acc s'"
proof -
  have rest: "rest = []" and writing: "m_writing s" using ok by (simp_all add: write_ok_def)
  have acc: "acc = wire @ view (m_writeQueue s)" using ok by (simp add: write_ok_def)
  consider "\<not> actived s" | "actived s" "ec" | "actived s" "\<not> ec" by blast
  then show ?thesis
  proof cases
    case 1
    with res acc rest show ?thesis by (simp add: session_onWrite_def write_ok_def)
  next
    case 2
    then obtain es2 where drop: "session_drop TCPError s = Inr (es2, s')"
        and es: "es = updateIdleTimer s @ es2"
      using res by (auto simp: session_onWrite_def cpp_bind_eq_Inr)
    have "\<not> actived s'" using drop 2 by (auto simp: session_drop_def actived_def Let_def)
    with no_write_drop [OF drop] acc rest show ?thesis
      by (simp add: es write_ok_def no_write_def)
  next
    case 3
    then obtain es2 where wr: "session_write wq (s\<lparr>m_writing := False\<rparr>) = Inr (es2, s')"
        and es: "es = updateIdleTimer s @ es2"
      using res writing by (auto simp: session_onWrite_def cpp_bind_eq_Inr)
    have "write_ok view ([] @ writes_of es2) (wire @ writes_of es2) acc s'"
      by (rule write_ok_write [OF fifo wr]) (simp_all add: acc)
    then show ?thesis by (simp add: es rest)
  qed
qed

lemma write_ok_send:
  assumes fifo: "fifo_spec wq view" and res: "session_send wq buf s = Inr (es, s')" and act: "actived s"
    and ok: "write_ok view fl wire acc s"
  shows "write_ok view (fl @ writes_of es) (wire @ writes_of es) (acc @ [buf]) s'"
proof (rule write_ok_write [OF fifo])
  show "session_write wq (s\<lparr>m_writeQueue := wq_push wq (m_writeQueue s) buf\<rparr>) = Inr (es, s')"
    using res act by (simp add: session_send_def actived_def)
qed (use ok fifo act in \<open>auto simp: write_ok_def fifo_spec_def actived_def\<close>)

lemma write_ok_asyncSend:
  assumes fifo: "fifo_spec wq view" and ok: "world_write_ok view w"
    and res: "asyncSendMessage fw wq m t cb (w_session w) = Inr r"
  shows "world_write_ok view (apply_result r (sending fw m cb w))"
proof (cases "actived (w_session w)")
  case False
  then show ?thesis
    using res ok by (cases cb) (auto simp: asyncSendMessage_def sending_def split: if_splits)
next
  case True
  let ?s = "w_session w" and ?buf = "snd (message_encode fw m)"
  obtain es1 s1 where pre: "(case cb of None \<Rightarrow> ([], ?s)
      | Some c \<Rightarrow> (if 0 < t then [ArmTimer (m_seq m) t] else [],
          addSeqCallback (m_seq m) \<lparr>rc_callback = c, rc_timer = (0 < t)\<rparr> ?s)) = (es1, s1)"
    by fastforce
  then have s1: "actived s1" "write_ok view (w_flight w) (w_wire w) (w_accepted w) s1" "writes_of es1 = []"
    using True ok by (auto simp: addSeqCallback_def actived_def write_ok_def split: option.splits if_splits)
  obtain es2 s2 where send: "session_send wq ?buf s1 = Inr (es2, s2)" and r: "r = (es1 @ es2, s2)"
    using res True by (auto simp: asyncSendMessage_def pre cpp_bind_eq_Inr)
  show ?thesis
    using write_ok_send [OF fifo send s1(1,2)] True by (simp add: r s1(3) sending_def)
qed

lemma write_ok_step:
  assumes fifo: "fifo_spec wq view" and ok: "world_write_ok view w" and step: "sess_step fw wq w w'"
  shows "world_write_ok view w'"
  using step
proof cases
  case (step_send m t cb r)
  then show ?thesis using write_ok_asyncSend [OF fifo ok] by simp
next
  case (step_written b rest ec r)
  with ok show ?thesis
    by (cases r) (auto intro: write_ok_onWrite [OF fifo])
next
  case (step_read ec received r)
  with ok show ?thesis by (cases r) (auto dest: no_write_onRead intro: write_ok_no_write)
next
  case (step_doRead r)
  with ok show ?thesis by (cases r) (auto dest: no_write_doRead intro: write_ok_no_write)
next
  case (step_timer seq)
  with ok show ?thesis by simp
next
  case (step_job i call s')
  with ok show ?thesis
    by (cases "w_jobs w ! i") (auto simp: write_ok_def removeSeqCallback_def actived_def)
next
  case (step_disconnect reason r)
  with ok show ?thesis
    by (cases r) (auto simp: session_disconnect_def dest: no_write_drop intro: write_ok_no_write)
next
  case (step_idle aborted r)
  with ok show ?thesis
    by (cases r) (auto simp: session_onIdle_def dest: no_write_drop intro: write_ok_no_write
        split: if_splits)
next
  case step_network_down
  with ok show ?thesis by (auto simp: write_ok_def actived_def)
next
  case step_socket_closed
  with ok show ?thesis by (auto simp: write_ok_def actived_def)
qed

lemma write_ok_reach:
  assumes fifo: "fifo_spec wq view" and empty: "view q0 = []"
  shows "sess_reach fw wq h q0 w \<Longrightarrow> world_write_ok view w"
proof (induction rule: sess_reach.induct)
  case reach_init
  then show ?case
    using empty by (simp add: initial_world_def write_ok_def session_start_def create_session_def
        setHost_def Let_def)
next
  case (reach_step w w')
  then show ?case using write_ok_step [OF fifo] by blast
qed

section \<open>No callback is lost\<close>

fun job_callback :: "session_job \<Rightarrow> callback option" where
  "job_callback (JInactive c) = Some c"
| "job_callback (JDropped c e) = Some c"
| "job_callback (JHandlerDropped e) = None"
| "job_callback (JResponse e c m) = Some c"
| "job_callback (JHandler e m) = None"
| "job_callback (JTimeout c seq) = Some c"

fun call_callback :: "session_call \<Rightarrow> callback option" where
  "call_callback (CallCallback c e m) = Some c"
| "call_callback (CallHandler e m) = None"

lemma run_job_calls: "call_callback (fst (run_job j s)) = job_callback j"
  by (cases j) simp_all

text \<open>The jobs that name a sequence number name the callback stored under it.\<close>

fun job_from :: "(u32 \<times> response_callback) list \<Rightarrow> session_job \<Rightarrow> bool" where
  "job_from cbs (JResponse e c m) \<longleftrightarrow> (\<exists>rc. map_of cbs (m_seq m) = Some rc \<and> rc_callback rc = c)"
| "job_from cbs (JTimeout c seq) \<longleftrightarrow> (\<exists>rc. map_of cbs seq = Some rc \<and> rc_callback rc = c)"
| "job_from cbs _ \<longleftrightarrow> True"

fun job_registered :: "(u32 \<times> callback) set \<Rightarrow> session_job \<Rightarrow> bool" where
  "job_registered reg (JResponse e c m) \<longleftrightarrow> (m_seq m, c) \<in> reg"
| "job_registered reg (JTimeout c seq) \<longleftrightarrow> (seq, c) \<in> reg"
| "job_registered reg _ \<longleftrightarrow> True"

definition cb_keeps :: "'q session \<Rightarrow> session_effect list \<Rightarrow> 'q session \<Rightarrow> bool" where
  "cb_keeps s es s' \<longleftrightarrow>
     (m_server s' = None \<longleftrightarrow> m_server s = None) \<and> list_all (job_from (m_seq2Callback s)) (jobs_of es) \<and>
     (if m_actived s' = m_actived s then m_seq2Callback s' = m_seq2Callback s
      else \<not> m_actived s' \<and> m_seq2Callback s' = [] \<and>
        (m_server s \<noteq> None \<longrightarrow>
           rc_callback ` snd ` set (m_seq2Callback s) \<subseteq> {c. \<exists>j \<in> set (jobs_of es). job_callback j = Some c}))"

lemma jobs_of_drop_callbacks:
  "jobs_of (drop_callbacks server e cbs)
    = (if server = None then [] else map (\<lambda>(seq, rc). JDropped (rc_callback rc) e) cbs)"
  by (induction cbs) (auto simp: drop_callbacks_def)

lemma cb_keeps_drop: "session_drop r s = Inr (es, s') \<Longrightarrow> cb_keeps s es s'"
  by (force simp: session_drop_def cb_keeps_def Let_def jobs_of_drop_callbacks list_all_iff
      split: if_splits)

lemma cb_keeps_same:
  "m_server s' = m_server s \<Longrightarrow> m_actived s' = m_actived s \<Longrightarrow> m_seq2Callback s' = m_seq2Callback s \<Longrightarrow>
   list_all (job_from (m_seq2Callback s)) (jobs_of es) \<Longrightarrow> cb_keeps s es s'"
  by (simp add: cb_keeps_def)

lemma cb_keeps_prefix:
  "cb_keeps s es2 s' \<Longrightarrow> list_all (job_from (m_seq2Callback s)) (jobs_of es1) \<Longrightarrow> cb_keeps s (es1 @ es2) s'"
  by (auto simp: cb_keeps_def split: if_splits)

lemma cb_keeps_change:
  "cb_keeps s1 es s' \<Longrightarrow> m_server s1 = m_server s \<Longrightarrow> m_actived s1 = m_actived s \<Longrightarrow>
   m_seq2Callback s1 = m_seq2Callback s \<Longrightarrow> cb_keeps s es s'"
  by (auto simp: cb_keeps_def split: if_splits)

lemma jobs_idle [simp]: "jobs_of (updateIdleTimer s) = []"
  by (simp add: updateIdleTimer_def)

lemma cb_keeps_write: "session_write wq s = Inr (es, s') \<Longrightarrow> cb_keeps s es s'"
  by (auto simp: session_write_def Let_def actived_def intro!: cb_keeps_same split: if_splits)

lemma cb_keeps_send: "session_send wq b s = Inr (es, s') \<Longrightarrow> cb_keeps s es s'"
  by (auto simp: session_send_def split: if_splits intro: cb_keeps_same
      intro: cb_keeps_change [OF cb_keeps_write])

lemma cb_keeps_onWrite: "session_onWrite wq ec s = Inr (es, s') \<Longrightarrow> cb_keeps s es s'"
  by (auto simp: session_onWrite_def cpp_bind_eq_Inr Let_def split: if_splits
      intro!: cb_keeps_prefix intro: cb_keeps_same cb_keeps_drop cb_keeps_write
        cb_keeps_change [OF cb_keeps_write])

lemma cb_keeps_doRead: "session_doRead s = Inr (es, s') \<Longrightarrow> cb_keeps s es s'"
  by (auto simp: session_doRead_def intro: cb_keeps_same cb_keeps_drop split: if_splits)

lemma jobs_onMessage: "list_all (job_from (m_seq2Callback s)) (jobs_of (session_onMessage e m s))"
  by (auto simp: session_onMessage_def getCallbackBySeq_def split: option.split bool.split)

lemma jobs_onTimeout: "list_all (job_from (m_seq2Callback s)) (jobs_of (session_onTimeout e seq s))"
  by (auto simp: session_onTimeout_def getCallbackBySeq_def split: option.split)

lemma jobs_calls:
  "list_all (job_from (m_seq2Callback s)) (jobs_of (concat (map (\<lambda>(e, m). session_onMessage e m s) calls)))"
  by (induction calls) (auto simp: jobs_onMessage)

lemma cb_keeps_onRead:
  assumes "session_onRead fw ec received s = Inr (es, s')"
  shows "cb_keeps s es s'"
proof (cases ec)
  case True
  with assms show ?thesis by (simp add: session_onRead_def cb_keeps_drop)
next
  case False
  from onRead_effects [OF assms False] obtain data calls goon es2
    where es: "es = updateIdleTimer s @ concat (map (\<lambda>(e, m). session_onMessage e m s) calls) @ es2"
      and last: "(if goon then session_doRead (s\<lparr>m_data := data\<rparr>) else Inr ([], s\<lparr>m_data := data\<rparr>))
        = Inr (es2, s')" by blast
  have "cb_keeps (s\<lparr>m_data := data\<rparr>) es2 s'"
    using last by (cases goon) (auto simp: cb_keeps_doRead intro: cb_keeps_same)
  then have "cb_keeps s es2 s'" by (rule cb_keeps_change) simp_all
  then show ?thesis unfolding es by (intro cb_keeps_prefix) (simp_all add: jobs_calls)
qed

lemma cb_keeps_onIdle: "session_onIdle aborted s = Inr (es, s') \<Longrightarrow> cb_keeps s es s'"
  by (auto simp: session_onIdle_def intro: cb_keeps_same cb_keeps_drop split: if_splits)

text \<open>Every accepted callback is in the table, or a job will call it, or it has been called.\<close>

definition cb_live :: "session_job list \<Rightarrow> session_call list \<Rightarrow> 'q session \<Rightarrow> u32 \<times> callback \<Rightarrow> bool" where
  "cb_live jobs calls s = (\<lambda>(seq, c).
     map_option rc_callback (map_of (m_seq2Callback s) seq) = Some c \<or>
     Some c \<in> job_callback ` set jobs \<or> Some c \<in> call_callback ` set calls)"

definition cb_ok ::
  "(u32 \<times> callback) list \<Rightarrow> session_job list \<Rightarrow> session_call list \<Rightarrow> 'q session \<Rightarrow> bool" where
  "cb_ok reg jobs calls s \<longleftrightarrow>
     um_ok reg \<and> m_server s \<noteq> None \<and> (\<not> m_actived s \<longrightarrow> m_seq2Callback s = []) \<and>
     (\<forall>seq rc. map_of (m_seq2Callback s) seq = Some rc \<longrightarrow> (seq, rc_callback rc) \<in> set reg) \<and>
     list_all (job_registered (set reg)) jobs \<and> list_all (cb_live jobs calls s) reg"

abbreviation world_cb_ok :: "'q world \<Rightarrow> bool" where
  "world_cb_ok w \<equiv> cb_ok (w_registered w) (w_jobs w) (w_calls w) (w_session w)"

lemma job_from_registered:
  "job_from cbs j \<Longrightarrow> (\<And>seq rc. map_of cbs seq = Some rc \<Longrightarrow> (seq, rc_callback rc) \<in> reg) \<Longrightarrow>
   job_registered reg j"
  by (cases j) auto

lemma cb_ok_keeps:
  assumes ok: "cb_ok reg jobs calls s" and keeps: "cb_keeps s es s'"
  shows "cb_ok reg (jobs @ jobs_of es) calls s'"
proof -
  have table: "map_of (m_seq2Callback s) seq = Some rc \<Longrightarrow> (seq, rc_callback rc) \<in> set reg" for seq rc
    using ok by (simp add: cb_ok_def)
  have new: "list_all (job_registered (set reg)) (jobs_of es)"
    using keeps job_from_registered [OF _ table] by (auto simp: cb_keeps_def list_all_iff)
  have live: "cb_live (jobs @ jobs_of es) calls s' (seq, c)" if "(seq, c) \<in> set reg" for seq c
  proof -
    from that ok have "cb_live jobs calls s (seq, c)" by (auto simp: cb_ok_def list_all_iff)
    then consider rc where "map_of (m_seq2Callback s) seq = Some rc" "rc_callback rc = c"
      | "Some c \<in> job_callback ` set jobs \<or> Some c \<in> call_callback ` set calls"
      by (auto simp: cb_live_def)
    then show ?thesis
    proof cases
      case 1
      show ?thesis
      proof (cases "m_actived s' = m_actived s")
        case True
        with keeps 1 show ?thesis by (simp add: cb_keeps_def cb_live_def)
      next
        case False
        have "c \<in> rc_callback ` snd ` set (m_seq2Callback s)"
          using map_of_SomeD [OF 1(1)] 1(2) by force
        moreover have "rc_callback ` snd ` set (m_seq2Callback s)
            \<subseteq> {c. \<exists>j \<in> set (jobs_of es). job_callback j = Some c}"
          using False keeps ok by (simp add: cb_keeps_def cb_ok_def)
        ultimately have "\<exists>j \<in> set (jobs_of es). job_callback j = Some c" by blast
        then show ?thesis by (force simp: cb_live_def)
      qed
    next
      case 2
      then show ?thesis by (auto simp: cb_live_def)
    qed
  qed
  show ?thesis
    using ok keeps new live by (auto simp: cb_ok_def cb_keeps_def list_all_iff split: if_splits)
qed

lemma cb_ok_register:
  assumes ok: "cb_ok reg jobs calls s" and act: "m_actived s" and fresh: "seq \<notin> fst ` set reg"
  shows "cb_ok ((seq, rc_callback rc) # reg) jobs calls (addSeqCallback seq rc s)"
proof -
  have none: "map_of (m_seq2Callback s) seq = None"
    using ok fresh by (cases "map_of (m_seq2Callback s) seq") (force simp: cb_ok_def)+
  have jobs: "job_registered (set reg) j \<Longrightarrow> job_registered (insert x (set reg)) j" for j x
    by (cases j) simp_all
  show ?thesis
    using ok act fresh none jobs
    by (auto simp: cb_ok_def addSeqCallback_def um_simps cb_live_def list_all_iff um_ok_def
        split: if_splits)
qed

lemma cb_ok_remove:
  assumes ok: "cb_ok reg (jobs1 @ j # jobs2) calls s" and run: "run_job j s = (call, s')"
  shows "cb_ok reg (jobs1 @ jobs2) (calls @ [call]) s'"
proof -
  have called: "call_callback call = job_callback j"
    using run_job_calls [of j s] run by simp
  have reg: "um_ok reg" "job_registered (set reg) j" using ok by (simp_all add: cb_ok_def)
  consider "s' = s" | seq c where "s' = removeSeqCallback seq s" "(seq, c) \<in> set reg" "job_callback j = Some c"
    using run reg(2) by (cases j) auto
  then show ?thesis
  proof cases
    case 1
    with ok called show ?thesis by (auto simp: cb_ok_def list_all_iff cb_live_def)
  next
    case 2
    have only: "c' = c" if "(seq, c') \<in> set reg" for c'
      using that 2(2) reg(1) by (simp add: um_mem_iff)
    have live: "cb_live (jobs1 @ jobs2) (calls @ [call]) s' (seq', c')" if "(seq', c') \<in> set reg" for seq' c'
    proof -
      have "cb_live (jobs1 @ j # jobs2) calls s (seq', c')"
        using ok that by (auto simp: cb_ok_def list_all_iff)
      then consider "map_option rc_callback (map_of (m_seq2Callback s) seq') = Some c'"
        | "Some c' \<in> job_callback ` set (jobs1 @ jobs2) \<or> Some c' \<in> call_callback ` set (calls @ [call])"
        using called by (auto simp: cb_live_def)
      then show ?thesis
      proof cases
        case 1
        show ?thesis
        proof (cases "seq' = seq")
          case True
          with that only have "c' = c" by blast
          with called 2(3) show ?thesis by (simp add: cb_live_def)
        next
          case False
          with 1 show ?thesis by (simp add: cb_live_def 2(1) removeSeqCallback_def um_simps)
        qed
      next
        case 2
        then show ?thesis by (auto simp: cb_live_def)
      qed
    qed
    have table: "\<forall>x rc. map_of (m_seq2Callback s') x = Some rc \<longrightarrow> (x, rc_callback rc) \<in> set reg"
      using ok by (simp add: 2(1) removeSeqCallback_def um_simps cb_ok_def)
    have rest: "m_server s' \<noteq> None" "\<not> m_actived s' \<longrightarrow> m_seq2Callback s' = []"
        "list_all (job_registered (set reg)) (jobs1 @ jobs2)"
      using ok by (simp_all add: 2(1) removeSeqCallback_def cb_ok_def)
    have "list_all (cb_live (jobs1 @ jobs2) (calls @ [call]) s') reg"
      using live by (auto simp: list_all_iff)
    with table rest reg(1) show ?thesis unfolding cb_ok_def by blast
  qed
qed

lemma cb_ok_asyncSend:
  assumes ok: "world_cb_ok w" and fresh: "cb = None \<or> m_seq m \<notin> fst ` set (w_registered w)"
    and res: "asyncSendMessage fw wq m t cb (w_session w) = Inr r"
  shows "world_cb_ok (apply_result r (sending fw m cb w))"
proof (cases "actived (w_session w)")
  case False
  then obtain es where r: "r = (es, w_session w)" and es: "list_all (job_from (m_seq2Callback (w_session w))) (jobs_of es)"
    using res by (cases cb) (auto simp: asyncSendMessage_def split: if_splits)
  then have "cb_keeps (w_session w) es (w_session w)" by (intro cb_keeps_same) simp_all
  from cb_ok_keeps [OF ok this] False show ?thesis by (simp add: r sending_def)
next
  case True
  let ?s = "w_session w"
  obtain es1 s1 where pre: "(case cb of None \<Rightarrow> ([], ?s)
      | Some c \<Rightarrow> (if 0 < t then [ArmTimer (m_seq m) t] else [],
          addSeqCallback (m_seq m) \<lparr>rc_callback = c, rc_timer = (0 < t)\<rparr> ?s)) = (es1, s1)"
    by fastforce
  have jobs1: "jobs_of es1 = []"
    using pre by (auto split: option.splits if_splits)
  have act: "m_actived ?s" using True by (simp add: actived_def)
  have s1: "cb_ok (w_registered (sending fw m cb w)) (w_jobs w) (w_calls w) s1"
  proof (cases cb)
    case None
    with pre ok True show ?thesis by (simp add: sending_def)
  next
    case (Some c)
    have "cb_ok ((m_seq m, rc_callback \<lparr>rc_callback = c, rc_timer = (0 < t)\<rparr>) # w_registered w)
        (w_jobs w) (w_calls w) (addSeqCallback (m_seq m) \<lparr>rc_callback = c, rc_timer = (0 < t)\<rparr> ?s)"
      using fresh Some by (intro cb_ok_register [OF ok act]) simp
    with Some pre True show ?thesis by (simp add: sending_def)
  qed
  obtain es2 s2 where send: "session_send wq (snd (message_encode fw m)) s1 = Inr (es2, s2)"
      and r: "r = (es1 @ es2, s2)"
    using res True by (auto simp: asyncSendMessage_def pre cpp_bind_eq_Inr)
  from cb_ok_keeps [OF s1 cb_keeps_send [OF send]] True jobs1 show ?thesis
    by (simp add: r sending_def)
qed

lemma cb_ok_reach: "sess_reach fw wq h q0 w \<Longrightarrow> world_cb_ok w"
proof (induction rule: sess_reach.induct)
  case reach_init
  then show ?case
    by (simp add: initial_world_def session_start_def create_session_def setHost_def Let_def
        cb_ok_def updateIdleTimer_def)
next
  case (reach_step w w')
  note ok = reach_step.IH
  from reach_step.hyps(2) show ?case
  proof cases
    case (step_send m t cb r)
    then show ?thesis using cb_ok_asyncSend [OF ok] by simp
  next
    case (step_written b rest ec r)
    then show ?thesis
      using cb_ok_keeps [OF ok cb_keeps_onWrite [of wq ec "w_session w" "fst r" "snd r"]] by simp
  next
    case (step_read ec received r)
    then show ?thesis
      using cb_ok_keeps [OF ok cb_keeps_onRead [of fw ec received "w_session w" "fst r" "snd r"]] by simp
  next
    case (step_doRead r)
    then show ?thesis
      using cb_ok_keeps [OF ok cb_keeps_doRead [of  "w_session w" "fst r" "snd r"]] by simp
  next
    case (step_timer seq)
    have "cb_keeps (w_session w) (session_onTimeout False seq (w_session w)) (w_session w)"
      by (rule cb_keeps_same) (simp_all add: jobs_onTimeout)
    from cb_ok_keeps [OF ok this] step_timer show ?thesis by simp
  next
    case (step_job i call s')
    have "w_jobs w = take i (w_jobs w) @ w_jobs w ! i # drop (Suc i) (w_jobs w)"
      using step_job(2) by (simp add: id_take_nth_drop [symmetric])
    with ok have "cb_ok (w_registered w) (take i (w_jobs w) @ w_jobs w ! i # drop (Suc i) (w_jobs w))
        (w_calls w) (w_session w)" by simp
    from cb_ok_remove [OF this step_job(3)] step_job(1) show ?thesis by simp
  next
    case (step_disconnect reason r)
    then show ?thesis
      using cb_ok_keeps [OF ok cb_keeps_drop [of reason "w_session w" "fst r" "snd r"]] by (simp add: session_disconnect_def)
  next
    case (step_idle aborted r)
    then show ?thesis
      using cb_ok_keeps [OF ok cb_keeps_onIdle [of aborted "w_session w" "fst r" "snd r"]] by simp
  next
    case step_network_down
    with ok show ?thesis by (simp add: cb_ok_def cb_live_def)
  next
    case step_socket_closed
    with ok show ?thesis by (simp add: cb_ok_def cb_live_def)
  qed
qed

section \<open>Properties\<close>

text \<open>A run that the properties are shown on: a message sent with a callback.\<close>

definition example_reply :: p2p_message where
  "example_reply = setRespPacket (example_message\<lparr>m_packetType := 2, m_options := new_options\<rparr>)"

definition world_sent :: "bytes list world" where
  "world_sent =
     (case asyncSendMessage example_fw list_queue example_message 0 (Some 42) (w_session (initial_world True []))
      of Inl _ \<Rightarrow> initial_world True []
       | Inr r \<Rightarrow> apply_result r (sending example_fw example_message (Some 42) (initial_world True [])))"

lemmas session_eval = session_start_def create_session_def setHost_def actived_def updateIdleTimer_def
  session_send_def session_write_def addSeqCallback_def removeSeqCallback_def getCallbackBySeq_def
  um_emplace_def list_queue_def Let_def

lemma world_sent_eq:
  "world_sent = \<lparr>w_session = \<lparr>m_server = Some True, m_socketConnected = True, m_actived = True,
       m_data = [], m_writeQueue = [], m_writing = True,
       m_seq2Callback = [(7, \<lparr>rc_callback = 42, rc_timer = False\<rparr>)], m_messageHandler = True,
       m_idleTimers = True\<rparr>,
     w_flight = [snd (message_encode example_fw example_message)],
     w_wire = [snd (message_encode example_fw example_message)], w_reading = False, w_timers = [],
     w_jobs = [], w_calls = [], w_accepted = [snd (message_encode example_fw example_message)],
     w_registered = [(7, 42)]\<rparr>"
proof -
  have "m_seq example_message = 7" by (simp add: example_message_def)
  then show ?thesis
    by (simp add: world_sent_def initial_world_def asyncSendMessage_def session_eval sending_def
        apply_result_def)
qed

lemma world_sent_reach: "sess_reach example_fw list_queue True [] world_sent"
proof (rule reach_step [OF reach_init])
  let ?s = "w_session (initial_world True ([] :: bytes list) :: bytes list world)"
  obtain r where r: "asyncSendMessage example_fw list_queue example_message 0 (Some 42) ?s = Inr r"
    by (simp add: initial_world_def asyncSendMessage_def session_eval apply_result_def)
  have "sess_step example_fw list_queue (initial_world True [])
      (apply_result r (sending example_fw example_message (Some 42) (initial_world True [])))"
    by (rule step_send [OF _ r]) (simp add: initial_world_def Let_def)
  with r show "sess_step example_fw list_queue (initial_world True []) world_sent"
    by (simp add: world_sent_def)
qed

text \<open>
  Claim C12: the write side of a session, over every interleaving of sends, completions, reads,
  timers, jobs, drops and failures of the network: at most one asynchronous write is outstanding,
  and the buffers given to the socket followed by the buffers still queued are the buffers
  accepted, in the order in which they were accepted.
\<close>

theorem session_writes_in_order:
  assumes "fifo_spec wq view" and "view q0 = []" and "sess_reach fw wq h q0 w"
  shows "length (w_flight w) \<le> 1 \<and> w_accepted w = w_wire w @ view (m_writeQueue (w_session w))"
  using write_ok_reach [OF assms] by (simp add: write_ok_def)

theorem session_writes_in_order_witness:
  "length (w_flight world_sent) \<le> 1 \<and>
   w_accepted world_sent = w_wire world_sent @ m_writeQueue (w_session world_sent)"
  by (rule session_writes_in_order [OF list_queue_fifo _ world_sent_reach]) simp

text \<open>
  Claim C21: no accepted buffer is forgotten: as long as the session is active, a buffer that
  waits in the queue has a write in flight before it, whose completion sends it.
\<close>

theorem session_never_stalls:
  assumes "fifo_spec wq view" and "view q0 = []" and "sess_reach fw wq h q0 w"
    and "actived (w_session w)" and "view (m_writeQueue (w_session w)) \<noteq> []"
  shows "\<exists>b. w_flight w = [b]"
proof -
  have "w_flight w \<noteq> []" "length (w_flight w) \<le> 1"
    using write_ok_reach [OF assms(1-3)] assms(4,5) by (simp_all add: write_ok_def)
  then show ?thesis by (cases "w_flight w") simp_all
qed

definition world_sent_twice :: "bytes list world" where
  "world_sent_twice =
     (case asyncSendMessage example_fw list_queue example_message 0 None (w_session world_sent)
      of Inl _ \<Rightarrow> world_sent
       | Inr r \<Rightarrow> apply_result r (sending example_fw example_message None world_sent))"

lemma world_sent_twice_eq:
  "world_sent_twice = world_sent\<lparr>
     w_session := (w_session world_sent)\<lparr>m_writeQueue := [snd (message_encode example_fw example_message)]\<rparr>,
     w_accepted := [snd (message_encode example_fw example_message), snd (message_encode example_fw example_message)]\<rparr>"
  by (simp add: world_sent_twice_def world_sent_eq asyncSendMessage_def session_eval sending_def
      apply_result_def)

lemma world_sent_twice_reach: "sess_reach example_fw list_queue True [] world_sent_twice"
proof (rule reach_step [OF world_sent_reach])
  obtain r where r: "asyncSendMessage example_fw list_queue example_message 0 None (w_session world_sent) = Inr r"
    by (simp add: world_sent_eq asyncSendMessage_def session_eval)
  have "sess_step example_fw list_queue world_sent
      (apply_result r (sending example_fw example_message None world_sent))"
    by (rule step_send [OF _ r]) simp
  with r show "sess_step example_fw list_queue world_sent world_sent_twice"
    by (simp add: world_sent_twice_def)
qed

theorem session_never_stalls_witness: "\<exists>b. w_flight world_sent_twice = [b]"
  by (rule session_never_stalls [OF list_queue_fifo _ world_sent_twice_reach])
    (simp_all add: world_sent_twice_eq world_sent_eq actived_def)

text \<open>
  Claim C20: a callback given with a message that was accepted is never forgotten: in every
  reachable state it is stored for its answer, or a job of the thread pool is about to call it,
  or it has been called. Once the session has been dropped none is left in the table, so every
  callback not yet called is called by a job.
\<close>

theorem session_callback_not_lost:
  assumes "sess_reach fw wq h q0 w" and "(seq, c) \<in> set (w_registered w)"
  shows "(m_actived (w_session w) \<and> map_option rc_callback (map_of (m_seq2Callback (w_session w)) seq) = Some c)
    \<or> Some c \<in> job_callback ` set (w_jobs w) \<or> Some c \<in> call_callback ` set (w_calls w)"
  using cb_ok_reach [OF assms(1)] assms(2)
  by (cases "m_actived (w_session w)") (auto simp: cb_ok_def cb_live_def list_all_iff)

theorem session_callback_not_lost_witness:
  "(m_actived (w_session world_sent) \<and>
      map_option rc_callback (map_of (m_seq2Callback (w_session world_sent)) 7) = Some 42)
    \<or> Some 42 \<in> job_callback ` set (w_jobs world_sent) \<or> Some 42 \<in> call_callback ` set (w_calls world_sent)"
  by (rule session_callback_not_lost [OF world_sent_reach]) (simp add: world_sent_eq)

text \<open>
  A run in which the answer arrives and the session is dropped before the thread pool has run the
  job for the answer: both the answer's job and the drop's job call the callback.
\<close>

lemma example_reply_wire: "wire_message example_fw example_reply"
  by (simp add: wire_message_def example_reply_def setRespPacket_def example_message_def
      hasOptions_def encode_size_def message_encode_def ext_Response_def Let_def)

definition world_reading :: "bytes list world" where
  "world_reading = world_sent\<lparr>w_reading := True\<rparr>"

definition received_reply :: p2p_message where
  "received_reply = wire_normal example_fw example_reply"

definition world_replied :: "bytes list world" where
  "world_replied = world_reading\<lparr>w_jobs := [JResponse success 42 received_reply]\<rparr>"

definition world_dropped :: "bytes list world" where
  "world_dropped = world_replied\<lparr>
     w_session := (w_session world_replied)\<lparr>m_actived := False, m_seq2Callback := [], m_socketConnected := False\<rparr>,
     w_jobs := w_jobs world_replied @ [JDropped 42 (drop_error DisconnectRequested),
                 JHandlerDropped (drop_error DisconnectRequested)]\<rparr>"

definition world_called_twice :: "bytes list world" where
  "world_called_twice = world_dropped\<lparr>
     w_jobs := [JHandlerDropped (drop_error DisconnectRequested)],
     w_calls := [CallCallback 42 success (Some received_reply),
                 CallCallback 42 (drop_error DisconnectRequested) None]\<rparr>"

lemma world_replied_reach: "sess_reach example_fw list_queue True [] world_replied"
proof (rule reach_step [OF reach_step [OF world_sent_reach]])
  have "session_doRead (w_session world_sent) = Inr ([AsyncReadSome], w_session world_sent)"
    by (simp add: session_doRead_def world_sent_eq)
  from step_doRead [OF this, of example_fw list_queue]
  show "sess_step example_fw list_queue world_sent world_reading"
    by (simp add: apply_result_def world_reading_def)
  let ?s = "w_session world_sent" and ?enc = "p2p_enc example_fw example_reply"
  have msg: "session_onMessage success received_reply ?s = [Enqueue (JResponse success 42 received_reply)]"
    by (simp add: session_onMessage_def world_sent_eq getCallbackBySeq_def received_reply_def
        wire_normal_def example_reply_def setRespPacket_def example_message_def isRespPacket_def
        ext_Response_def)
  have "read_loop (p2p_dec example_fw) (\<lambda>message es. es @ session_onMessage success message ?s) g (?enc @ []) es
      = read_loop (p2p_dec example_fw) (\<lambda>message es. es @ session_onMessage success message ?s) g []
          (es @ [Enqueue (JResponse success 42 received_reply)])" for g es
    using example_reply_wire msg by (subst p2p.loop_one) (simp_all add: received_reply_def)
  moreover obtain r where "p2p_dec example_fw [] = Inr (0, r)" using p2p.dec_none by blast
  ultimately have loop: "read_loop (p2p_dec example_fw)
      (\<lambda>message es. es @ session_onMessage success message ?s) g ?enc es
      = Inr (True, [], es @ [Enqueue (JResponse success 42 received_reply)])" for g es
    by (simp add: read_loop_more)
  have read: "session_onRead example_fw False ?enc (w_session world_reading)
      = Inr (updateIdleTimer ?s @ [Enqueue (JResponse success 42 received_reply), AsyncReadSome], ?s)"
    using loop by (simp add: session_onRead_def world_reading_def)
      (simp add: session_doRead_def world_sent_eq)
  have "sess_step example_fw list_queue world_reading (apply_result
      (updateIdleTimer ?s @ [Enqueue (JResponse success 42 received_reply), AsyncReadSome], ?s)
      (world_reading\<lparr>w_reading := False\<rparr>))"
    by (rule step_read [OF _ read]) (simp add: world_reading_def)
  then show "sess_step example_fw list_queue world_reading world_replied"
    by (simp add: apply_result_def world_reading_def world_replied_def world_sent_eq updateIdleTimer_def)
qed

lemma world_called_twice_reach: "sess_reach example_fw list_queue True [] world_called_twice"
proof (rule reach_step [OF reach_step [OF reach_step [OF world_replied_reach]]])
  have "session_disconnect DisconnectRequested (w_session world_replied)
      = Inr ([CancelIdle, CancelIdle, Enqueue (JDropped 42 (drop_error DisconnectRequested)),
          Enqueue (JHandlerDropped (drop_error DisconnectRequested)), CloseSocket, AsyncShutdown],
        w_session world_dropped)"
    by (simp add: session_disconnect_def session_drop_def world_replied_def world_reading_def
        world_sent_eq world_dropped_def drop_callbacks_def Let_def)
  from step_disconnect [OF this, of example_fw list_queue]
  show "sess_step example_fw list_queue world_replied world_dropped"
    by (simp add: apply_result_def world_dropped_def world_replied_def world_reading_def world_sent_eq)
  let ?w = "world_dropped\<lparr>w_session := w_session world_dropped,
    w_calls := [CallCallback 42 success (Some received_reply)], w_jobs := tl (w_jobs world_dropped)\<rparr>"
  have "sess_step example_fw list_queue world_dropped
      (world_dropped\<lparr>w_session := w_session world_dropped,
        w_calls := w_calls world_dropped @ [CallCallback 42 success (Some received_reply)],
        w_jobs := take 0 (w_jobs world_dropped) @ drop (Suc 0) (w_jobs world_dropped)\<rparr>)"
    by (rule step_job) (simp_all add: world_dropped_def world_replied_def removeSeqCallback_def)
  then show "sess_step example_fw list_queue world_dropped ?w"
    by (simp add: world_dropped_def world_replied_def world_reading_def world_sent_eq)
  have "sess_step example_fw list_queue ?w
      (?w\<lparr>w_session := w_session world_dropped,
        w_calls := w_calls ?w @ [CallCallback 42 (drop_error DisconnectRequested) None],
        w_jobs := take 0 (w_jobs ?w) @ drop (Suc 0) (w_jobs ?w)\<rparr>)"
    by (rule step_job) (simp_all add: world_dropped_def world_replied_def)
  then show "sess_step example_fw list_queue ?w world_called_twice"
    by (simp add: world_called_twice_def world_dropped_def world_replied_def world_reading_def world_sent_eq)
qed

text \<open>
  A callback can be called twice. When the answer of a message has arrived and the
  session is dropped before the job that delivers the answer has run, the callback is still in
  the table: it is called with the answer and a second time with the disconnection.
\<close>

theorem session_callback_called_twice:
  "\<exists>w answer. sess_reach example_fw list_queue True [] w \<and>
     w_calls w = [CallCallback 42 success (Some answer), CallCallback 42 (drop_error DisconnectRequested) None]"
  using world_called_twice_reach
  by (intro exI [of _ world_called_twice]) (simp add: world_called_twice_def)

text \<open>
  Dropping an active session whose host is there closes it for good: every stored
  callback gets exactly one job, with the disconnection error (or duplicate session error, for
  that reason), the table is left empty, and dropping again, for whatever reason, does nothing.
\<close>

theorem session_drop_answers_once:
  assumes "m_actived s" and "m_server s \<noteq> None"
  shows "\<exists>es s'. session_drop r s = Inr (es, s') \<and> \<not> actived s' \<and> m_seq2Callback s' = [] \<and>
    map job_callback (filter (\<lambda>j. job_callback j \<noteq> None) (jobs_of es))
      = map (\<lambda>(seq, rc). Some (rc_callback rc)) (m_seq2Callback s) \<and>
    list_all (\<lambda>j. fst (run_job j s') =
        (case job_callback j of None \<Rightarrow> CallHandler (drop_error r) None
         | Some c \<Rightarrow> CallCallback c (drop_error r) None)) (jobs_of es) \<and>
    session_drop r' s' = Inr ([], s')"
proof -
  let ?s' = "s\<lparr>m_actived := False, m_seq2Callback := [], m_socketConnected := False\<rparr>"
  have filter: "filter (\<lambda>j. job_callback j \<noteq> None) (map (\<lambda>(seq, rc). JDropped (rc_callback rc) e) cbs)
      = map (\<lambda>(seq, rc). JDropped (rc_callback rc) e) cbs" for e and cbs :: "(u32 \<times> response_callback) list"
    by (induction cbs) auto
  show ?thesis
    using assms filter [of "drop_error r" "m_seq2Callback s"]
    by (cases "m_socketConnected s"; cases "m_messageHandler s"; cases "m_idleTimers s")
      (auto simp: session_drop_def Let_def jobs_of_drop_callbacks actived_def list_all_iff)
qed

theorem session_drop_answers_once_witness:
  "\<exists>es s'. session_drop TCPError (w_session world_sent) = Inr (es, s') \<and> \<not> actived s' \<and>
    m_seq2Callback s' = [] \<and>
    map job_callback (filter (\<lambda>j. job_callback j \<noteq> None) (jobs_of es))
      = map (\<lambda>(seq, rc). Some (rc_callback rc)) (m_seq2Callback (w_session world_sent)) \<and>
    list_all (\<lambda>j. fst (run_job j s') =
        (case job_callback j of None \<Rightarrow> CallHandler (drop_error TCPError) None
         | Some c \<Rightarrow> CallCallback c (drop_error TCPError) None)) (jobs_of es) \<and>
    session_drop DuplicatePeer s' = Inr ([], s')"
  by (rule session_drop_answers_once) (simp_all add: world_sent_eq)

text \<open>
  A session that was never started is left alone by \<open>disconnect\<close>; its socket is closed when it is
  destroyed. One that was running has its socket closed by \<open>drop\<close>, and not again.
\<close>

lemma socket_closed_once:
  assumes "m_server s \<noteq> None" and "m_socketConnected s"
  shows "case session_disconnect r s of Inl u \<Rightarrow> False
    | Inr (es, s') \<Rightarrow> count_list (es @ destroy_session s') CloseSocket = 1"
proof -
  have "e \<noteq> CloseSocket" if "e \<in> set (drop_callbacks b x cbs)" for e b x cbs
    using that by (auto simp: drop_callbacks_def split: if_splits)
  then have "count_list (drop_callbacks b x cbs) CloseSocket = 0" for b x cbs by (auto simp: count_list_0_iff)
  with assms show ?thesis
    by (auto simp: session_disconnect_def session_drop_def destroy_session_def Let_def)
qed

end
