(* ===== verification/Service_Core.thy ===== *)
theory Service_Core
  imports Session_World
begin

text \<open>
  \<open>libp2p/Service.h/.cpp\<close> and \<open>libp2p/P2PSession.h/.cpp\<close>: the P2P layer over the sessions. The
  P2P sessions are shared objects (the table of sessions, closures and handlers refer to them and
  \<open>onDisconnect\<close> compares the pointers), so the state has a store of them by address. A session
  belongs to one P2P session and is kept inside it. Weak pointers from an object to its owner
  (a P2P session to the service, the service's closures to itself) are taken to be alive; the
  service's reference to the gateway is modelled where it is used. \<open>Service::onMessage\<close> is in
  \<open>Gateway_Node\<close>.
\<close>

section \<open>State and effects\<close>

type_synonym p2p_id = string
type_synonym endpoint = "string \<times> u16" \<comment> \<open>the address and port of a \<open>NodeIPEndpoint\<close>\<close>

record p2p_info =
  pi_p2pID :: p2p_id
  pi_agencyName :: string
  pi_nodeName :: string
  pi_endpoint :: endpoint

record 'q p2p_session =
  ps_session :: "'q session"
  ps_socket :: endpoint \<comment> \<open>\<open>m_session->nodeIPEndpoint()\<close>\<close>
  ps_info :: p2p_info
  ps_run :: bool

text \<open>
  The callbacks handed to \<open>asyncSendMessageByNodeID\<close>: one from outside, the closure of
  \<open>asyncSendMessageByP2PNodeID\<close> (with the caller's own callback, of any type \<open>'c\<close>), and the one
  of the gateway's \<open>Retry\<close>, with the members of that object.
\<close>

record gateway_retry =
  gr_p2pIDs :: "p2p_id list"
  gr_message :: p2p_message
  gr_respFunc :: "nat option"

datatype 'c p2p_callback =
    UserCallback nat
  | P2PNodeCallback p2p_id "'c option"
  | GatewayRetry gateway_retry

text \<open>The \<open>Retry\<close> object refers to the message that is sent, whatever happens to it.\<close>

fun refers_to :: "'c p2p_callback \<Rightarrow> p2p_message \<Rightarrow> 'c p2p_callback" where
  "refers_to (GatewayRetry r) message = GatewayRetry (r\<lparr>gr_message := message\<rparr>)"
| "refers_to c message = c"

record ('q, 'c) service =
  sv_run :: bool
  sv_nodeID :: p2p_id
  sv_staticNodes :: "(endpoint \<times> p2p_id) list"
  sv_store :: "(nat \<times> 'q p2p_session) list" \<comment> \<open>the P2P sessions by address\<close>
  sv_next :: nat \<comment> \<open>the next address and callback number\<close>
  sv_sessions :: "(p2p_id \<times> nat) list"
  sv_seq :: u32 \<comment> \<open>the counter of the message factory\<close>
  sv_msgHandlers :: "(u16 \<times> nat) list"
  sv_disconnectHandlers :: "nat list"
  sv_closures :: "(nat \<times> (nat \<times> 'c p2p_callback)) list" \<comment> \<open>what the sessions' callbacks stand for\<close>
  sv_timer :: bool

datatype 'c service_effect =
    SessionDo nat session_effect
  | HostStart
  | HostStop
  | HostConnect endpoint
  | ArmServiceTimer u32
  | CancelServiceTimer
  | ArmP2PSessionTimer nat u32
  | CallDisconnectHandler nat network_exception nat
  | CallMsgHandler nat network_exception nat p2p_message
  | CallUser nat network_exception "nat option" "p2p_message option"
  | CallP2P 'c "error_info option" u16 "bytes option"

type_synonym ('q, 'c) service_result = "('c service_effect list \<times> ('q, 'c) service) cpp"

definition new_service :: "p2p_id \<Rightarrow> ('q, 'c) service" where
  "new_service nodeID = \<lparr>sv_run = False, sv_nodeID = nodeID, sv_staticNodes = [], sv_store = [], sv_next = 0,
     sv_sessions = [], sv_seq = initial_seq, sv_msgHandlers = [], sv_disconnectHandlers = [], sv_closures = [],
     sv_timer = False\<rparr>"

definition sv_bind :: "('e list \<times> 's) cpp \<Rightarrow> ('s \<Rightarrow> ('e list \<times> 't) cpp) \<Rightarrow> ('e list \<times> 't) cpp" where
  "sv_bind x f = cpp_bind x (\<lambda>(es, s). cpp_bind (f s) (\<lambda>(es', s'). Inr (es @ es', s')))"

lemma sv_bind_simps [simp]:
  "sv_bind (Inl u) f = Inl u"
  "sv_bind (Inr (es, s)) f = cpp_bind (f s) (\<lambda>(es', s'). Inr (es @ es', s'))"
  by (simp_all add: sv_bind_def)

definition on_session :: "nat \<Rightarrow> ('q session \<Rightarrow> 'q session_result) \<Rightarrow> ('q, 'c) service \<Rightarrow> ('q, 'c) service_result" where
  "on_session a f sv =
     (case map_of (sv_store sv) a of
        None \<Rightarrow> Inl NullPointer
      | Some ps \<Rightarrow> cpp_bind (f (ps_session ps)) (\<lambda>(es, s).
          Inr (map (SessionDo a) es, sv\<lparr>sv_store := um_put a (ps\<lparr>ps_session := s\<rparr>) (sv_store sv)\<rparr>)))"

definition set_ps_run :: "nat \<Rightarrow> bool \<Rightarrow> ('q, 'c) service \<Rightarrow> ('q, 'c) service" where
  "set_ps_run a b sv =
     (case map_of (sv_store sv) a of None \<Rightarrow> sv
      | Some ps \<Rightarrow> sv\<lparr>sv_store := um_put a (ps\<lparr>ps_run := b\<rparr>) (sv_store sv)\<rparr>)"

definition ps_actived :: "('q, 'c) service \<Rightarrow> nat \<Rightarrow> bool" where
  "ps_actived sv a = (case map_of (sv_store sv) a of None \<Rightarrow> False | Some ps \<Rightarrow> ps_run ps)"

section \<open>P2PSession\<close>

definition heartbeat_message :: "('key, 'more) bcos_fw_scheme \<Rightarrow> u32 \<Rightarrow> p2p_message" where
  "heartbeat_message fw statusSeq = new_message\<lparr>m_packetType := mtHeartbeat fw, m_payload := be32 statusSeq\<rparr>"

definition p2p_heartBeat :: "('key, 'more) bcos_fw_scheme \<Rightarrow> 'q write_queue \<Rightarrow> u32 \<Rightarrow> nat \<Rightarrow> ('q, 'c) service \<Rightarrow>
    ('q, 'c) service_result" where
  "p2p_heartBeat fw wq statusSeq a sv =
     (if \<not> sv_run sv then Inr ([], sv)
      else case map_of (sv_store sv) a of None \<Rightarrow> Inl NullPointer
      | Some ps \<Rightarrow> sv_bind
          (if actived (ps_session ps)
           then on_session a (asyncSendMessage fw wq (heartbeat_message fw statusSeq) 0 None) sv else Inr ([], sv))
          (\<lambda>sv. Inr ([ArmP2PSessionTimer a 5000], sv)))"

definition p2p_start :: "('key, 'more) bcos_fw_scheme \<Rightarrow> 'q write_queue \<Rightarrow> u32 \<Rightarrow> nat \<Rightarrow> ('q, 'c) service \<Rightarrow>
    ('q, 'c) service_result" where
  "p2p_start fw wq statusSeq a sv =
     (if ps_actived sv a then Inr ([], sv)
      else sv_bind (on_session a (\<lambda>s. Inr (session_start s)) (set_ps_run a True sv)) (p2p_heartBeat fw wq statusSeq a))"

definition p2p_stop :: "disconnect_reason \<Rightarrow> nat \<Rightarrow> ('q, 'c) service \<Rightarrow> ('q, 'c) service_result" where
  "p2p_stop r a sv =
     (if ps_actived sv a
      then on_session a (\<lambda>s. if actived s then session_disconnect r s else Inr ([], s)) (set_ps_run a False sv)
      else Inr ([], sv))"

section \<open>Service: static nodes, start, stop and the reconnecting timer\<close>

definition setStaticNodes :: "endpoint list \<Rightarrow> ('q, 'c) service \<Rightarrow> ('q, 'c) service" where
  "setStaticNodes eps sv = sv\<lparr>sv_staticNodes := fold (\<lambda>ep. um_emplace ep []) eps (sv_staticNodes sv)\<rparr>"

definition updateStaticNodes :: "endpoint \<Rightarrow> p2p_id \<Rightarrow> ('q, 'c) service \<Rightarrow> ('q, 'c) service" where
  "updateStaticNodes ep nodeID sv =
     (if um_has ep (sv_staticNodes sv) then sv\<lparr>sv_staticNodes := um_put ep nodeID (sv_staticNodes sv)\<rparr> else sv)"

definition isConnected :: "p2p_id \<Rightarrow> ('q, 'c) service \<Rightarrow> bool" where
  "isConnected nodeID sv =
     (case map_of (sv_sessions sv) nodeID of None \<Rightarrow> False | Some a \<Rightarrow> ps_actived sv a)"

definition connected :: "p2p_id \<Rightarrow> ('q, 'c) service \<Rightarrow> bool" where
  "connected nodeID sv =
     (case map_of (sv_sessions sv) nodeID of None \<Rightarrow> False | Some a \<Rightarrow> ps_actived sv a)"

definition getP2PSessionByNodeId :: "p2p_id \<Rightarrow> ('q, 'c) service \<Rightarrow> nat option" where
  "getP2PSessionByNodeId nodeID sv = map_of (sv_sessions sv) nodeID"

definition service_heartBeat :: "('q, 'c) service \<Rightarrow> 'c service_effect list \<times> ('q, 'c) service" where
  "service_heartBeat sv =
     (if \<not> sv_run sv then ([], sv)
      else (map (\<lambda>(ep, nodeID). HostConnect ep)
              (filter (\<lambda>(ep, nodeID). nodeID \<noteq> sv_nodeID sv \<and> \<not> (nodeID \<noteq> [] \<and> isConnected nodeID sv))
                (sv_staticNodes sv))
            @ [ArmServiceTimer 10000], sv\<lparr>sv_timer := True\<rparr>))"

text \<open>The handler of the timer: \<open>service->host()->haveNetwork()\<close> is asked when it fires.\<close>

definition service_onTimer :: "bool \<Rightarrow> bool \<Rightarrow> ('q, 'c) service \<Rightarrow> 'c service_effect list \<times> ('q, 'c) service" where
  "service_onTimer error haveNetwork sv =
     (if error then ([], sv) else if haveNetwork then service_heartBeat sv else ([], sv))"

definition service_start :: "('q, 'c) service \<Rightarrow> 'c service_effect list \<times> ('q, 'c) service" where
  "service_start sv =
     (if sv_run sv then ([], sv)
      else apfst ((#) HostStart) (service_heartBeat (sv\<lparr>sv_run := True\<rparr>)))"

fun stop_sessions :: "nat list \<Rightarrow> ('q, 'c) service \<Rightarrow> ('q, 'c) service_result" where
  "stop_sessions [] sv = Inr ([], sv)"
| "stop_sessions (a # as) sv = sv_bind (p2p_stop ClientQuit a sv) (stop_sessions as)"

definition service_stop :: "('q, 'c) service \<Rightarrow> ('q, 'c) service_result" where
  "service_stop sv =
     (if \<not> sv_run sv then Inr ([], sv)
      else sv_bind (Inr ((if sv_timer sv then [CancelServiceTimer] else []) @ [HostStop], sv\<lparr>sv_run := False\<rparr>))
        (\<lambda>sv. sv_bind (stop_sessions (map snd (sv_sessions sv)) sv) (\<lambda>sv. Inr ([], sv\<lparr>sv_sessions := []\<rparr>))))"

section \<open>Connections\<close>

text \<open>
  \<open>onConnect\<close>: \<open>session\<close> is the session the host has created with the endpoint of its socket,
  \<open>None\<close> when the connection failed. A session that is refused is dropped here; it has not been
  started, so \<open>disconnect\<close> finds it inactive, and its socket is closed when it is destroyed.
\<close>

definition refuse_session :: "'q session \<Rightarrow> endpoint \<Rightarrow> p2p_id \<Rightarrow> ('q, 'c) service \<Rightarrow> ('q, 'c) service_result" where
  "refuse_session s ep nodeID sv =
     cpp_bind (session_disconnect DuplicatePeer s) (\<lambda>(es, s').
       Inr (map (SessionDo (sv_next sv)) es, (updateStaticNodes ep nodeID sv)\<lparr>sv_next := sv_next sv + 1\<rparr>))"

definition new_p2p_session :: "'q session \<Rightarrow> endpoint \<Rightarrow> p2p_info \<Rightarrow> 'q p2p_session" where
  "new_p2p_session s ep info = \<lparr>ps_session = s\<lparr>m_messageHandler := True\<rparr>, ps_socket = ep,
     ps_info = info\<lparr>pi_endpoint := ep\<rparr>, ps_run = False\<rparr>"

definition onConnect :: "('key, 'more) bcos_fw_scheme \<Rightarrow> 'q write_queue \<Rightarrow> u32 \<Rightarrow> network_exception \<Rightarrow> p2p_info \<Rightarrow>
    ('q session \<times> endpoint) option \<Rightarrow> ('q, 'c) service \<Rightarrow> ('q, 'c) service_result" where
  "onConnect fw wq statusSeq e info session sv =
     (if ne_code e \<noteq> 0 then Inr ([], sv)
      else case session of None \<Rightarrow> Inl NullPointer
      | Some (s, ep) \<Rightarrow>
        if isConnected (pi_p2pID info) sv then refuse_session s ep (pi_p2pID info) sv
        else if pi_p2pID info = sv_nodeID sv then refuse_session s ep (sv_nodeID sv) sv
        else let a = sv_next sv;
                 sv1 = sv\<lparr>sv_store := um_put a (new_p2p_session s ep info) (sv_store sv), sv_next := a + 1\<rparr>
             in sv_bind (p2p_start fw wq statusSeq a sv1) (\<lambda>sv2.
                  let sv3 = updateStaticNodes ep (pi_p2pID info) sv2
                  in Inr ([], sv3\<lparr>sv_sessions := um_put (pi_p2pID info) a (sv_sessions sv3)\<rparr>)))"

fun clear_static :: "p2p_id \<Rightarrow> (endpoint \<times> p2p_id) list \<Rightarrow> (endpoint \<times> p2p_id) list" where
  "clear_static nodeID [] = []"
| "clear_static nodeID ((ep, n) # m) = (if n = nodeID then (ep, []) # m else (ep, n) # clear_static nodeID m)"

definition onDisconnect :: "network_exception \<Rightarrow> nat \<Rightarrow> ('q, 'c) service \<Rightarrow> ('q, 'c) service_result" where
  "onDisconnect e a sv =
     (case map_of (sv_store sv) a of None \<Rightarrow> Inl NullPointer
      | Some ps \<Rightarrow>
        let nodeID = pi_p2pID (ps_info ps);
            calls = map (\<lambda>h. CallDisconnectHandler h e a) (sv_disconnectHandlers sv)
        in if map_of (sv_sessions sv) nodeID = Some a
           then let sv1 = sv\<lparr>sv_sessions := um_erase nodeID (sv_sessions sv)\<rparr>
                in if ne_code e = exception_code DuplicateSession then Inr (calls, sv1)
                   else Inr (calls, sv1\<lparr>sv_staticNodes := clear_static nodeID (sv_staticNodes sv1)\<rparr>)
           else Inr (calls, sv))"

definition registerDisconnectHandler :: "nat \<Rightarrow> ('q, 'c) service \<Rightarrow> ('q, 'c) service" where
  "registerDisconnectHandler h sv = sv\<lparr>sv_disconnectHandlers := sv_disconnectHandlers sv @ [h]\<rparr>"

definition registerHandlerByMsgType :: "u16 \<Rightarrow> nat option \<Rightarrow> ('q, 'c) service \<Rightarrow> ('q, 'c) service" where
  "registerHandlerByMsgType type handler sv =
     (case handler of None \<Rightarrow> sv
      | Some h \<Rightarrow> if um_has type (sv_msgHandlers sv) then sv
                  else sv\<lparr>sv_msgHandlers := um_put type h (sv_msgHandlers sv)\<rparr>)"

definition getMessageHandlerByMsgType :: "u16 \<Rightarrow> ('q, 'c) service \<Rightarrow> nat option" where
  "getMessageHandlerByMsgType type sv = map_of (sv_msgHandlers sv) type"

definition sessionInfos :: "('q, 'c) service \<Rightarrow> p2p_info list cpp" where
  "sessionInfos sv = foldr (\<lambda>(nodeID, a) r. case map_of (sv_store sv) a of None \<Rightarrow> Inl NullPointer
     | Some ps \<Rightarrow> cpp_bind r (\<lambda>infos. Inr (ps_info ps # infos))) (sv_sessions sv) (Inr [])"

section \<open>Sending\<close>

definition factory_newSeq :: "('q, 'c) service \<Rightarrow> u32 \<times> ('q, 'c) service" where
  "factory_newSeq sv = (case newSeq (sv_seq sv) of (seq, next) \<Rightarrow> (seq, sv\<lparr>sv_seq := next\<rparr>))"

definition sendMessageBySession :: "('key, 'more) bcos_fw_scheme \<Rightarrow> 'q write_queue \<Rightarrow> u16 \<Rightarrow> bytes \<Rightarrow> nat \<Rightarrow>
    ('q, 'c) service \<Rightarrow> ('q, 'c) service_result" where
  "sendMessageBySession fw wq packetType payload a sv =
     (case factory_newSeq sv of (seq, sv1) \<Rightarrow>
        on_session a (asyncSendMessage fw wq
          (new_message\<lparr>m_seq := seq, m_packetType := packetType, m_payload := payload\<rparr>) 0 None) sv1)"

definition resp_message :: "bytes \<Rightarrow> p2p_message \<Rightarrow> p2p_message" where
  "resp_message payload message = (setRespPacket (new_message\<lparr>m_seq := m_seq message\<rparr>))\<lparr>m_payload := payload\<rparr>"

definition sendRespMessageBySession :: "('key, 'more) bcos_fw_scheme \<Rightarrow> 'q write_queue \<Rightarrow> bytes \<Rightarrow> p2p_message \<Rightarrow> nat \<Rightarrow>
    ('q, 'c) service \<Rightarrow> ('q, 'c) service_result" where
  "sendRespMessageBySession fw wq payload message a sv =
     on_session a (asyncSendMessage fw wq (resp_message payload message) 0 None) sv"

definition newP2PMessage :: "u16 \<Rightarrow> bytes \<Rightarrow> ('q, 'c) service \<Rightarrow> p2p_message \<times> ('q, 'c) service" where
  "newP2PMessage type payload sv =
     (case factory_newSeq sv of (seq, sv1) \<Rightarrow>
        (new_message\<lparr>m_packetType := type, m_seq := seq, m_payload := payload\<rparr>, sv1))"

text \<open>
  \<open>asyncSendMessageByNodeID\<close>. The message is shared with the caller, which sees the sequence
  number it is given: it is returned. Nothing in the body throws.
\<close>

definition asyncSendMessageByNodeID :: "('key, 'more) bcos_fw_scheme \<Rightarrow> 'q write_queue \<Rightarrow> p2p_id \<Rightarrow> p2p_message \<Rightarrow>
    'c p2p_callback option \<Rightarrow> u32 \<Rightarrow> ('q, 'c) service \<Rightarrow> ('c service_effect list \<times> p2p_message \<times> ('q, 'c) service) cpp" where
  "asyncSendMessageByNodeID fw wq nodeID message callback timeout sv =
     (if nodeID = sv_nodeID sv then Inr ([], message, sv)
      else case map_of (sv_sessions sv) nodeID of
        None \<Rightarrow> Inr ([], message, sv)
      | Some a \<Rightarrow>
        if \<not> ps_actived sv a then Inr ([], message, sv)
        else let (message, sv) = (if m_seq message = 0
                   then (case factory_newSeq sv of (seq, sv1) \<Rightarrow> (message\<lparr>m_seq := seq\<rparr>, sv1)) else (message, sv));
                 (cb, sv) = (case callback of None \<Rightarrow> (None, sv)
                   | Some c \<Rightarrow> (Some (sv_next sv), sv\<lparr>sv_next := sv_next sv + 1,
                       sv_closures := um_put (sv_next sv) (a, refers_to c message) (sv_closures sv)\<rparr>))
             in cpp_bind (on_session a (asyncSendMessage fw wq message timeout cb) sv)
                  (\<lambda>(es, sv). Inr (es, message, sv)))"

fun broadcast_to :: "('key, 'more) bcos_fw_scheme \<Rightarrow> 'q write_queue \<Rightarrow> p2p_id list \<Rightarrow> p2p_message \<Rightarrow> u32 \<Rightarrow>
    ('q, 'c) service \<Rightarrow> ('q, 'c) service_result" where
  "broadcast_to fw wq [] message timeout sv = Inr ([], sv)"
| "broadcast_to fw wq (n # ns) message timeout sv =
     cpp_bind (asyncSendMessageByNodeID fw wq n message None timeout sv) (\<lambda>(es, message, sv).
       cpp_bind (broadcast_to fw wq ns message timeout sv) (\<lambda>(es', sv'). Inr (es @ es', sv')))"

definition asyncBroadcastMessage :: "('key, 'more) bcos_fw_scheme \<Rightarrow> 'q write_queue \<Rightarrow> p2p_message \<Rightarrow> u32 \<Rightarrow>
    ('q, 'c) service \<Rightarrow> ('q, 'c) service_result" where
  "asyncBroadcastMessage fw wq message timeout sv = broadcast_to fw wq (map fst (sv_sessions sv)) message timeout sv"

definition not_connected_error :: "p2p_id \<Rightarrow> error_info" where
  "not_connected_error nodeID = \<lparr>err_code = -1,
     err_msg = ''send message to '' @ nodeID @ '' failed for no connection established''\<rparr>"

definition asyncSendMessageByP2PNodeID :: "('key, 'more) bcos_fw_scheme \<Rightarrow> 'q write_queue \<Rightarrow> u16 \<Rightarrow> p2p_id \<Rightarrow> bytes \<Rightarrow>
    u32 \<Rightarrow> 'c option \<Rightarrow> ('q, 'c) service \<Rightarrow> ('q, 'c) service_result" where
  "asyncSendMessageByP2PNodeID fw wq type dst payload timeout callback sv =
     (if \<not> connected dst sv
      then (case callback of None \<Rightarrow> Inr ([], sv)
            | Some c \<Rightarrow> Inr ([CallP2P c (Some (not_connected_error dst)) 0 None], sv))
      else case newP2PMessage type payload sv of (message, sv1) \<Rightarrow>
        cpp_bind (asyncSendMessageByNodeID fw wq dst message (Some (P2PNodeCallback dst callback)) timeout sv1)
          (\<lambda>(es, message, sv). Inr (es, sv)))"

definition asyncBroadcastMessageToP2PNodes :: "('key, 'more) bcos_fw_scheme \<Rightarrow> 'q write_queue \<Rightarrow> u16 \<Rightarrow> bytes \<Rightarrow> u32 \<Rightarrow>
    ('q, 'c) service \<Rightarrow> ('q, 'c) service_result" where
  "asyncBroadcastMessageToP2PNodes fw wq type payload timeout sv =
     (case newP2PMessage type payload sv of (message, sv1) \<Rightarrow> asyncBroadcastMessage fw wq message timeout sv1)"

fun asyncSendMessageByP2PNodeIDs :: "('key, 'more) bcos_fw_scheme \<Rightarrow> 'q write_queue \<Rightarrow> u16 \<Rightarrow> p2p_id list \<Rightarrow> bytes \<Rightarrow>
    u32 \<Rightarrow> ('q, 'c) service \<Rightarrow> ('q, 'c) service_result" where
  "asyncSendMessageByP2PNodeIDs fw wq type [] payload timeout sv = Inr ([], sv)"
| "asyncSendMessageByP2PNodeIDs fw wq type (n # ns) payload timeout sv =
     sv_bind (asyncSendMessageByP2PNodeID fw wq type n payload timeout None sv)
       (asyncSendMessageByP2PNodeIDs fw wq type ns payload timeout)"

text \<open>The closure of \<open>asyncSendMessageByP2PNodeID\<close>, when the session calls it.\<close>

definition onP2PNodeReply :: "'c option \<Rightarrow> network_exception \<Rightarrow> p2p_message option \<Rightarrow> 'c service_effect list cpp" where
  "onP2PNodeReply callback e message =
     (let packetType = (case message of None \<Rightarrow> 0 | Some m \<Rightarrow> m_packetType m)
      in if ne_code e \<noteq> 0
         then (case callback of None \<Rightarrow> Inr []
               | Some c \<Rightarrow> Inr [CallP2P c (Some (toError e)) packetType (map_option m_payload message)])
         else (case callback of None \<Rightarrow> Inr []
               | Some c \<Rightarrow> (case message of None \<Rightarrow> Inl NullPointer
                            | Some m \<Rightarrow> Inr [CallP2P c None packetType (Some (m_payload m))])))"

text \<open>
  \<open>sendMessageByNodeID\<close> sends with a callback that stores its arguments and unlocks a mutex, and
  waits for the mutex: \<open>reply\<close> is what the callback is called with, \<open>None\<close> when it never is, and
  then the call does not return. The result is the response, or the exception it throws.
\<close>

definition sendMessageByNodeID_result ::
  "(network_exception \<times> p2p_message option) option \<Rightarrow> (network_exception + p2p_message option) option" where
  "sendMessageByNodeID_result reply =
     (case reply of None \<Rightarrow> None
      | Some (e, response) \<Rightarrow> if ne_code e \<noteq> 0 then Some (Inl e) else Some (Inr response))"

end
