(* ===== verification/Service_Inv.thy ===== *)
theory Service_Inv
  imports Service_Core
begin

text \<open>
  The table of sessions of the service: its invariant, the frame of the operations that only
  send, and the effect of connecting and losing a session.
\<close>

section \<open>Invariant\<close>

definition ps_view :: "('q, 'c) service \<Rightarrow> nat \<Rightarrow> (p2p_info \<times> bool) option" where
  "ps_view sv a = map_option (\<lambda>ps. (ps_info ps, ps_run ps)) (map_of (sv_store sv) a)"

text \<open>
  A registered session belongs to the peer it is registered for, which is not this gateway; a
  running session is the registered one of its peer; addresses are below the next one.
\<close>

definition svc_inv :: "('q, 'c) service \<Rightarrow> bool" where
  "svc_inv sv \<longleftrightarrow> um_ok (sv_sessions sv) \<and>
     (\<forall>n a. map_of (sv_sessions sv) n = Some a \<longrightarrow>
        n \<noteq> sv_nodeID sv \<and> (\<exists>i r. ps_view sv a = Some (i, r) \<and> pi_p2pID i = n)) \<and>
     (\<forall>a i. ps_view sv a = Some (i, True) \<longrightarrow> map_of (sv_sessions sv) (pi_p2pID i) = Some a) \<and>
     (\<forall>a. ps_view sv a \<noteq> None \<longrightarrow> a < sv_next sv)"

lemma svc_invD:
  assumes "svc_inv sv"
  shows "um_ok (sv_sessions sv)"
    and "map_of (sv_sessions sv) n = Some a \<Longrightarrow> n \<noteq> sv_nodeID sv"
    and "map_of (sv_sessions sv) n = Some a \<Longrightarrow> \<exists>i r. ps_view sv a = Some (i, r) \<and> pi_p2pID i = n"
    and "ps_view sv a = Some (i, True) \<Longrightarrow> map_of (sv_sessions sv) (pi_p2pID i) = Some a"
    and "ps_view sv a = Some v \<Longrightarrow> a < sv_next sv"
  using assms unfolding svc_inv_def by blast+

definition keeps :: "('q, 'c) service \<Rightarrow> ('q, 'c) service \<Rightarrow> bool" where
  "keeps sv sv' \<longleftrightarrow> sv_sessions sv' = sv_sessions sv \<and> sv_nodeID sv' = sv_nodeID sv \<and> sv_run sv' = sv_run sv \<and>
     sv_disconnectHandlers sv' = sv_disconnectHandlers sv \<and> sv_staticNodes sv' = sv_staticNodes sv \<and>
     ps_view sv' = ps_view sv \<and> sv_next sv \<le> sv_next sv'"

lemma keeps_refl [simp]: "keeps sv sv"
  by (simp add: keeps_def)

lemma keeps_trans: "keeps s1 s2 \<Longrightarrow> keeps s2 s3 \<Longrightarrow> keeps s1 s3"
  by (auto simp: keeps_def)

lemma svc_inv_keeps:
  assumes "svc_inv sv" and "keeps sv sv'"
  shows "svc_inv sv'"
proof -
  have "a < sv_next sv'" if "ps_view sv a \<noteq> None" for a
    using assms that unfolding svc_inv_def keeps_def by (blast intro: order.strict_trans2)
  with assms show ?thesis by (simp add: svc_inv_def keeps_def)
qed

lemma ps_actived_view: "ps_actived sv a \<longleftrightarrow> (\<exists>i. ps_view sv a = Some (i, True))"
  by (auto simp: ps_actived_def ps_view_def split: option.split)

lemma isConnected_view:
  "isConnected n sv \<longleftrightarrow> (\<exists>a i. map_of (sv_sessions sv) n = Some a \<and> ps_view sv a = Some (i, True))"
  by (auto simp: isConnected_def ps_actived_view split: option.split)

lemma connected_eq [simp]: "connected n sv = isConnected n sv"
  by (simp add: connected_def isConnected_def)

lemma keeps_simps [simp]:
  "keeps sv (sv\<lparr>sv_seq := x\<rparr>)"
  "sv_next sv \<le> k \<Longrightarrow> keeps sv (sv\<lparr>sv_next := k, sv_closures := y\<rparr>)"
  "keeps sv (sv\<lparr>sv_timer := b\<rparr>)"
  by (simp_all add: keeps_def ps_view_def fun_eq_iff)

lemma on_session_keeps: "on_session a f sv = Inr (es, sv') \<Longrightarrow> keeps sv sv'"
  by (auto simp: on_session_def keeps_def ps_view_def um_simps fun_eq_iff cpp_bind_eq_Inr split: option.splits)

lemma set_ps_run_view:
  "ps_view (set_ps_run a b sv) a' = (if a' = a then map_option (\<lambda>(i, r). (i, b)) (ps_view sv a) else ps_view sv a')"
  by (auto simp: set_ps_run_def ps_view_def um_simps split: option.split)

lemma set_ps_run_fields [simp]:
  "sv_sessions (set_ps_run a b sv) = sv_sessions sv" "sv_nodeID (set_ps_run a b sv) = sv_nodeID sv"
  "sv_next (set_ps_run a b sv) = sv_next sv" "sv_run (set_ps_run a b sv) = sv_run sv"
  "sv_disconnectHandlers (set_ps_run a b sv) = sv_disconnectHandlers sv"
  "sv_staticNodes (set_ps_run a b sv) = sv_staticNodes sv"
  by (simp_all add: set_ps_run_def split: option.split)

lemma sv_bind_Inr:
  "sv_bind x f = Inr r \<longleftrightarrow> (\<exists>es s es' s'. x = Inr (es, s) \<and> f s = Inr (es', s') \<and> r = (es @ es', s'))"
  by (auto simp: sv_bind_def cpp_bind_eq_Inr)

lemma factory_newSeq_keeps [simp]: "keeps sv (snd (factory_newSeq sv))"
  by (simp add: factory_newSeq_def newSeq_def Let_def)

lemma p2p_heartBeat_keeps: "p2p_heartBeat fw wq k a sv = Inr (es, sv') \<Longrightarrow> keeps sv sv'"
  by (auto simp: p2p_heartBeat_def sv_bind_Inr split: if_splits option.splits dest: on_session_keeps)

lemma p2p_start_view:
  assumes "p2p_start fw wq k a sv = Inr (es, sv')"
  shows "keeps (set_ps_run a True sv) sv'"
proof (cases "ps_actived sv a")
  case True
  then have "ps_view (set_ps_run a True sv) = ps_view sv"
    by (auto simp: fun_eq_iff set_ps_run_view ps_actived_view)
  with True assms show ?thesis by (simp add: p2p_start_def keeps_def)
next
  case False
  with assms show ?thesis
    by (auto simp: p2p_start_def sv_bind_Inr intro: keeps_trans dest: on_session_keeps p2p_heartBeat_keeps)
qed

lemma p2p_stop_view:
  assumes "p2p_stop r a sv = Inr (es, sv')"
  shows "keeps (set_ps_run a False sv) sv'"
proof (cases "ps_actived sv a")
  case True
  with assms show ?thesis by (auto simp: p2p_stop_def dest: on_session_keeps)
next
  case False
  then have "ps_view (set_ps_run a False sv) = ps_view sv"
    by (cases "ps_view sv a") (auto simp: fun_eq_iff set_ps_run_view ps_actived_view)
  with False assms show ?thesis by (simp add: p2p_stop_def keeps_def)
qed

section \<open>Sending keeps the table\<close>

lemma send_keeps: "asyncSendMessageByNodeID fw wq n m cb t sv = Inr (es, m', sv') \<Longrightarrow> keeps sv sv'"
proof -
  assume send: "asyncSendMessageByNodeID fw wq n m cb t sv = Inr (es, m', sv')"
  show ?thesis
  proof (cases "n = sv_nodeID sv \<or> \<not> isConnected n sv")
    case True
    then show ?thesis using send
      by (auto simp: asyncSendMessageByNodeID_def isConnected_def split: option.splits if_splits)
  next
    case False
    then obtain a where a: "map_of (sv_sessions sv) n = Some a" "ps_actived sv a"
      by (auto simp: isConnected_def split: option.splits)
    let ?sv1 = "if m_seq m = 0 then snd (factory_newSeq sv) else sv"
    let ?m = "if m_seq m = 0 then m\<lparr>m_seq := fst (factory_newSeq sv)\<rparr> else m"
    let ?sv2 = "case cb of None \<Rightarrow> ?sv1 | Some c \<Rightarrow> ?sv1\<lparr>sv_next := sv_next ?sv1 + 1,
        sv_closures := um_put (sv_next ?sv1) (a, refers_to c ?m) (sv_closures ?sv1)\<rparr>"
    have "\<exists>c. on_session a (asyncSendMessage fw wq ?m t c) ?sv2 = Inr (es, sv')"
      using send False a
      by (auto simp: asyncSendMessageByNodeID_def cpp_bind_eq_Inr case_prod_unfold split: option.splits if_splits)
    then have last: "keeps ?sv2 sv'" using on_session_keeps by blast
    have "keeps ?sv1 ?sv2" by (cases cb) simp_all
    moreover have "keeps sv ?sv1" by simp
    ultimately show ?thesis using last keeps_trans by blast
  qed
qed

lemma broadcast_keeps: "broadcast_to fw wq ns m t sv = Inr (es, sv') \<Longrightarrow> keeps sv sv'"
proof (induction ns arbitrary: m sv es)
  case (Cons n ns)
  then show ?case by (auto simp: cpp_bind_eq_Inr intro: keeps_trans dest: send_keeps)
qed simp

lemma newP2PMessage_keeps [simp]: "keeps sv (snd (newP2PMessage type payload sv))"
  by (simp add: newP2PMessage_def factory_newSeq_def newSeq_def Let_def)

lemma send_p2p_keeps: "asyncSendMessageByP2PNodeID fw wq type n payload t cb sv = Inr (es, sv') \<Longrightarrow> keeps sv sv'"
  using newP2PMessage_keeps [of sv type payload]
  by (cases "newP2PMessage type payload sv")
    (auto simp: asyncSendMessageByP2PNodeID_def cpp_bind_eq_Inr split: if_splits option.splits
      intro: keeps_trans dest: send_keeps)

lemma send_p2p_list_keeps: "asyncSendMessageByP2PNodeIDs fw wq type ns payload t sv = Inr (es, sv') \<Longrightarrow> keeps sv sv'"
proof (induction ns arbitrary: sv es)
  case (Cons n ns)
  then show ?case by (auto simp: sv_bind_Inr intro: keeps_trans dest: send_p2p_keeps)
qed simp

lemma broadcast_p2p_keeps: "asyncBroadcastMessageToP2PNodes fw wq type payload t sv = Inr (es, sv') \<Longrightarrow> keeps sv sv'"
  using newP2PMessage_keeps [of sv type payload]
  by (cases "newP2PMessage type payload sv")
    (auto simp: asyncBroadcastMessageToP2PNodes_def asyncBroadcastMessage_def
      intro: keeps_trans dest: broadcast_keeps)

lemma send_by_session_keeps: "sendMessageBySession fw wq type payload a sv = Inr (es, sv') \<Longrightarrow> keeps sv sv'"
  using factory_newSeq_keeps [of sv]
  by (cases "factory_newSeq sv") (auto simp: sendMessageBySession_def intro: keeps_trans dest: on_session_keeps)

lemma send_resp_keeps: "sendRespMessageBySession fw wq payload m a sv = Inr (es, sv') \<Longrightarrow> keeps sv sv'"
  by (auto simp: sendRespMessageBySession_def dest: on_session_keeps)

section \<open>Connecting and losing a session\<close>

lemma updateStaticNodes_fields [simp]:
  "sv_sessions (updateStaticNodes ep n sv) = sv_sessions sv" "sv_nodeID (updateStaticNodes ep n sv) = sv_nodeID sv"
  "sv_next (updateStaticNodes ep n sv) = sv_next sv" "sv_store (updateStaticNodes ep n sv) = sv_store sv"
  "sv_run (updateStaticNodes ep n sv) = sv_run sv" "ps_view (updateStaticNodes ep n sv) = ps_view sv"
  "sv_disconnectHandlers (updateStaticNodes ep n sv) = sv_disconnectHandlers sv"
  by (simp_all add: updateStaticNodes_def ps_view_def fun_eq_iff)

lemma ps_view_fields [simp]:
  "ps_view (sv\<lparr>sv_sessions := x\<rparr>) = ps_view sv" "ps_view (sv\<lparr>sv_staticNodes := y\<rparr>) = ps_view sv"
  "ps_view (sv\<lparr>sv_next := k\<rparr>) = ps_view sv" "ps_view (sv\<lparr>sv_run := b\<rparr>) = ps_view sv"
  "ps_view (sv\<lparr>sv_timer := b\<rparr>) = ps_view sv"
  by (simp_all add: ps_view_def fun_eq_iff)

text \<open>The three outcomes of \<open>onConnect\<close> with a session.\<close>

definition adopt :: "nat \<Rightarrow> p2p_info \<Rightarrow> endpoint \<Rightarrow> ('q, 'c) service \<Rightarrow> ('q, 'c) service \<Rightarrow> bool" where
  "adopt a info ep sv sv' \<longleftrightarrow>
     sv_sessions sv' = um_put (pi_p2pID info) a (sv_sessions sv) \<and> sv_nodeID sv' = sv_nodeID sv \<and>
     sv_run sv' = sv_run sv \<and> a < sv_next sv' \<and> sv_next sv \<le> sv_next sv' \<and>
     ps_view sv' = (ps_view sv)(a := Some (info\<lparr>pi_endpoint := ep\<rparr>, True))"

lemma onConnect_refused:
  assumes "isConnected (pi_p2pID info) sv \<or> pi_p2pID info = sv_nodeID sv" and "ne_code e = 0"
    and "onConnect fw wq k e info (Some (s, ep)) sv = Inr (es, sv')"
  shows "sv_sessions sv' = sv_sessions sv \<and> ps_view sv' = ps_view sv \<and> sv_nodeID sv' = sv_nodeID sv \<and>
    sv_next sv \<le> sv_next sv'"
  using assms by (auto simp: onConnect_def refuse_session_def cpp_bind_eq_Inr split: if_splits)

lemma onConnect_adopted:
  assumes new: "\<not> isConnected (pi_p2pID info) sv" "pi_p2pID info \<noteq> sv_nodeID sv" and "ne_code e = 0"
    and run: "onConnect fw wq k e info (Some (s, ep)) sv = Inr (es, sv')"
  shows "adopt (sv_next sv) info ep sv sv'"
proof -
  let ?a = "sv_next sv"
  let ?sv1 = "sv\<lparr>sv_store := um_put ?a (new_p2p_session s ep info) (sv_store sv), sv_next := ?a + 1\<rparr>"
  obtain sv2 es2 where sv2: "p2p_start fw wq k ?a ?sv1 = Inr (es2, sv2)"
      "sv' = (updateStaticNodes ep (pi_p2pID info) sv2)\<lparr>sv_sessions := um_put (pi_p2pID info) ?a (sv_sessions sv2)\<rparr>"
    using assms by (auto simp: onConnect_def sv_bind_Inr Let_def)
  have keeps: "keeps (set_ps_run ?a True ?sv1) sv2" by (rule p2p_start_view [OF sv2(1)])
  have "ps_view ?sv1 = (ps_view sv)(?a := Some (info\<lparr>pi_endpoint := ep\<rparr>, False))"
    by (simp add: ps_view_def fun_eq_iff um_simps new_p2p_session_def)
  then have "ps_view (set_ps_run ?a True ?sv1) = (ps_view sv)(?a := Some (info\<lparr>pi_endpoint := ep\<rparr>, True))"
    by (simp add: fun_eq_iff set_ps_run_view)
  with keeps sv2(2) show ?thesis by (simp add: keeps_def adopt_def)
qed

lemma svc_inv_adopt:
  assumes inv: "svc_inv sv" and adopt: "adopt (sv_next sv) info ep sv sv'"
    and new: "\<not> isConnected (pi_p2pID info) sv" "pi_p2pID info \<noteq> sv_nodeID sv"
  shows "svc_inv sv'"
proof -
  let ?a = "sv_next sv" and ?n = "pi_p2pID info"
  have fresh: "ps_view sv ?a = None" using svc_invD(5) [OF inv, of ?a] by (cases "ps_view sv ?a") auto
  have fields: "sv_sessions sv' = um_put ?n ?a (sv_sessions sv)" "sv_nodeID sv' = sv_nodeID sv"
      "ps_view sv' = (ps_view sv)(?a := Some (info\<lparr>pi_endpoint := ep\<rparr>, True))" "sv_next sv \<le> sv_next sv'" "?a < sv_next sv'"
    using adopt by (simp_all add: adopt_def)
  show ?thesis unfolding svc_inv_def
  proof (intro conjI allI impI)
    show "um_ok (sv_sessions sv')" using svc_invD(1) [OF inv] by (simp add: fields)
  next
    fix n a assume at: "map_of (sv_sessions sv') n = Some a"
    show "n \<noteq> sv_nodeID sv'" using at new(2) svc_invD(2) [OF inv, of n a] by (auto simp: fields um_simps split: if_splits)
    show "\<exists>i r. ps_view sv' a = Some (i, r) \<and> pi_p2pID i = n"
      using at svc_invD(3) [OF inv, of n a] fresh by (auto simp: fields um_simps split: if_splits)
  next
    fix a i assume run: "ps_view sv' a = Some (i, True)"
    show "map_of (sv_sessions sv') (pi_p2pID i) = Some a"
    proof (cases "a = ?a")
      case True
      with run show ?thesis by (auto simp: fields um_simps)
    next
      case False
      with run have view: "ps_view sv a = Some (i, True)" by (simp add: fields)
      then have reg: "map_of (sv_sessions sv) (pi_p2pID i) = Some a" by (rule svc_invD(4) [OF inv])
      with view new(1) have "pi_p2pID i \<noteq> ?n" by (auto simp: isConnected_view)
      with reg show ?thesis by (simp add: fields um_simps)
    qed
  next
    fix a assume "ps_view sv' a \<noteq> None"
    then have "a = ?a \<or> a < ?a" using svc_invD(5) [OF inv, of a] by (auto simp: fields split: if_splits)
    then show "a < sv_next sv'" using fields(4,5) by auto
  qed
qed

lemma svc_inv_connect:
  assumes inv: "svc_inv sv" and run: "onConnect fw wq k e info session sv = Inr (es, sv')"
  shows "svc_inv sv'"
proof (cases "ne_code e = 0")
  case True
  then obtain s ep where session: "session = Some (s, ep)"
    using run by (cases session) (auto simp: onConnect_def)
  show ?thesis
  proof (cases "isConnected (pi_p2pID info) sv \<or> pi_p2pID info = sv_nodeID sv")
    case refused: True
    from onConnect_refused [OF this True run [unfolded session]]
    have "sv_sessions sv' = sv_sessions sv" "ps_view sv' = ps_view sv" "sv_nodeID sv' = sv_nodeID sv"
      "sv_next sv \<le> sv_next sv'" by auto
    moreover from this have "a < sv_next sv'" if "ps_view sv' a \<noteq> None" for a
      using svc_invD(5) [OF inv, of a] that by auto
    ultimately show ?thesis using inv by (simp add: svc_inv_def)
  next
    case False
    then show ?thesis
      using svc_inv_adopt [OF inv] onConnect_adopted [OF _ _ True run [unfolded session]] by blast
  qed
qed (use assms in \<open>simp add: onConnect_def\<close>)

text \<open>What \<open>onMessage\<close> does when a session reports an error: \<open>stop(UserReason)\<close>, then \<open>onDisconnect\<close>.\<close>

definition lose_session :: "network_exception \<Rightarrow> nat \<Rightarrow> ('q, 'c) service \<Rightarrow> ('q, 'c) service_result" where
  "lose_session e a sv = sv_bind (p2p_stop UserReason a sv) (onDisconnect e a)"

lemma onDisconnect_table:
  assumes "onDisconnect e a sv = Inr (es, sv')"
  shows "\<exists>i r. ps_view sv a = Some (i, r) \<and> ps_view sv' = ps_view sv \<and> sv_nodeID sv' = sv_nodeID sv \<and>
    sv_next sv' = sv_next sv \<and> es = map (\<lambda>h. CallDisconnectHandler h e a) (sv_disconnectHandlers sv) \<and>
    sv_sessions sv' = (if map_of (sv_sessions sv) (pi_p2pID i) = Some a
      then um_erase (pi_p2pID i) (sv_sessions sv) else sv_sessions sv)"
  using assms by (auto simp: onDisconnect_def Let_def ps_view_def split: option.splits if_splits)

lemma svc_inv_lose:
  assumes inv: "svc_inv sv" and run: "lose_session e a sv = Inr (es, sv')"
  shows "svc_inv sv'"
proof -
  obtain sv1 es1 es2 where stop: "p2p_stop UserReason a sv = Inr (es1, sv1)" and dis: "onDisconnect e a sv1 = Inr (es2, sv')"
    using run by (auto simp: lose_session_def sv_bind_Inr)
  have keeps: "keeps (set_ps_run a False sv) sv1" by (rule p2p_stop_view [OF stop])
  obtain i r where i: "ps_view sv1 a = Some (i, r)" "ps_view sv' = ps_view sv1" "sv_nodeID sv' = sv_nodeID sv1"
      "sv_next sv' = sv_next sv1" "sv_sessions sv' = (if map_of (sv_sessions sv1) (pi_p2pID i) = Some a
        then um_erase (pi_p2pID i) (sv_sessions sv1) else sv_sessions sv1)"
    using onDisconnect_table [OF dis] by blast
  have same: "sv_sessions sv1 = sv_sessions sv" "sv_nodeID sv1 = sv_nodeID sv" "sv_next sv \<le> sv_next sv1"
    using keeps by (simp_all add: keeps_def)
  have view: "ps_view sv1 b = (if b = a then map_option (\<lambda>(i, r). (i, False)) (ps_view sv a) else ps_view sv b)" for b
    using keeps by (simp add: keeps_def set_ps_run_view)
  then obtain r0 where r0: "ps_view sv a = Some (i, r0)" using i(1) by auto
  show ?thesis unfolding svc_inv_def
  proof (intro conjI allI impI)
    show "um_ok (sv_sessions sv')" using svc_invD(1) [OF inv] by (simp add: i(5) same)
  next
    fix n b assume "map_of (sv_sessions sv') n = Some b"
    then have at: "map_of (sv_sessions sv) n = Some b"
      by (auto simp: i(5) same um_simps split: if_splits)
    show "n \<noteq> sv_nodeID sv'" using svc_invD(2) [OF inv at] by (simp add: i(3) same)
    show "\<exists>i r. ps_view sv' b = Some (i, r) \<and> pi_p2pID i = n"
      using svc_invD(3) [OF inv at] by (auto simp: i(2) view)
  next
    fix b j assume "ps_view sv' b = Some (j, True)"
    then have b: "b \<noteq> a" "ps_view sv b = Some (j, True)" by (auto simp: i(2) view split: if_splits)
    then have "map_of (sv_sessions sv) (pi_p2pID j) = Some b" using svc_invD(4) [OF inv] by blast
    with b(1) show "map_of (sv_sessions sv') (pi_p2pID j) = Some b" by (auto simp: i(5) same um_simps)
  next
    fix b assume "ps_view sv' b \<noteq> None"
    then have "ps_view sv b \<noteq> None" by (auto simp: i(2) view split: if_splits)
    then show "b < sv_next sv'" using svc_invD(5) [OF inv, of b] same(3) by (auto simp: i(4))
  qed
qed

lemma stop_sessions_view:
  "stop_sessions as sv = Inr (es, sv') \<Longrightarrow>
   sv_sessions sv' = sv_sessions sv \<and> sv_nodeID sv' = sv_nodeID sv \<and> sv_next sv \<le> sv_next sv' \<and>
   ps_view sv' = (\<lambda>b. if b \<in> set as then map_option (\<lambda>(i, r). (i, False)) (ps_view sv b) else ps_view sv b)"
proof (induction as arbitrary: sv es)
  case (Cons a as)
  then obtain sv1 es1 es2 where s: "p2p_stop ClientQuit a sv = Inr (es1, sv1)" "stop_sessions as sv1 = Inr (es2, sv')"
    by (auto simp: sv_bind_Inr)
  have "keeps (set_ps_run a False sv) sv1" by (rule p2p_stop_view [OF s(1)])
  with Cons.IH [OF s(2)] show ?case
    by (auto simp: keeps_def fun_eq_iff set_ps_run_view option.map_comp o_def case_prod_unfold)
qed simp

lemma svc_inv_stop:
  assumes inv: "svc_inv sv" and run: "service_stop sv = Inr (es, sv')"
  shows "svc_inv sv' \<and> (sv_run sv \<longrightarrow> sv_sessions sv' = [] \<and> (\<forall>a. \<not> ps_actived sv' a))"
proof (cases "sv_run sv")
  case True
  obtain sv1 es1 where stop: "stop_sessions (map snd (sv_sessions sv)) (sv\<lparr>sv_run := False\<rparr>) = Inr (es1, sv1)"
      "sv' = sv1\<lparr>sv_sessions := []\<rparr>"
    using run True by (auto simp: service_stop_def sv_bind_Inr cpp_bind_eq_Inr)
  note view = stop_sessions_view [OF stop(1)]
  have none: "ps_view sv' b \<noteq> Some (i, True)" for b i
  proof
    assume "ps_view sv' b = Some (i, True)"
    then have b: "b \<notin> set (map snd (sv_sessions sv))" "ps_view sv b = Some (i, True)"
      using view by (auto simp: stop(2) split: if_splits)
    then have "map_of (sv_sessions sv) (pi_p2pID i) = Some b" using svc_invD(4) [OF inv] by blast
    with b(1) show False by (force dest: map_of_SomeD)
  qed
  have "a < sv_next sv'" if "ps_view sv' a \<noteq> None" for a
  proof -
    have "ps_view sv a \<noteq> None" using that view by (auto simp: stop(2) split: if_splits)
    then show ?thesis using svc_invD(5) [OF inv, of a] view by (auto simp: stop(2))
  qed
  with none show ?thesis using stop(2) by (simp add: svc_inv_def ps_actived_view)
next
  case False
  with run inv show ?thesis by (simp add: service_stop_def)
qed

section \<open>Runs of the service\<close>

text \<open>
  What can happen to the service: the host reports a connection, a session reports an error, a
  session runs one of its own handlers (any operation on it), messages are sent, timers fire, and
  it is started and stopped.
\<close>

datatype ('q, 'c) svc_event =
    HostConnected u32 network_exception p2p_info "('q session \<times> endpoint) option"
  | SessionError network_exception nat
  | SessionHandler nat "'q session \<Rightarrow> 'q session_result"
  | SendByNodeID p2p_id p2p_message "'c p2p_callback option" u32
  | SendByP2PNodeID u16 p2p_id bytes u32 "'c option"
  | SendByP2PNodeIDs u16 "p2p_id list" bytes u32
  | BroadcastToP2P u16 bytes u32
  | SendBySession u16 bytes nat
  | SendResp bytes p2p_message nat
  | P2PTimer u32 nat
  | ServiceTimer bool bool
  | StaticNodes "endpoint list"
  | StartService
  | StopService

fun svc_exec :: "('key, 'more) bcos_fw_scheme \<Rightarrow> 'q write_queue \<Rightarrow> ('q, 'c) svc_event \<Rightarrow> ('q, 'c) service \<Rightarrow>
    ('q, 'c) service_result" where
  "svc_exec fw wq (HostConnected k e info session) sv = onConnect fw wq k e info session sv"
| "svc_exec fw wq (SessionError e a) sv = lose_session e a sv"
| "svc_exec fw wq (SessionHandler a f) sv = on_session a f sv"
| "svc_exec fw wq (SendByNodeID n m cb t) sv =
     cpp_bind (asyncSendMessageByNodeID fw wq n m cb t sv) (\<lambda>(es, m', sv'). Inr (es, sv'))"
| "svc_exec fw wq (SendByP2PNodeID type n payload t cb) sv = asyncSendMessageByP2PNodeID fw wq type n payload t cb sv"
| "svc_exec fw wq (SendByP2PNodeIDs type ns payload t) sv = asyncSendMessageByP2PNodeIDs fw wq type ns payload t sv"
| "svc_exec fw wq (BroadcastToP2P type payload t) sv = asyncBroadcastMessageToP2PNodes fw wq type payload t sv"
| "svc_exec fw wq (SendBySession type payload a) sv = sendMessageBySession fw wq type payload a sv"
| "svc_exec fw wq (SendResp payload m a) sv = sendRespMessageBySession fw wq payload m a sv"
| "svc_exec fw wq (P2PTimer k a) sv = p2p_heartBeat fw wq k a sv"
| "svc_exec fw wq (ServiceTimer error net) sv = Inr (service_onTimer error net sv)"
| "svc_exec fw wq (StaticNodes eps) sv = Inr ([], setStaticNodes eps sv)"
| "svc_exec fw wq StartService sv = Inr (service_start sv)"
| "svc_exec fw wq StopService sv = service_stop sv"

fun svc_run :: "('key, 'more) bcos_fw_scheme \<Rightarrow> 'q write_queue \<Rightarrow> ('q, 'c) svc_event list \<Rightarrow> ('q, 'c) service \<Rightarrow>
    ('q, 'c) service_result" where
  "svc_run fw wq [] sv = Inr ([], sv)"
| "svc_run fw wq (ev # evs) sv = sv_bind (svc_exec fw wq ev sv) (svc_run fw wq evs)"

lemma svc_inv_same:
  "svc_inv sv \<Longrightarrow> sv_sessions sv' = sv_sessions sv \<Longrightarrow> sv_nodeID sv' = sv_nodeID sv \<Longrightarrow> ps_view sv' = ps_view sv \<Longrightarrow>
   sv_next sv' = sv_next sv \<Longrightarrow> svc_inv sv'"
  by (simp add: svc_inv_def)

lemma service_heartBeat_inv: "svc_inv sv \<Longrightarrow> svc_inv (snd (service_heartBeat sv))"
  by (auto simp: service_heartBeat_def intro: svc_inv_same)

lemma svc_inv_exec: "svc_inv sv \<Longrightarrow> svc_exec fw wq ev sv = Inr (es, sv') \<Longrightarrow> svc_inv sv'"
proof (cases ev)
  case (ServiceTimer error net)
  assume "svc_inv sv" "svc_exec fw wq ev sv = Inr (es, sv')"
  with ServiceTimer service_heartBeat_inv [of sv] show ?thesis
    by (auto simp: service_onTimer_def split: if_splits)
next
  case StartService
  assume "svc_inv sv" "svc_exec fw wq ev sv = Inr (es, sv')"
  moreover have "svc_inv sv \<Longrightarrow> svc_inv (sv\<lparr>sv_run := True\<rparr>)" by (rule svc_inv_same) simp_all
  ultimately show ?thesis
    using StartService service_heartBeat_inv [of "sv\<lparr>sv_run := True\<rparr>"]
    by (cases "service_heartBeat (sv\<lparr>sv_run := True\<rparr>)") (auto simp: service_start_def split: if_splits)
qed (auto simp: cpp_bind_eq_Inr setStaticNodes_def intro: svc_inv_keeps svc_inv_connect svc_inv_lose svc_inv_same
    dest: send_keeps on_session_keeps send_p2p_keeps send_p2p_list_keeps broadcast_p2p_keeps send_by_session_keeps
      send_resp_keeps p2p_heartBeat_keeps svc_inv_stop)

lemma svc_inv_run: "svc_inv sv \<Longrightarrow> svc_run fw wq evs sv = Inr (es, sv') \<Longrightarrow> svc_inv sv'"
  by (induction evs arbitrary: sv es) (auto simp: sv_bind_Inr dest: svc_inv_exec)

lemma svc_inv_new: "svc_inv (new_service n)"
  by (simp add: svc_inv_def new_service_def ps_view_def)

lemma onConnect_nodeID: "onConnect fw wq k e info session sv = Inr (es, sv') \<Longrightarrow> sv_nodeID sv' = sv_nodeID sv"
proof (cases "ne_code e = 0 \<and> session \<noteq> None")
  case True
  assume run: "onConnect fw wq k e info session sv = Inr (es, sv')"
  from True obtain s ep where "session = Some (s, ep)" by auto
  with run True onConnect_refused [of info sv e fw wq k s ep es sv'] onConnect_adopted [of info sv e fw wq k s ep es sv']
  show ?thesis by (auto simp: adopt_def)
qed (cases session; auto simp: onConnect_def split: if_splits)+

lemma lose_session_nodeID: "lose_session e a sv = Inr (es, sv') \<Longrightarrow> sv_nodeID sv' = sv_nodeID sv"
  by (auto simp: lose_session_def sv_bind_Inr keeps_def dest!: p2p_stop_view onDisconnect_table)

lemma service_stop_nodeID: "service_stop sv = Inr (es, sv') \<Longrightarrow> sv_nodeID sv' = sv_nodeID sv"
  by (auto simp: service_stop_def sv_bind_Inr cpp_bind_eq_Inr split: if_splits dest!: stop_sessions_view)

lemma svc_exec_nodeID: "svc_exec fw wq ev sv = Inr (es, sv') \<Longrightarrow> sv_nodeID sv' = sv_nodeID sv"
  by (cases ev)
    (auto simp: cpp_bind_eq_Inr setStaticNodes_def service_onTimer_def service_start_def service_heartBeat_def keeps_def
      split: if_splits
      dest!: onConnect_nodeID lose_session_nodeID service_stop_nodeID send_keeps on_session_keeps send_p2p_keeps
        send_p2p_list_keeps broadcast_p2p_keeps send_by_session_keeps send_resp_keeps p2p_heartBeat_keeps)

lemma svc_run_nodeID: "svc_run fw wq evs sv = Inr (es, sv') \<Longrightarrow> sv_nodeID sv' = sv_nodeID sv"
  by (induction evs arbitrary: sv es) (auto simp: sv_bind_Inr dest: svc_exec_nodeID)

end
