(* ===== verification/Json_Lib.thy ===== *)
theory Json_Lib
  imports Gw_Prelude
begin

text \<open>
  The part of jsoncpp the gateway uses, as a record of functions that is an argument of the
  definitions which read or write JSON: \<open>Reader::parse\<close>, \<open>FastWriter::write\<close>, the accessors and
  the constructors of \<open>Json::Value\<close>. \<open>None\<close> is a thrown exception (for \<open>parse\<close>: the result
  \<open>false\<close>). What the library is documented to do is stated over documents, the values up to the
  order of members, by a function \<open>view\<close> from values to documents.
\<close>

record 'j jsonlib =
  jl_parse :: "string \<Rightarrow> 'j option"
  jl_write :: "'j \<Rightarrow> string option"
  jl_member :: "'j \<Rightarrow> string \<Rightarrow> 'j option" \<comment> \<open>\<open>v["name"]\<close>\<close>
  jl_index :: "'j \<Rightarrow> nat \<Rightarrow> 'j option" \<comment> \<open>\<open>v[i]\<close>\<close>
  jl_size :: "'j \<Rightarrow> nat"
  jl_asUInt :: "'j \<Rightarrow> u32 option"
  jl_asString :: "'j \<Rightarrow> string option"
  jl_null :: 'j
  jl_array :: 'j \<comment> \<open>\<open>Json::Value(Json::arrayValue)\<close>\<close>
  jl_uint :: "u32 \<Rightarrow> 'j"
  jl_string :: "string \<Rightarrow> 'j"
  jl_set :: "'j \<Rightarrow> string \<Rightarrow> 'j \<Rightarrow> 'j option" \<comment> \<open>\<open>v["name"] = x\<close>\<close>
  jl_append :: "'j \<Rightarrow> 'j \<Rightarrow> 'j option" \<comment> \<open>\<open>v.append(x)\<close>\<close>

datatype jdoc =
    JNull
  | JUInt u32
  | JString string
  | JArray "jdoc list"
  | JObject "string \<Rightarrow> jdoc option"

text \<open>Text that JSON carries unchanged whatever the encoding: the printable ASCII characters.\<close>

definition plain_string :: "string \<Rightarrow> bool" where
  "plain_string s = list_all (\<lambda>c. 32 \<le> (of_char c :: nat) \<and> (of_char c :: nat) < 127) s"

inductive plain_doc :: "jdoc \<Rightarrow> bool" where
  "plain_doc JNull"
| "plain_doc (JUInt u)"
| "plain_string s \<Longrightarrow> plain_doc (JString s)"
| "list_all plain_doc ds \<Longrightarrow> plain_doc (JArray ds)"
| "(\<And>k d. f k = Some d \<Longrightarrow> plain_string k \<and> plain_doc d) \<Longrightarrow> plain_doc (JObject f)"
  monos list_all_iff

definition object_of :: "jdoc \<Rightarrow> (string \<Rightarrow> jdoc option) option" where
  "object_of d = (case d of JNull \<Rightarrow> Some (\<lambda>_. None) | JObject f \<Rightarrow> Some f | _ \<Rightarrow> None)"

definition json_spec :: "'j jsonlib \<Rightarrow> ('j \<Rightarrow> jdoc) \<Rightarrow> bool" where
  "json_spec jl view \<longleftrightarrow>
     (\<forall>v. plain_doc (view v) \<longrightarrow>
        (\<exists>t v'. jl_write jl v = Some t \<and> t \<noteq> [] \<and> jl_parse jl t = Some v' \<and> view v' = view v)) \<and>
     (\<forall>v f k d. view v = JObject f \<longrightarrow> f k = Some d \<longrightarrow> (\<exists>x. jl_member jl v k = Some x \<and> view x = d)) \<and>
     (\<forall>v ds i. view v = JArray ds \<longrightarrow> i < length ds \<longrightarrow> (\<exists>x. jl_index jl v i = Some x \<and> view x = ds ! i)) \<and>
     (\<forall>v ds. view v = JArray ds \<longrightarrow> jl_size jl v = length ds) \<and>
     (\<forall>v u. view v = JUInt u \<longrightarrow> jl_asUInt jl v = Some u) \<and>
     (\<forall>v s. view v = JString s \<longrightarrow> jl_asString jl v = Some s) \<and>
     view (jl_null jl) = JNull \<and> view (jl_array jl) = JArray [] \<and>
     (\<forall>u. view (jl_uint jl u) = JUInt u) \<and> (\<forall>s. view (jl_string jl s) = JString s) \<and>
     (\<forall>v f k x. object_of (view v) = Some f \<longrightarrow>
        (\<exists>v'. jl_set jl v k x = Some v' \<and> view v' = JObject (f(k \<mapsto> view x)))) \<and>
     (\<forall>v ds x. view v = JArray ds \<longrightarrow>
        (\<exists>v'. jl_append jl v x = Some v' \<and> view v' = JArray (ds @ [view x])))"

lemma json_laws:
  assumes "json_spec jl view"
  shows "plain_doc (view v) \<Longrightarrow>
      \<exists>t v'. jl_write jl v = Some t \<and> t \<noteq> [] \<and> jl_parse jl t = Some v' \<and> view v' = view v"
    and "view v = JObject f \<Longrightarrow> f k = Some d \<Longrightarrow> \<exists>x. jl_member jl v k = Some x \<and> view x = d"
    and "view v = JArray ds \<Longrightarrow> i < length ds \<Longrightarrow> \<exists>x. jl_index jl v i = Some x \<and> view x = ds ! i"
    and "view v = JArray ds \<Longrightarrow> jl_size jl v = length ds"
    and "view v = JUInt u \<Longrightarrow> jl_asUInt jl v = Some u"
    and "view v = JString s \<Longrightarrow> jl_asString jl v = Some s"
    and "view (jl_null jl) = JNull" and "view (jl_array jl) = JArray []"
    and "view (jl_uint jl u) = JUInt u" and "view (jl_string jl s) = JString s"
    and "object_of (view v) = Some f \<Longrightarrow>
      \<exists>v'. jl_set jl v k x = Some v' \<and> view v' = JObject (f(k \<mapsto> view x))"
    and "view v = JArray ds \<Longrightarrow> \<exists>v'. jl_append jl v x = Some v' \<and> view v' = JArray (ds @ [view x])"
  using assms by (simp_all add: json_spec_def)

section \<open>A concrete library\<close>

text \<open>
  A small library that meets the specification, to show that it can be met. It writes a prefix
  notation with lengths in unary instead of JSON text.
\<close>

datatype jv = VNull | VUInt u32 | VString string | VArray "jv list" | VObject "(string \<times> jv) list"

fun jv_view :: "jv \<Rightarrow> jdoc" where
  "jv_view VNull = JNull"
| "jv_view (VUInt u) = JUInt u"
| "jv_view (VString s) = JString s"
| "jv_view (VArray vs) = JArray (map jv_view vs)"
| "jv_view (VObject kvs) = JObject (map_of (map (\<lambda>(k, v). (k, jv_view v)) kvs))"

definition unary :: "nat \<Rightarrow> string" where
  "unary n = replicate n CHR ''1'' @ ''.''"

fun jv_write :: "jv \<Rightarrow> string" where
  "jv_write VNull = ''n''"
| "jv_write (VUInt u) = ''u'' @ unary (unat u)"
| "jv_write (VString s) = ''s'' @ unary (length s) @ s"
| "jv_write (VArray vs) = ''a'' @ unary (length vs) @ concat (map jv_write vs)"
| "jv_write (VObject kvs) = ''o'' @ unary (length kvs) @
     concat (map (\<lambda>(k, v). unary (length k) @ k @ jv_write v) kvs)"

definition read_unary :: "string \<Rightarrow> nat \<times> string" where
  "read_unary t = (length (takeWhile (\<lambda>c. c = CHR ''1'') t), tl (dropWhile (\<lambda>c. c = CHR ''1'') t))"

fun jv_read :: "nat \<Rightarrow> string \<Rightarrow> (jv \<times> string) option"
  and jv_read_list :: "nat \<Rightarrow> nat \<Rightarrow> string \<Rightarrow> (jv list \<times> string) option"
  and jv_read_members :: "nat \<Rightarrow> nat \<Rightarrow> string \<Rightarrow> ((string \<times> jv) list \<times> string) option" where
  "jv_read 0 t = None"
| "jv_read (Suc f) [] = None"
| "jv_read (Suc f) (c # t) =
     (case read_unary t of (n, t') \<Rightarrow>
        if c = CHR ''n'' then Some (VNull, t)
        else if c = CHR ''u'' then Some (VUInt (of_nat n), t')
        else if c = CHR ''s'' then Some (VString (take n t'), drop n t')
        else if c = CHR ''a'' then map_option (\<lambda>(vs, r). (VArray vs, r)) (jv_read_list f n t')
        else if c = CHR ''o'' then map_option (\<lambda>(kvs, r). (VObject kvs, r)) (jv_read_members f n t')
        else None)"
| "jv_read_list f 0 t = Some ([], t)"
| "jv_read_list 0 (Suc n) t = None"
| "jv_read_list (Suc f) (Suc n) t =
     (case jv_read f t of None \<Rightarrow> None
      | Some (v, r) \<Rightarrow> map_option (\<lambda>(vs, r'). (v # vs, r')) (jv_read_list f n r))"
| "jv_read_members f 0 t = Some ([], t)"
| "jv_read_members 0 (Suc n) t = None"
| "jv_read_members (Suc f) (Suc n) t =
     (case read_unary t of (m, t') \<Rightarrow>
        case jv_read f (drop m t') of None \<Rightarrow> None
        | Some (v, r) \<Rightarrow> map_option (\<lambda>(kvs, r'). ((take m t', v) # kvs, r')) (jv_read_members f n r))"

definition jv_lib :: "jv jsonlib" where
  "jv_lib = \<lparr>jl_parse = (\<lambda>t. map_option fst (jv_read (Suc (length t)) t)),
     jl_write = (\<lambda>v. Some (jv_write v)),
     jl_member = (\<lambda>v k. case v of VObject kvs \<Rightarrow> Some (case map_of kvs k of None \<Rightarrow> VNull | Some x \<Rightarrow> x)
                         | VNull \<Rightarrow> Some VNull | _ \<Rightarrow> None),
     jl_index = (\<lambda>v i. case v of VArray vs \<Rightarrow> Some (if i < length vs then vs ! i else VNull)
                         | VNull \<Rightarrow> Some VNull | _ \<Rightarrow> None),
     jl_size = (\<lambda>v. case v of VArray vs \<Rightarrow> length vs | VObject kvs \<Rightarrow> length kvs | _ \<Rightarrow> 0),
     jl_asUInt = (\<lambda>v. case v of VUInt u \<Rightarrow> Some u | VNull \<Rightarrow> Some 0 | _ \<Rightarrow> None),
     jl_asString = (\<lambda>v. case v of VString s \<Rightarrow> Some s | VNull \<Rightarrow> Some [] | _ \<Rightarrow> None),
     jl_null = VNull, jl_array = VArray [], jl_uint = VUInt, jl_string = VString,
     jl_set = (\<lambda>v k x. case v of VObject kvs \<Rightarrow> Some (VObject (um_put k x kvs))
                         | VNull \<Rightarrow> Some (VObject [(k, x)]) | _ \<Rightarrow> None),
     jl_append = (\<lambda>v x. case v of VArray vs \<Rightarrow> Some (VArray (vs @ [x]))
                         | VNull \<Rightarrow> Some (VArray [x]) | _ \<Rightarrow> None)\<rparr>"

lemma read_unary_unary [simp]: "read_unary (unary n @ t) = (n, t)"
proof -
  have "takeWhile (\<lambda>c. c = CHR ''1'') (replicate n CHR ''1'' @ CHR ''.'' # t) = replicate n CHR ''1''"
    by (induction n) simp_all
  moreover have "dropWhile (\<lambda>c. c = CHR ''1'') (replicate n CHR ''1'' @ CHR ''.'' # t) = CHR ''.'' # t"
    by (induction n) simp_all
  ultimately show ?thesis by (simp add: read_unary_def unary_def)
qed

lemma length_unary [simp]: "length (unary n) = Suc n"
  by (simp add: unary_def)

lemma jv_read_list_write:
  assumes "\<And>v f t. v \<in> set vs \<Longrightarrow> length (jv_write v) \<le> f \<Longrightarrow> jv_read f (jv_write v @ t) = Some (v, t)"
    and "length vs + length (concat (map jv_write vs)) \<le> f"
  shows "jv_read_list f (length vs) (concat (map jv_write vs) @ t) = Some (vs, t)"
  using assms
proof (induction vs arbitrary: f)
  case Nil
  then show ?case by simp
next
  case (Cons v vs)
  then obtain f' where f: "f = Suc f'" by (cases f) auto
  have head: "jv_read f' (jv_write v @ t') = Some (v, t')" for t'
    using Cons.prems by (simp add: f)
  have tail: "jv_read_list f' (length vs) (concat (map jv_write vs) @ t) = Some (vs, t)"
    using Cons.prems by (intro Cons.IH) (simp_all add: f)
  show ?case using head tail by (simp add: f)
qed

lemma jv_read_members_write:
  assumes "\<And>k v f t. (k, v) \<in> set kvs \<Longrightarrow> length (jv_write v) \<le> f \<Longrightarrow> jv_read f (jv_write v @ t) = Some (v, t)"
    and "length kvs + length (concat (map (\<lambda>(k, v). unary (length k) @ k @ jv_write v) kvs)) \<le> f"
  shows "jv_read_members f (length kvs) (concat (map (\<lambda>(k, v). unary (length k) @ k @ jv_write v) kvs) @ t)
    = Some (kvs, t)"
  using assms
proof (induction kvs arbitrary: f)
  case Nil
  then show ?case by simp
next
  case (Cons kv kvs)
  obtain k v where kv: "kv = (k, v)" by fastforce
  obtain f' where f: "f = Suc f'" using Cons.prems by (cases f) auto
  have head: "jv_read f' (jv_write v @ t') = Some (v, t')" for t'
    using Cons.prems(2) by (intro Cons.prems(1) [of k v]) (simp_all add: f kv)
  have tail: "jv_read_members f' (length kvs)
      (concat (map (\<lambda>(k, v). unary (length k) @ k @ jv_write v) kvs) @ t) = Some (kvs, t)"
    using Cons.prems by (intro Cons.IH) (auto simp: f kv)
  show ?case using head tail by (simp add: f kv)
qed

lemma jv_read_write: "length (jv_write v) \<le> f \<Longrightarrow> jv_read f (jv_write v @ t) = Some (v, t)"
proof (induction v arbitrary: f t rule: jv_write.induct)
  case 1
  then obtain f' where "f = Suc f'" by (cases f) auto
  then show ?case by (simp split: prod.split)
next
  case (2 u)
  then obtain f' where "f = Suc f'" by (cases f) auto
  then show ?case by simp
next
  case (3 s)
  then obtain f' where "f = Suc f'" by (cases f) auto
  then show ?case by simp
next
  case (4 vs)
  then obtain f' where f: "f = Suc f'" by (cases f) auto
  have "jv_read_list f' (length vs) (concat (map jv_write vs) @ t) = Some (vs, t)"
    using 4 by (intro jv_read_list_write) (simp_all add: f)
  then show ?case by (simp add: f)
next
  case (5 kvs)
  then obtain f' where f: "f = Suc f'" by (cases f) auto
  have "jv_read_members f' (length kvs)
      (concat (map (\<lambda>(k, v). unary (length k) @ k @ jv_write v) kvs) @ t) = Some (kvs, t)"
    using 5 by (intro jv_read_members_write) (auto simp: f)
  then show ?case by (simp add: f)
qed

lemma jv_parse_write: "jl_parse jv_lib (jv_write v) = Some v"
  using jv_read_write [of v "Suc (length (jv_write v))" "[]"] by (simp add: jv_lib_def)

lemma jv_write_nonempty [simp]: "jv_write v \<noteq> []"
  by (cases v) simp_all

lemma map_of_view: "map_of (map (\<lambda>(k, v). (k, jv_view v)) kvs) k = map_option jv_view (map_of kvs k)"
  by (induction kvs) auto

lemma jv_view_inv:
  "jv_view v = JArray ds \<longleftrightarrow> (\<exists>vs. v = VArray vs \<and> ds = map jv_view vs)"
  "jv_view v = JUInt u \<longleftrightarrow> v = VUInt u"
  "jv_view v = JString s \<longleftrightarrow> v = VString s"
  "jv_view v = JNull \<longleftrightarrow> v = VNull"
  "jv_view v = JObject f \<longleftrightarrow> (\<exists>kvs. v = VObject kvs \<and> f = map_of (map (\<lambda>(k, v). (k, jv_view v)) kvs))"
  by (cases v; auto)+

lemma jv_set_spec:
  assumes "object_of (jv_view v) = Some f"
  shows "\<exists>v'. jl_set jv_lib v k x = Some v' \<and> jv_view v' = JObject (f(k \<mapsto> jv_view x))"
proof (cases v)
  case VNull
  with assms show ?thesis by (simp add: jv_lib_def object_of_def fun_upd_def)
next
  case (VObject kvs)
  with assms have "f = (\<lambda>k. map_option jv_view (map_of kvs k))"
    by (auto simp: object_of_def map_of_view)
  with VObject show ?thesis
    by (auto simp add: jv_lib_def map_of_view um_find_put)
qed (use assms in \<open>simp_all add: object_of_def\<close>)

lemma jv_lib_spec: "json_spec jv_lib jv_view"
  unfolding json_spec_def
proof (intro conjI)
  show "\<forall>v. plain_doc (jv_view v) \<longrightarrow>
      (\<exists>t v'. jl_write jv_lib v = Some t \<and> t \<noteq> [] \<and> jl_parse jv_lib t = Some v' \<and> jv_view v' = jv_view v)"
  proof (intro allI impI)
    fix v
    have "jl_write jv_lib v = Some (jv_write v)" by (simp add: jv_lib_def)
    then show "\<exists>t v'. jl_write jv_lib v = Some t \<and> t \<noteq> [] \<and> jl_parse jv_lib t = Some v' \<and> jv_view v' = jv_view v"
      using jv_parse_write [of v] by simp
  qed
  show "\<forall>v f k x. object_of (jv_view v) = Some f \<longrightarrow>
      (\<exists>v'. jl_set jv_lib v k x = Some v' \<and> jv_view v' = JObject (f(k \<mapsto> jv_view x)))"
    using jv_set_spec by blast
qed (auto simp: jv_lib_def jv_view_inv map_of_view split: option.split)

end
