(* ===== verification/Node_Manager.thy ===== *)
theory Node_Manager
  imports Net_Common Seq_Gossip Json_Lib
begin

text \<open>
  \<open>GatewayNodeManager.h/.cpp\<close> and \<open>DynamicGatewayNodeManager.h/.cpp\<close>: the nodes registered at
  this gateway, the nodes the peers have announced, and the gossip that keeps the second table
  in step. Locks are left out: each operation runs under the lock of the table it changes.
  A front service and a tars proxy are named by numbers.
\<close>

section \<open>State\<close>

type_synonym p2pid = string
type_synonym groupid = string
type_synonym nodeid = string
type_synonym nodeids_map = "(groupid \<times> nodeid list) list" \<comment> \<open>\<open>group => set of nodeIDs\<close>\<close>

record front_service_info =
  m_frontService :: nat
  m_frontServicePrx :: "nat option"

definition unreachable :: "(nat \<Rightarrow> nat list \<times> nat list) \<Rightarrow> front_service_info \<Rightarrow> bool" where
  "unreachable tars_endpointsAll fi = (case m_frontServicePrx fi of None \<Rightarrow> False
     | Some prx \<Rightarrow> (case tars_endpointsAll prx of (activeEndPoints, nactiveEndPoints) \<Rightarrow>
         length activeEndPoints = 0))"

record node_manager =
  m_p2pNodeID :: p2pid
  m_statusSeq :: u32
  m_peerGatewayNodes :: "(groupid \<times> (nodeid \<times> p2pid list) list) list"
  m_p2pID2Seq :: "(p2pid \<times> u32) list"
  m_frontServiceInfos :: "(groupid \<times> (nodeid \<times> front_service_info) list) list"
  m_nodeIDInfo :: "(p2pid \<times> nodeids_map) list"

definition new_node_manager :: "p2pid \<Rightarrow> node_manager" where
  "new_node_manager p = \<lparr>m_p2pNodeID = p, m_statusSeq = 1, m_peerGatewayNodes = [], m_p2pID2Seq = [],
     m_frontServiceInfos = [], m_nodeIDInfo = []\<rparr>"

definition increaseSeq :: "node_manager \<Rightarrow> node_manager" where
  "increaseSeq nm = nm\<lparr>m_statusSeq := m_statusSeq nm + 1\<rparr>"

section \<open>Local nodes\<close>

definition registerFrontService :: "('key, 'more) bcos_fw_scheme \<Rightarrow> groupid \<Rightarrow> 'key \<Rightarrow> nat \<Rightarrow>
    node_manager \<Rightarrow> bool \<times> node_manager" where
  "registerFrontService fw g n front nm =
     (let isExist = (case map_of (m_frontServiceInfos nm) g of None \<Rightarrow> False
                     | Some inner \<Rightarrow> um_has (keyHex fw n) inner)
      in if isExist then (False, nm)
         else (True, increaseSeq (nm\<lparr>m_frontServiceInfos :=
                um2_put g (keyHex fw n) \<lparr>m_frontService = front, m_frontServicePrx = None\<rparr>
                  (m_frontServiceInfos nm)\<rparr>)))"

definition unregisterFrontService :: "('key, 'more) bcos_fw_scheme \<Rightarrow> groupid \<Rightarrow> 'key \<Rightarrow>
    node_manager \<Rightarrow> bool \<times> node_manager" where
  "unregisterFrontService fw g n nm =
     (case map_of (m_frontServiceInfos nm) g of None \<Rightarrow> (False, nm)
      | Some inner \<Rightarrow>
          if um_has (keyHex fw n) inner
          then (True, increaseSeq (nm\<lparr>m_frontServiceInfos :=
                 um2_erase g (keyHex fw n) (m_frontServiceInfos nm)\<rparr>))
          else (False, nm))"

definition queryFrontServiceInterfaceByGroupIDAndNodeID :: "('key, 'more) bcos_fw_scheme \<Rightarrow>
    groupid \<Rightarrow> 'key \<Rightarrow> node_manager \<Rightarrow> nat option" where
  "queryFrontServiceInterfaceByGroupIDAndNodeID fw g n nm =
     (case map_of (m_frontServiceInfos nm) g of None \<Rightarrow> None
      | Some inner \<Rightarrow> map_option m_frontService (map_of inner (keyHex fw n)))"

definition queryFrontServiceInterfaceByGroupID :: "groupid \<Rightarrow> node_manager \<Rightarrow> nat list" where
  "queryFrontServiceInterfaceByGroupID g nm =
     (case map_of (m_frontServiceInfos nm) g of None \<Rightarrow> []
      | Some inner \<Rightarrow> os_insert_all (map (\<lambda>(n, fi). m_frontService fi) inner) [])"

definition queryLocalNodes :: "groupid \<Rightarrow> nodeid \<Rightarrow> node_manager \<Rightarrow> front_service_info option" where
  "queryLocalNodes g n nm = um2_find (m_frontServiceInfos nm) g n"

definition groupFrontServices :: "groupid \<Rightarrow> node_manager \<Rightarrow> (nodeid \<times> front_service_info) list" where
  "groupFrontServices g nm = um_at (m_frontServiceInfos nm) g"

definition getLocalNodeIDInfo :: "node_manager \<Rightarrow> nodeids_map" where
  "getLocalNodeIDInfo nm =
     fold (\<lambda>(g, infos) info.
        fold (\<lambda>(n, fi) info. um_put g (os_insert n (um_at info g)) info) infos
          (if um_has g info then info else um_put g [] info))
      (m_frontServiceInfos nm) []"

section \<open>Nodes of the peers\<close>

definition removeNodeIDInfo :: "p2pid \<Rightarrow> node_manager \<Rightarrow> node_manager" where
  "removeNodeIDInfo p nm =
     (if um_has p (m_nodeIDInfo nm) then nm\<lparr>m_nodeIDInfo := um_erase p (m_nodeIDInfo nm)\<rparr> else nm)"

definition updateNodeIDInfo :: "p2pid \<Rightarrow> nodeids_map \<Rightarrow> node_manager \<Rightarrow> node_manager" where
  "updateNodeIDInfo p m nm = nm\<lparr>m_nodeIDInfo := um_put p m (m_nodeIDInfo nm)\<rparr>"

text \<open>The three nested loops of \<open>removeNodeIDsByP2PID\<close>, innermost first.\<close>

fun erase_p2p :: "p2pid \<Rightarrow> p2pid list \<Rightarrow> p2pid list" where
  "erase_p2p p [] = []"
| "erase_p2p p (q # qs) = (if q = p then erase_p2p p qs else q # erase_p2p p qs)"

fun erase_p2p_nodes :: "p2pid \<Rightarrow> (nodeid \<times> p2pid list) list \<Rightarrow> (nodeid \<times> p2pid list) list" where
  "erase_p2p_nodes p [] = []"
| "erase_p2p_nodes p ((n, ps) # rest) =
     (let ps' = erase_p2p p ps
      in if ps' = [] then erase_p2p_nodes p rest else (n, ps') # erase_p2p_nodes p rest)"

fun erase_p2p_groups ::
  "p2pid \<Rightarrow> (groupid \<times> (nodeid \<times> p2pid list) list) list \<Rightarrow> (groupid \<times> (nodeid \<times> p2pid list) list) list" where
  "erase_p2p_groups p [] = []"
| "erase_p2p_groups p ((g, nodes) # rest) =
     (let nodes' = erase_p2p_nodes p nodes
      in if nodes' = [] then erase_p2p_groups p rest else (g, nodes') # erase_p2p_groups p rest)"

definition removeNodeIDsByP2PID :: "p2pid \<Rightarrow> node_manager \<Rightarrow> node_manager" where
  "removeNodeIDsByP2PID p nm =
     removeNodeIDInfo p (nm\<lparr>m_peerGatewayNodes := erase_p2p_groups p (m_peerGatewayNodes nm)\<rparr>)"

text \<open>\<open>m_peerGatewayNodes[g][n].insert(p)\<close>, and the loops over the received map.\<close>

definition route_insert :: "p2pid \<Rightarrow> groupid \<Rightarrow> nodeid \<Rightarrow>
    (groupid \<times> (nodeid \<times> p2pid list) list) list \<Rightarrow> (groupid \<times> (nodeid \<times> p2pid list) list) list" where
  "route_insert p g n r =
     um2_put g n (os_insert p (case um2_find r g n of None \<Rightarrow> [] | Some ps \<Rightarrow> ps)) r"

definition insert_routes :: "p2pid \<Rightarrow> nodeids_map \<Rightarrow>
    (groupid \<times> (nodeid \<times> p2pid list) list) list \<Rightarrow> (groupid \<times> (nodeid \<times> p2pid list) list) list" where
  "insert_routes p m r = fold (\<lambda>(g, ns) r. fold (route_insert p g) ns r) m r"

definition queryLocalNodeIDsByGroup ::
  "('key, 'more) bcos_fw_scheme \<Rightarrow> groupid \<Rightarrow> node_manager \<Rightarrow> 'key list \<Rightarrow> 'key list cpp" where
  "queryLocalNodeIDsByGroup fw g nm ids =
     fold (\<lambda>(n, fi) acc. cpp_bind acc (\<lambda>ids.
        case fromHexString fw n of None \<Rightarrow> Inl NullPointer | Some b \<Rightarrow> Inr (ids @ [createKey fw b])))
      (um_at (m_frontServiceInfos nm) g) (Inr ids)"

definition queryNodeIDsByGroupID ::
  "('key, 'more) bcos_fw_scheme \<Rightarrow> groupid \<Rightarrow> node_manager \<Rightarrow> 'key list \<Rightarrow> (bool \<times> 'key list) cpp" where
  "queryNodeIDsByGroupID fw g nm ids =
     cpp_bind (queryLocalNodeIDsByGroup fw g nm ids) (\<lambda>ids.
       case map_of (m_peerGatewayNodes nm) g of None \<Rightarrow> Inr (False, ids)
       | Some nodes \<Rightarrow> Inr (True, ids @ concat (map (\<lambda>(n, ps).
           case fromHexString fw n of None \<Rightarrow> [] | Some b \<Rightarrow> [createKey fw b]) nodes)))"

text \<open>A call of \<open>onReceiveNodeIDs\<close> of a front service.\<close>

record 'key notification =
  nt_front :: nat
  nt_group :: groupid
  nt_nodeIDs :: "'key list"

definition notifyNodeIDs2FrontService ::
  "('key, 'more) bcos_fw_scheme \<Rightarrow> node_manager \<Rightarrow> 'key notification list cpp" where
  "notifyNodeIDs2FrontService fw nm =
     fold (\<lambda>(g, fronts) acc. cpp_bind acc (\<lambda>ns.
        cpp_bind (queryNodeIDsByGroupID fw g nm []) (\<lambda>(found, nodeIDs).
          Inr (ns @ map (\<lambda>(n, fi). \<lparr>nt_front = m_frontService fi, nt_group = g, nt_nodeIDs = nodeIDs\<rparr>) fronts))))
      (m_frontServiceInfos nm) (Inr [])"

definition apply_nodeIDs :: "p2pid \<Rightarrow> u32 \<Rightarrow> nodeids_map \<Rightarrow> node_manager \<Rightarrow> node_manager" where
  "apply_nodeIDs p seq m nm =
     (let nm1 = removeNodeIDsByP2PID p nm;
          nm2 = nm1\<lparr>m_peerGatewayNodes := insert_routes p m (m_peerGatewayNodes nm1),
                    m_p2pID2Seq := um_put p seq (m_p2pID2Seq nm1)\<rparr>
      in updateNodeIDInfo p m nm2)"

definition updateNodeIDs :: "('key, 'more) bcos_fw_scheme \<Rightarrow> p2pid \<Rightarrow> u32 \<Rightarrow> nodeids_map \<Rightarrow>
    node_manager \<Rightarrow> ('key notification list \<times> node_manager) cpp" where
  "updateNodeIDs fw p seq m nm =
     (let nm' = apply_nodeIDs p seq m nm
      in cpp_bind (notifyNodeIDs2FrontService fw nm') (\<lambda>ns. Inr (ns, nm')))"

definition forget_peer :: "p2pid \<Rightarrow> node_manager \<Rightarrow> node_manager" where
  "forget_peer p nm =
     (let nm1 = removeNodeIDsByP2PID p nm in nm1\<lparr>m_p2pID2Seq := um_erase p (m_p2pID2Seq nm1)\<rparr>)"

definition onRemoveNodeIDs :: "('key, 'more) bcos_fw_scheme \<Rightarrow> p2pid \<Rightarrow> node_manager \<Rightarrow>
    ('key notification list \<times> node_manager) cpp" where
  "onRemoveNodeIDs fw p nm =
     (let nm' = forget_peer p nm
      in cpp_bind (notifyNodeIDs2FrontService fw nm') (\<lambda>ns. Inr (ns, nm')))"

definition onReceiveStatusSeq :: "p2pid \<Rightarrow> u32 \<Rightarrow> node_manager \<Rightarrow> bool" where
  "onReceiveStatusSeq p seq nm = (case map_of (m_p2pID2Seq nm) p of None \<Rightarrow> True | Some k \<Rightarrow> seq \<noteq> k)"

definition queryP2pIDs :: "groupid \<Rightarrow> nodeid \<Rightarrow> p2pid list \<Rightarrow> node_manager \<Rightarrow> bool \<times> p2pid list" where
  "queryP2pIDs g n p2pIDs nm =
     (case map_of (m_peerGatewayNodes nm) g of None \<Rightarrow> (False, p2pIDs)
      | Some nodes \<Rightarrow> (case map_of nodes n of None \<Rightarrow> (False, p2pIDs)
          | Some ps \<Rightarrow> (True, os_insert_all ps p2pIDs)))"

definition queryP2pIDsByGroupID :: "groupid \<Rightarrow> p2pid list \<Rightarrow> node_manager \<Rightarrow> bool \<times> p2pid list" where
  "queryP2pIDsByGroupID g p2pIDs nm =
     (case map_of (m_peerGatewayNodes nm) g of None \<Rightarrow> (False, p2pIDs)
      | Some nodes \<Rightarrow> (True, fold (\<lambda>(n, ps) acc. os_insert_all ps acc) nodes p2pIDs))"

definition nodeIDInfo :: "p2pid \<Rightarrow> node_manager \<Rightarrow> nodeids_map" where
  "nodeIDInfo p nm = (if p = m_p2pNodeID nm then getLocalNodeIDInfo nm
                      else (case map_of (m_nodeIDInfo nm) p of None \<Rightarrow> [] | Some m \<Rightarrow> m))"

section \<open>The gossip messages\<close>

fun option_bind :: "'a option \<Rightarrow> ('a \<Rightarrow> 'b option) \<Rightarrow> 'b option" where
  "option_bind None f = None"
| "option_bind (Some x) f = f x"

text \<open>
  \<open>parseReceivedJson\<close>: \<open>None\<close> is the result \<open>false\<close>, be it that the text does not parse or that
  an accessor throws.
\<close>

fun parse_nodeIDs :: "'j jsonlib \<Rightarrow> 'j \<Rightarrow> nat list \<Rightarrow> nodeid list \<Rightarrow> nodeid list option" where
  "parse_nodeIDs jl arr [] acc = Some acc"
| "parse_nodeIDs jl arr (j # js) acc =
     option_bind (jl_index jl arr j) (\<lambda>v.
     option_bind (jl_asString jl v) (\<lambda>nodeID. parse_nodeIDs jl arr js (os_insert nodeID acc)))"

fun parse_nodeInfoList :: "'j jsonlib \<Rightarrow> 'j \<Rightarrow> nat list \<Rightarrow> nodeids_map \<Rightarrow> nodeids_map option" where
  "parse_nodeInfoList jl root [] acc = Some acc"
| "parse_nodeInfoList jl root (i # is) acc =
     option_bind (jl_member jl root ''nodeInfoList'') (\<lambda>list.
     option_bind (jl_index jl list i) (\<lambda>jNode.
     option_bind (jl_member jl jNode ''groupID'') (\<lambda>g.
     option_bind (jl_asString jl g) (\<lambda>groupID.
     option_bind (jl_member jl jNode ''nodeIDs'') (\<lambda>arr.
     option_bind (parse_nodeIDs jl arr [0..<jl_size jl arr] []) (\<lambda>nodeIDs.
       parse_nodeInfoList jl root is (um_put groupID nodeIDs acc)))))))"

definition parseReceivedJson :: "'j jsonlib \<Rightarrow> string \<Rightarrow> (u32 \<times> nodeids_map) option" where
  "parseReceivedJson jl json =
     option_bind (jl_parse jl json) (\<lambda>root.
     option_bind (jl_member jl root ''statusSeq'') (\<lambda>s.
     option_bind (jl_asUInt jl s) (\<lambda>statusSeq.
     option_bind (jl_member jl root ''nodeInfoList'') (\<lambda>list.
     option_bind (parse_nodeInfoList jl root [0..<jl_size jl list] []) (\<lambda>m.
       Some (statusSeq, m))))))"

definition onReceiveNodeIDs :: "('key, 'more) bcos_fw_scheme \<Rightarrow> 'j jsonlib \<Rightarrow> p2pid \<Rightarrow> string \<Rightarrow>
    node_manager \<Rightarrow> ('key notification list \<times> node_manager) cpp" where
  "onReceiveNodeIDs fw jl p json nm =
     (case parseReceivedJson jl json of None \<Rightarrow> Inr ([], nm)
      | Some (statusSeq, m) \<Rightarrow> updateNodeIDs fw p statusSeq m nm)"

text \<open>\<open>onRequestNodeIDs\<close>: the local table copied into a map of sets, then written.\<close>

definition localGroup2NodeIDs :: "node_manager \<Rightarrow> nodeids_map" where
  "localGroup2NodeIDs nm =
     fold (\<lambda>(g, infos) m. fold (\<lambda>(n, fi) m. um_put g (os_insert n (um_at m g)) m) infos m)
       (m_frontServiceInfos nm) []"

fun build_nodeIDs :: "'j jsonlib \<Rightarrow> 'j \<Rightarrow> nodeid list \<Rightarrow> 'j option" where
  "build_nodeIDs jl jNode [] = Some jNode"
| "build_nodeIDs jl jNode (n # ns) =
     option_bind (jl_member jl jNode ''nodeIDs'') (\<lambda>arr.
     option_bind (jl_append jl arr (jl_string jl n)) (\<lambda>arr'.
     option_bind (jl_set jl jNode ''nodeIDs'' arr') (\<lambda>jNode'. build_nodeIDs jl jNode' ns)))"

fun build_nodeInfoList :: "'j jsonlib \<Rightarrow> 'j \<Rightarrow> nodeids_map \<Rightarrow> 'j option" where
  "build_nodeInfoList jl jArray [] = Some jArray"
| "build_nodeInfoList jl jArray ((g, ns) # rest) =
     option_bind (jl_set jl (jl_null jl) ''groupID'' (jl_string jl g)) (\<lambda>jNode.
     option_bind (jl_set jl jNode ''nodeIDs'' (jl_array jl)) (\<lambda>jNode.
     option_bind (build_nodeIDs jl jNode ns) (\<lambda>jNode.
     option_bind (jl_append jl jArray jNode) (\<lambda>jArray'. build_nodeInfoList jl jArray' rest))))"

definition onRequestNodeIDs :: "'j jsonlib \<Rightarrow> node_manager \<Rightarrow> string" where
  "onRequestNodeIDs jl nm =
     (let json = option_bind (build_nodeInfoList jl (jl_array jl) (localGroup2NodeIDs nm)) (\<lambda>jArray.
            option_bind (jl_set jl (jl_null jl) ''statusSeq'' (jl_uint jl (m_statusSeq nm))) (\<lambda>jResp.
            option_bind (jl_set jl jResp ''nodeInfoList'' jArray) (\<lambda>jResp. jl_write jl jResp)))
      in case json of None \<Rightarrow> [] | Some t \<Rightarrow> t)"

section \<open>The dynamic node manager\<close>

text \<open>
  \<open>DynamicGatewayNodeManager\<close> adds its start time. The timer's \<open>updateFrontServiceInfo()\<close> drops
  the front services whose tars proxy has no active endpoint, but not in the first two minutes
  (the subtraction is that of \<open>uint64_t\<close>); the one with a group adds a client for each started
  node of the group.
\<close>

type_synonym u64 = "64 word"

definition c_tarsAdminRefreshInitTime :: u64 where "c_tarsAdminRefreshInitTime = 120 * 1000"

definition drop_unreachable :: "(nat \<Rightarrow> nat list \<times> nat list) \<Rightarrow>
    (groupid \<times> (nodeid \<times> front_service_info) list) list \<Rightarrow> (groupid \<times> (nodeid \<times> front_service_info) list) list" where
  "drop_unreachable tars fronts =
     filter (\<lambda>(g, nodes). nodes \<noteq> [])
       (map (\<lambda>(g, nodes). (g, filter (\<lambda>(n, fi). \<not> unreachable tars fi) nodes)) fronts)"

definition something_dropped :: "(nat \<Rightarrow> nat list \<times> nat list) \<Rightarrow>
    (groupid \<times> (nodeid \<times> front_service_info) list) list \<Rightarrow> bool" where
  "something_dropped tars fronts =
     list_ex (\<lambda>(g, nodes). nodes = [] \<or> list_ex (\<lambda>(n, fi). unreachable tars fi) nodes) fronts"

definition refresh_fronts :: "(nat \<Rightarrow> nat list \<times> nat list) \<Rightarrow> u64 \<Rightarrow> u64 \<Rightarrow> node_manager \<Rightarrow> bool \<times> node_manager" where
  "refresh_fronts tars now m_startT nm =
     (if now - m_startT < c_tarsAdminRefreshInitTime then (False, nm)
      else let nm' = nm\<lparr>m_frontServiceInfos := drop_unreachable tars (m_frontServiceInfos nm)\<rparr>
           in if something_dropped tars (m_frontServiceInfos nm) then (True, increaseSeq nm') else (False, nm'))"

definition updateFrontServiceInfo :: "('key, 'more) bcos_fw_scheme \<Rightarrow> (nat \<Rightarrow> nat list \<times> nat list) \<Rightarrow>
    u64 \<Rightarrow> u64 \<Rightarrow> node_manager \<Rightarrow> ('key notification list \<times> node_manager) cpp" where
  "updateFrontServiceInfo fw tars now m_startT nm =
     (case refresh_fronts tars now m_startT nm of (updated, nm') \<Rightarrow>
        if updated then cpp_bind (notifyNodeIDs2FrontService fw nm') (\<lambda>ns. Inr (ns, nm')) else Inr ([], nm'))"

record node_info =
  ni_nodeID :: nodeid
  ni_serviceName :: string

fun add_group_nodes :: "(string \<Rightarrow> front_service_info) \<Rightarrow> groupid \<Rightarrow> node_info list \<Rightarrow>
    bool \<Rightarrow> node_manager \<Rightarrow> bool \<times> node_manager" where
  "add_group_nodes createServiceClient g [] updated nm = (updated, nm)"
| "add_group_nodes createServiceClient g (ni # rest) updated nm =
     (if um2_find (m_frontServiceInfos nm) g (ni_nodeID ni) \<noteq> None
      then add_group_nodes createServiceClient g rest updated nm
      else if ni_serviceName ni = []
      then add_group_nodes createServiceClient g rest updated nm
      else add_group_nodes createServiceClient g rest True
             (increaseSeq (nm\<lparr>m_frontServiceInfos := um2_put g (ni_nodeID ni)
                (createServiceClient (ni_serviceName ni)) (m_frontServiceInfos nm)\<rparr>)))"

definition updateFrontServiceInfo_group :: "('key, 'more) bcos_fw_scheme \<Rightarrow> (string \<Rightarrow> front_service_info) \<Rightarrow>
    groupid \<Rightarrow> node_info list \<Rightarrow> node_manager \<Rightarrow> ('key notification list \<times> node_manager) cpp" where
  "updateFrontServiceInfo_group fw createServiceClient g nodes nm =
     (case add_group_nodes createServiceClient g nodes False nm of (updated, nm') \<Rightarrow>
        if updated then cpp_bind (notifyNodeIDs2FrontService fw nm') (\<lambda>ns. Inr (ns, nm')) else Inr ([], nm'))"

end
