(* ===== verification/Node_Routes.thy ===== *)
theory Node_Routes
  imports Node_Manager
begin

text \<open>
  What the operations of the node manager do to its two tables: who can be reached through
  which peer (\<open>route_has\<close>), which nodes are registered here, the invariant that ties the tables
  together, and its preservation by every operation.
\<close>

section \<open>Routes\<close>

definition route_has :: "(groupid \<times> (nodeid \<times> p2pid list) list) list \<Rightarrow> groupid \<Rightarrow> nodeid \<Rightarrow> p2pid \<Rightarrow> bool" where
  "route_has r g n p = (case um2_find r g n of None \<Rightarrow> False | Some ps \<Rightarrow> p \<in> set ps)"

definition routes_ok :: "(groupid \<times> (nodeid \<times> p2pid list) list) list \<Rightarrow> bool" where
  "routes_ok r \<longleftrightarrow> um2_ok r \<and> (\<forall>g n ps. um2_find r g n = Some ps \<longrightarrow> os_ok ps \<and> ps \<noteq> [])"

lemma erase_p2p_eq: "erase_p2p p ps = os_erase p ps"
  by (induction ps) (simp_all add: os_erase_def)

lemma keys_erase_nodes: "fst ` set (erase_p2p_nodes p nodes) \<subseteq> fst ` set nodes"
proof (induction nodes)
  case (Cons x xs)
  obtain a b where "x = (a, b)" by fastforce
  with Cons show ?case by (auto simp: Let_def split: if_splits)
qed simp

lemma keys_erase_groups: "fst ` set (erase_p2p_groups p r) \<subseteq> fst ` set r"
proof (induction r)
  case (Cons x xs)
  obtain a b where "x = (a, b)" by fastforce
  with Cons show ?case by (auto simp: Let_def split: if_splits)
qed simp

lemma um_ok_erase_nodes: "um_ok nodes \<Longrightarrow> um_ok (erase_p2p_nodes p nodes)"
proof (induction p nodes rule: erase_p2p_nodes.induct)
  case (2 p n ps rest)
  then show ?case
    using keys_erase_nodes [of p rest] by (auto simp: um_ok_def Let_def)
qed simp

lemma find_erase_nodes:
  "um_ok nodes \<Longrightarrow> map_of (erase_p2p_nodes p nodes) n =
     (case map_of nodes n of None \<Rightarrow> None
      | Some ps \<Rightarrow> if erase_p2p p ps = [] then None else Some (erase_p2p p ps))"
proof (induction p nodes rule: erase_p2p_nodes.induct)
  case (2 p m ps rest)
  then have "um_ok rest" and "map_of rest m = None"
    by (simp_all add: um_ok_def map_of_eq_None_iff)
  with 2 show ?case by (auto simp: Let_def)
qed simp

lemma um2_ok_Cons: "um2_ok ((g, inner) # m) \<longleftrightarrow>
    g \<notin> fst ` set m \<and> um_ok inner \<and> inner \<noteq> [] \<and> um2_ok m"
  by (auto simp: um2_ok_def um_ok_def)

lemma um2_ok_erase_groups: "um2_ok r \<Longrightarrow> um2_ok (erase_p2p_groups p r)"
proof (induction p r rule: erase_p2p_groups.induct)
  case (2 p g nodes rest)
  then show ?case
    using keys_erase_groups [of p rest] by (auto simp: um2_ok_Cons Let_def um_ok_erase_nodes)
qed simp

lemma um2_find_Cons: "um2_find ((g, inner) # m) g' n = (if g' = g then map_of inner n else um2_find m g' n)"
  by (simp add: um2_find_def)

lemma um2_find_notin: "g \<notin> fst ` set m \<Longrightarrow> um2_find m g n = None"
  by (auto simp: um2_find_def map_of_eq_None_iff dest: map_of_SomeD split: option.split)
    (metis fst_conv image_eqI map_of_SomeD)

lemma um2_find_erase_groups:
  "um2_ok r \<Longrightarrow> um2_find (erase_p2p_groups p r) g n =
     (case um2_find r g n of None \<Rightarrow> None
      | Some ps \<Rightarrow> if erase_p2p p ps = [] then None else Some (erase_p2p p ps))"
proof (induction p r rule: erase_p2p_groups.induct)
  case (2 p h nodes rest)
  then have ok: "um_ok nodes" "um2_ok rest" "h \<notin> fst ` set rest" by (simp_all add: um2_ok_Cons)
  have gone: "um2_find (erase_p2p_groups p rest) h n = None"
    by (rule um2_find_notin) (use ok(3) keys_erase_groups in blast)
  have empty: "erase_p2p_nodes p nodes = [] \<Longrightarrow> map_of nodes n = Some ps \<Longrightarrow> erase_p2p p ps = []" for ps
    using find_erase_nodes [OF ok(1), of p n] by (auto split: if_splits)
  with 2 ok gone show ?case
    by (auto simp: Let_def um2_find_Cons find_erase_nodes split: option.splits if_splits)
qed simp

lemma route_has_erase [um_simps]:
  "routes_ok r \<Longrightarrow> route_has (erase_p2p_groups p r) g n q \<longleftrightarrow> q \<noteq> p \<and> route_has r g n q"
  by (auto simp: route_has_def routes_ok_def um2_find_erase_groups erase_p2p_eq os_erase_def
      filter_empty_conv split: option.split)

lemma routes_ok_erase [simp, intro]: "routes_ok r \<Longrightarrow> routes_ok (erase_p2p_groups p r)"
  by (auto simp: routes_ok_def um2_ok_erase_groups um2_find_erase_groups erase_p2p_eq
      split: option.splits if_splits)

lemma route_has_insert [um_simps]:
  "route_has (route_insert p g n r) g' n' q \<longleftrightarrow> (g' = g \<and> n' = n \<and> q = p) \<or> route_has r g' n' q"
  by (auto simp: route_has_def route_insert_def um2_find_put split: option.split)

lemma routes_ok_insert [simp, intro]: "routes_ok r \<Longrightarrow> routes_ok (route_insert p g n r)"
  by (auto simp: routes_ok_def route_insert_def um2_find_put split: option.splits if_splits)

lemma fold_route_insert:
  "routes_ok r \<Longrightarrow> routes_ok (fold (route_insert p g) ns r)"
  "route_has (fold (route_insert p g) ns r) g' n' q \<longleftrightarrow>
     (g' = g \<and> n' \<in> set ns \<and> q = p) \<or> route_has r g' n' q"
  by (induction ns arbitrary: r) (auto simp: route_has_insert)

definition listed :: "nodeids_map \<Rightarrow> groupid \<Rightarrow> nodeid \<Rightarrow> bool" where
  "listed m g n \<longleftrightarrow> n \<in> set (um_at m g)"

lemma routes_ok_insert_all [simp, intro]: "routes_ok r \<Longrightarrow> routes_ok (insert_routes p m r)"
  unfolding insert_routes_def by (induction m arbitrary: r) (auto simp: fold_route_insert)

lemma listed_Cons:
  "um_ok ((g, ns) # m) \<Longrightarrow> listed ((g, ns) # m) g' n \<longleftrightarrow> (if g' = g then n \<in> set ns else listed m g' n)"
  by (simp add: listed_def um_at_def)

lemma listed_notin: "g \<notin> fst ` set m \<Longrightarrow> \<not> listed m g n"
proof -
  assume "g \<notin> fst ` set m"
  then have "map_of m g = None" by (simp add: map_of_eq_None_iff)
  then show ?thesis by (simp add: listed_def um_at_def)
qed

lemma route_has_insert_all [um_simps]:
  "um_ok m \<Longrightarrow> route_has (insert_routes p m r) g n q \<longleftrightarrow> (q = p \<and> listed m g n) \<or> route_has r g n q"
  unfolding insert_routes_def
proof (induction m arbitrary: r)
  case Nil
  then show ?case by (simp add: listed_def um_at_def)
next
  case (Cons gn m)
  obtain h ns where gn: "gn = (h, ns)" by fastforce
  with Cons.prems have "um_ok m" and h: "h \<notin> fst ` set m" by (simp_all add: um_ok_def)
  with Cons.IH Cons.prems listed_notin [OF h] show ?case
    by (auto simp: gn fold_route_insert listed_Cons)
qed

section \<open>The invariant\<close>

definition nodeids_ok :: "nodeids_map \<Rightarrow> bool" where
  "nodeids_ok m \<longleftrightarrow> um_ok m \<and> list_all (\<lambda>(g, ns). os_ok ns) m"

definition peer_lists :: "node_manager \<Rightarrow> p2pid \<Rightarrow> groupid \<Rightarrow> nodeid \<Rightarrow> bool" where
  "peer_lists nm p g n \<longleftrightarrow> (case map_of (m_nodeIDInfo nm) p of None \<Rightarrow> False | Some m \<Rightarrow> listed m g n)"

definition nm_inv :: "node_manager \<Rightarrow> bool" where
  "nm_inv nm \<longleftrightarrow>
     um2_ok (m_frontServiceInfos nm) \<and> routes_ok (m_peerGatewayNodes nm) \<and>
     um_ok (m_p2pID2Seq nm) \<and> um_ok (m_nodeIDInfo nm) \<and>
     (\<forall>p m. map_of (m_nodeIDInfo nm) p = Some m \<longrightarrow> nodeids_ok m) \<and>
     (\<forall>p. um_has p (m_nodeIDInfo nm) \<longleftrightarrow> um_has p (m_p2pID2Seq nm)) \<and>
     (\<forall>g n p. route_has (m_peerGatewayNodes nm) g n p \<longleftrightarrow> peer_lists nm p g n)"

lemma nm_invD:
  assumes "nm_inv nm"
  shows "um2_ok (m_frontServiceInfos nm)" "routes_ok (m_peerGatewayNodes nm)"
    "um_ok (m_p2pID2Seq nm)" "um_ok (m_nodeIDInfo nm)"
    "map_of (m_nodeIDInfo nm) p = Some m \<Longrightarrow> nodeids_ok m"
    "um_has p (m_nodeIDInfo nm) \<longleftrightarrow> um_has p (m_p2pID2Seq nm)"
    "route_has (m_peerGatewayNodes nm) g n p \<longleftrightarrow> peer_lists nm p g n"
  using assms by (simp_all add: nm_inv_def)

lemma nm_inv_new: "nm_inv (new_node_manager p)"
  by (simp add: nm_inv_def new_node_manager_def routes_ok_def route_has_def peer_lists_def um_has_iff)

lemma nm_inv_fronts:
  "nm_inv nm \<Longrightarrow> um2_ok fs \<Longrightarrow> nm_inv (nm\<lparr>m_frontServiceInfos := fs, m_statusSeq := k\<rparr>)"
  by (simp add: nm_inv_def peer_lists_def)

lemma nm_inv_increaseSeq [simp]: "nm_inv (increaseSeq nm) \<longleftrightarrow> nm_inv nm"
  by (simp add: nm_inv_def increaseSeq_def peer_lists_def)

lemma nm_inv_set_fronts [simp]:
  "nm_inv nm \<Longrightarrow> um2_ok fs \<Longrightarrow> nm_inv (nm\<lparr>m_frontServiceInfos := fs\<rparr>)"
  by (simp add: nm_inv_def peer_lists_def)

text \<open>Removing and learning what a peer has announced, on the level of the tables.\<close>

lemma remove_fields [simp]:
  "m_peerGatewayNodes (removeNodeIDsByP2PID p nm) = erase_p2p_groups p (m_peerGatewayNodes nm)"
  "m_p2pID2Seq (removeNodeIDsByP2PID p nm) = m_p2pID2Seq nm"
  "m_frontServiceInfos (removeNodeIDsByP2PID p nm) = m_frontServiceInfos nm"
  "m_statusSeq (removeNodeIDsByP2PID p nm) = m_statusSeq nm"
  "m_p2pNodeID (removeNodeIDsByP2PID p nm) = m_p2pNodeID nm"
  by (simp_all add: removeNodeIDsByP2PID_def removeNodeIDInfo_def)

lemma remove_info [simp]:
  "m_nodeIDInfo (removeNodeIDsByP2PID p nm) = um_erase p (m_nodeIDInfo nm)"
proof (cases "um_has p (m_nodeIDInfo nm)")
  case True
  then show ?thesis by (simp add: removeNodeIDsByP2PID_def removeNodeIDInfo_def)
next
  case False
  then have "p \<notin> fst ` set (m_nodeIDInfo nm)" by (simp add: um_has_iff map_of_eq_None_iff)
  with False show ?thesis by (simp add: removeNodeIDsByP2PID_def removeNodeIDInfo_def delete_id)
qed

lemma apply_fields [simp]:
  "m_peerGatewayNodes (apply_nodeIDs p k m nm) = insert_routes p m (erase_p2p_groups p (m_peerGatewayNodes nm))"
  "m_p2pID2Seq (apply_nodeIDs p k m nm) = um_put p k (m_p2pID2Seq nm)"
  "m_frontServiceInfos (apply_nodeIDs p k m nm) = m_frontServiceInfos nm"
  "m_statusSeq (apply_nodeIDs p k m nm) = m_statusSeq nm"
  "m_nodeIDInfo (apply_nodeIDs p k m nm) = um_put p m (um_erase p (m_nodeIDInfo nm))"
  "m_p2pNodeID (apply_nodeIDs p k m nm) = m_p2pNodeID nm"
  by (simp_all add: apply_nodeIDs_def updateNodeIDInfo_def Let_def)

lemma forget_fields [simp]:
  "m_peerGatewayNodes (forget_peer p nm) = erase_p2p_groups p (m_peerGatewayNodes nm)"
  "m_p2pID2Seq (forget_peer p nm) = um_erase p (m_p2pID2Seq nm)"
  "m_frontServiceInfos (forget_peer p nm) = m_frontServiceInfos nm"
  "m_statusSeq (forget_peer p nm) = m_statusSeq nm"
  "m_nodeIDInfo (forget_peer p nm) = um_erase p (m_nodeIDInfo nm)"
  "m_p2pNodeID (forget_peer p nm) = m_p2pNodeID nm"
  by (simp_all add: forget_peer_def Let_def)

lemma peer_lists_apply:
  "peer_lists (apply_nodeIDs p k m nm) q g n \<longleftrightarrow> (if q = p then listed m g n else peer_lists nm q g n)"
  by (simp add: peer_lists_def um_simps)

lemma peer_lists_forget:
  "peer_lists (forget_peer p nm) q g n \<longleftrightarrow> q \<noteq> p \<and> peer_lists nm q g n"
  by (simp add: peer_lists_def um_simps)

lemma nm_inv_apply:
  assumes inv: "nm_inv nm" and ok: "nodeids_ok m"
  shows "nm_inv (apply_nodeIDs p k m nm)"
proof -
  have "um_ok m" using ok by (simp add: nodeids_ok_def)
  then have "route_has (m_peerGatewayNodes (apply_nodeIDs p k m nm)) g n q
      \<longleftrightarrow> peer_lists (apply_nodeIDs p k m nm) q g n" for g n q
    using nm_invD(2,7) [OF inv] by (auto simp: peer_lists_apply um_simps)
  moreover have "um_has q (m_nodeIDInfo (apply_nodeIDs p k m nm))
      \<longleftrightarrow> um_has q (m_p2pID2Seq (apply_nodeIDs p k m nm))" for q
    using nm_invD(6) [OF inv, of q] by (simp add: um_has_iff um_simps)
  ultimately show ?thesis
    using nm_invD(1-5) [OF inv] ok by (simp add: nm_inv_def um_simps)
qed

lemma nm_inv_forget:
  assumes inv: "nm_inv nm"
  shows "nm_inv (forget_peer p nm)"
proof -
  have "route_has (m_peerGatewayNodes (forget_peer p nm)) g n q \<longleftrightarrow> peer_lists (forget_peer p nm) q g n" for g n q
    using nm_invD(2,7) [OF inv] by (auto simp: peer_lists_forget um_simps)
  moreover have "um_has q (m_nodeIDInfo (forget_peer p nm)) \<longleftrightarrow> um_has q (m_p2pID2Seq (forget_peer p nm))" for q
    using nm_invD(6) [OF inv, of q] by (simp add: um_has_iff um_simps)
  ultimately show ?thesis
    using nm_invD(1-5) [OF inv] by (simp add: nm_inv_def um_simps split: if_splits)
qed

text \<open>The local operations.\<close>

lemma registerFrontService_eq:
  "registerFrontService fw g n front nm =
     (if um2_find (m_frontServiceInfos nm) g (keyHex fw n) \<noteq> None then (False, nm)
      else (True, nm\<lparr>m_frontServiceInfos := um2_put g (keyHex fw n)
              \<lparr>m_frontService = front, m_frontServicePrx = None\<rparr> (m_frontServiceInfos nm),
              m_statusSeq := m_statusSeq nm + 1\<rparr>))"
  by (simp add: registerFrontService_def um2_find_def um_has_iff increaseSeq_def Let_def split: option.split)

lemma unregisterFrontService_eq:
  "unregisterFrontService fw g n nm =
     (if um2_find (m_frontServiceInfos nm) g (keyHex fw n) = None then (False, nm)
      else (True, nm\<lparr>m_frontServiceInfos := um2_erase g (keyHex fw n) (m_frontServiceInfos nm),
              m_statusSeq := m_statusSeq nm + 1\<rparr>))"
  by (simp add: unregisterFrontService_def um2_find_def um_has_iff increaseSeq_def split: option.split)

lemma map_filter_keys: "map fst (map (\<lambda>(g, nodes). (g, f nodes)) m) = map fst m"
  by (induction m) auto

lemma um2_ok_drop_unreachable: "um2_ok fs \<Longrightarrow> um2_ok (drop_unreachable tars fs)"
proof -
  assume ok: "um2_ok fs"
  let ?m = "map (\<lambda>(g, nodes). (g, filter (\<lambda>(n, fi). \<not> unreachable tars fi) nodes)) fs"
  have "um_ok ?m" using ok by (simp only: um_ok_def map_filter_keys) (simp add: um2_ok_def um_ok_def)
  then have "um_ok (drop_unreachable tars fs)" unfolding drop_unreachable_def by (rule um_ok_filter)
  moreover have "um_ok inner \<and> inner \<noteq> []" if "(g, inner) \<in> set (drop_unreachable tars fs)" for g inner
    using that ok by (auto simp: drop_unreachable_def um2_ok_def list_all_iff)
  ultimately show ?thesis by (auto simp: um2_ok_def list_all_iff)
qed

lemma nm_inv_refresh: "nm_inv nm \<Longrightarrow> nm_inv (snd (refresh_fronts tars now st nm))"
  by (simp add: refresh_fronts_def Let_def um2_ok_drop_unreachable nm_invD(1))

lemma nm_inv_add_group_nodes:
  "nm_inv nm \<Longrightarrow> nm_inv (snd (add_group_nodes mk g nodes updated nm))"
  by (induction mk g nodes updated nm rule: add_group_nodes.induct) (simp_all add: nm_invD(1))

end
