(* ===== verification/Node_Gossip.thy ===== *)
theory Node_Gossip
  imports Node_Routes
begin

text \<open>
  The gossip of the node manager: the JSON it answers with and reads back, the two contracts of
  \<open>Seq_Gossip\<close> interpreted on its operations, and the properties of the component.
\<close>

section \<open>The local table\<close>

definition registered :: "node_manager \<Rightarrow> groupid \<Rightarrow> nodeid \<Rightarrow> bool" where
  "registered nm g n \<longleftrightarrow> um2_find (m_frontServiceInfos nm) g n \<noteq> None"

lemma nodeids_ok_Nil [simp]: "nodeids_ok []"
  by (simp add: nodeids_ok_def)

lemma nodeids_ok_put: "nodeids_ok m \<Longrightarrow> os_ok ns \<Longrightarrow> nodeids_ok (um_put g ns m)"
  using set_update_subset [of g ns m] by (auto simp: nodeids_ok_def list_all_iff)

lemma nodeids_ok_at: "nodeids_ok m \<Longrightarrow> os_ok (um_at m g)"
  by (auto simp: nodeids_ok_def um_at_def list_all_iff dest: map_of_SomeD split: option.split)

lemma listed_put: "listed (um_put g ns m) g' n \<longleftrightarrow> (if g' = g then n \<in> set ns else listed m g' n)"
  by (simp add: listed_def um_at_def um_simps)

lemma listed_insert:
  "listed (um_put g (os_insert n (um_at m g)) m) g' x \<longleftrightarrow> (g' = g \<and> x = n) \<or> listed m g' x"
  by (auto simp: listed_put) (auto simp: listed_def)

lemma nodeids_ok_insert: "nodeids_ok m \<Longrightarrow> nodeids_ok (um_put g (os_insert n (um_at m g)) m)"
  by (simp add: nodeids_ok_put nodeids_ok_at)

lemma fold_local_group:
  fixes infos :: "(nodeid \<times> front_service_info) list"
  defines "f \<equiv> \<lambda>g. fold (\<lambda>(n, fi) m. um_put g (os_insert n (um_at m g)) m) infos"
  shows "nodeids_ok m \<Longrightarrow> nodeids_ok (f g m)"
    and "listed (f g m) g' n \<longleftrightarrow> (g' = g \<and> n \<in> fst ` set infos) \<or> listed m g' n"
proof -
  show "nodeids_ok m \<Longrightarrow> nodeids_ok (f g m)"
    unfolding f_def by (induction infos arbitrary: m) (simp_all add: nodeids_ok_insert split: prod.split)
  show "listed (f g m) g' n \<longleftrightarrow> (g' = g \<and> n \<in> fst ` set infos) \<or> listed m g' n"
    unfolding f_def
  proof (induction infos arbitrary: m)
    case (Cons nf infos)
    then show ?case by (cases nf) (auto simp: listed_insert)
  qed simp
qed

lemma fold_local:
  fixes fs :: "(groupid \<times> (nodeid \<times> front_service_info) list) list"
  defines "f \<equiv> fold (\<lambda>(g, infos) m. fold (\<lambda>(n, fi) m. um_put g (os_insert n (um_at m g)) m) infos m) fs"
  shows "nodeids_ok m \<Longrightarrow> nodeids_ok (f m)"
    and "listed (f m) g n \<longleftrightarrow> (\<exists>infos. (g, infos) \<in> set fs \<and> n \<in> fst ` set infos) \<or> listed m g n"
proof -
  show "nodeids_ok m \<Longrightarrow> nodeids_ok (f m)"
    unfolding f_def by (induction fs arbitrary: m) (auto simp: fold_local_group(1))
  show "listed (f m) g n \<longleftrightarrow> (\<exists>infos. (g, infos) \<in> set fs \<and> n \<in> fst ` set infos) \<or> listed m g n"
    unfolding f_def
  proof (induction fs arbitrary: m)
    case (Cons gi fs)
    obtain h infos where "gi = (h, infos)" by fastforce
    with Cons show ?case by (simp add: fold_local_group(2)) blast
  qed simp
qed

lemma localGroup2NodeIDs_ok: "nodeids_ok (localGroup2NodeIDs nm)"
  by (simp add: localGroup2NodeIDs_def fold_local(1))

lemma listed_local:
  assumes "um2_ok (m_frontServiceInfos nm)"
  shows "listed (localGroup2NodeIDs nm) g n \<longleftrightarrow> registered nm g n"
proof -
  have "listed (localGroup2NodeIDs nm) g n \<longleftrightarrow>
      (\<exists>infos. (g, infos) \<in> set (m_frontServiceInfos nm) \<and> n \<in> fst ` set infos)"
    by (simp add: localGroup2NodeIDs_def fold_local(2)) (simp add: listed_def um_at_def)
  also have "\<dots> \<longleftrightarrow> (\<exists>fi infos. (g, infos) \<in> set (m_frontServiceInfos nm) \<and> (n, fi) \<in> set infos)"
    by force
  also have "\<dots> \<longleftrightarrow> (\<exists>fi. um2_find (m_frontServiceInfos nm) g n = Some fi)"
    using um2_find_mem [OF assms] by blast
  finally show ?thesis by (auto simp: registered_def)
qed

section \<open>The JSON of the table\<close>

definition group_doc :: "groupid \<times> nodeid list \<Rightarrow> jdoc" where
  "group_doc gn = JObject [''groupID'' \<mapsto> JString (fst gn), ''nodeIDs'' \<mapsto> JArray (map JString (snd gn))]"

definition table_doc :: "u32 \<Rightarrow> nodeids_map \<Rightarrow> jdoc" where
  "table_doc seq m = JObject [''statusSeq'' \<mapsto> JUInt seq, ''nodeInfoList'' \<mapsto> JArray (map group_doc m)]"

definition plain_map :: "nodeids_map \<Rightarrow> bool" where
  "plain_map m = list_all (\<lambda>(g, ns). plain_string g \<and> list_all plain_string ns) m"

lemma plain_table_doc: "plain_map m \<Longrightarrow> plain_doc (table_doc seq m)"
proof -
  assume m: "plain_map m"
  have "plain_string ''groupID''" "plain_string ''nodeIDs''" "plain_string ''statusSeq''"
    "plain_string ''nodeInfoList''" by (simp_all add: plain_string_def)
  moreover have "plain_doc (group_doc gn)" if "gn \<in> set m" for gn
  proof -
    obtain g ns where gn: "gn = (g, ns)" by fastforce
    then have "plain_string g" and "\<forall>x \<in> set ns. plain_string x"
      using that m by (auto simp: plain_map_def list_all_iff)
    with calculation show ?thesis unfolding group_doc_def gn
      by (intro plain_doc.intros) (auto simp: list_all_iff split: if_splits intro!: plain_doc.intros)
  qed
  ultimately show ?thesis
    unfolding table_doc_def
    by (intro plain_doc.intros) (auto simp: list_all_iff split: if_splits intro!: plain_doc.intros)
qed

lemma build_nodeIDs_view:
  assumes jl: "json_spec jl view"
  shows "view v = JObject f \<Longrightarrow> f ''nodeIDs'' = Some (JArray ds) \<Longrightarrow>
    \<exists>v'. build_nodeIDs jl v ns = Some v' \<and> view v' = JObject (f(''nodeIDs'' \<mapsto> JArray (ds @ map JString ns)))"
proof (induction ns arbitrary: v f ds)
  case Nil
  then show ?case by (simp add: fun_upd_idem)
next
  case (Cons n ns)
  obtain arr where arr: "jl_member jl v ''nodeIDs'' = Some arr" "view arr = JArray ds"
    using json_laws(2) [OF jl Cons.prems] by blast
  obtain arr' where arr': "jl_append jl arr (jl_string jl n) = Some arr'" "view arr' = JArray (ds @ [JString n])"
    using json_laws(12) [OF jl arr(2), of "jl_string jl n"] json_laws(10) [OF jl] by auto
  obtain v1 where v1: "jl_set jl v ''nodeIDs'' arr' = Some v1"
      "view v1 = JObject (f(''nodeIDs'' \<mapsto> JArray (ds @ [JString n])))"
    using json_laws(11) [OF jl, of v f "''nodeIDs''" arr'] Cons.prems(1) arr'(2) by (auto simp: object_of_def)
  show ?case
    using Cons.IH [OF v1(2), of "ds @ [JString n]", unfolded fun_upd_upd] arr arr' v1
    by (simp del: fun_upd_apply add: fun_upd_same)
qed

lemma build_nodeInfoList_view:
  assumes jl: "json_spec jl view"
  shows "view v = JArray ds \<Longrightarrow>
    \<exists>v'. build_nodeInfoList jl v m = Some v' \<and> view v' = JArray (ds @ map group_doc m)"
proof (induction m arbitrary: v ds)
  case Nil
  then show ?case by simp
next
  case (Cons gn m)
  obtain g ns where gn: "gn = (g, ns)" by fastforce
  obtain v1 where v1: "jl_set jl (jl_null jl) ''groupID'' (jl_string jl g) = Some v1"
      "view v1 = JObject [''groupID'' \<mapsto> JString g]"
    using json_laws(11) [OF jl, of "jl_null jl" Map.empty "''groupID''" "jl_string jl g"]
      json_laws(7,10) [OF jl] by (auto simp: object_of_def)
  obtain v2 where v2: "jl_set jl v1 ''nodeIDs'' (jl_array jl) = Some v2"
      "view v2 = JObject [''groupID'' \<mapsto> JString g, ''nodeIDs'' \<mapsto> JArray []]"
    using json_laws(11) [OF jl, of v1 _ "''nodeIDs''" "jl_array jl"] v1(2) json_laws(8) [OF jl]
    by (auto simp: object_of_def)
  obtain v3 where v3: "build_nodeIDs jl v2 ns = Some v3" "view v3 = group_doc gn"
    using build_nodeIDs_view [OF jl v2(2), of "[]" ns, unfolded fun_upd_upd]
    by (auto simp del: fun_upd_apply simp: fun_upd_same group_doc_def gn)
  obtain v4 where v4: "jl_append jl v v3 = Some v4" "view v4 = JArray (ds @ [group_doc gn])"
    using json_laws(12) [OF jl Cons.prems, of v3] v3(2) by auto
  from Cons.IH [OF v4(2)] v1 v2 v3 v4 show ?case by (simp add: gn)
qed

lemma onRequestNodeIDs_text:
  assumes jl: "json_spec jl view" and plain: "plain_map (localGroup2NodeIDs nm)"
  shows "\<exists>v. onRequestNodeIDs jl nm \<noteq> [] \<and> jl_parse jl (onRequestNodeIDs jl nm) = Some v \<and>
    view v = table_doc (m_statusSeq nm) (localGroup2NodeIDs nm)"
proof -
  let ?m = "localGroup2NodeIDs nm"
  obtain v1 where v1: "build_nodeInfoList jl (jl_array jl) ?m = Some v1" "view v1 = JArray (map group_doc ?m)"
    using build_nodeInfoList_view [OF jl, of "jl_array jl" "[]" ?m] json_laws(8) [OF jl] by auto
  obtain v2 where v2: "jl_set jl (jl_null jl) ''statusSeq'' (jl_uint jl (m_statusSeq nm)) = Some v2"
      "view v2 = JObject [''statusSeq'' \<mapsto> JUInt (m_statusSeq nm)]"
    using json_laws(11) [OF jl, of "jl_null jl" Map.empty "''statusSeq''" "jl_uint jl (m_statusSeq nm)"]
      json_laws(7,9) [OF jl] by (auto simp: object_of_def)
  obtain v3 where v3: "jl_set jl v2 ''nodeInfoList'' v1 = Some v3" "view v3 = table_doc (m_statusSeq nm) ?m"
    using json_laws(11) [OF jl, of v2 _ "''nodeInfoList''" v1] v2(2) v1(2)
    by (auto simp: object_of_def table_doc_def)
  obtain t v4 where "jl_write jl v3 = Some t" "t \<noteq> []" "jl_parse jl t = Some v4" "view v4 = view v3"
    using json_laws(1) [OF jl, of v3] plain_table_doc [OF plain] v3(2) by auto
  with v1 v2 v3 show ?thesis by (simp add: onRequestNodeIDs_def)
qed

lemma parse_nodeIDs_view:
  assumes jl: "json_spec jl view" and arr: "view arr = JArray (map JString ns)"
  shows "list_all (\<lambda>j. j < length ns) js \<Longrightarrow>
    parse_nodeIDs jl arr js acc = Some (fold os_insert (map ((!) ns) js) acc)"
proof (induction js arbitrary: acc)
  case (Cons j js)
  then obtain v where v: "jl_index jl arr j = Some v" "view v = JString (ns ! j)"
    using json_laws(3) [OF jl arr, of j] by auto
  have "jl_asString jl v = Some (ns ! j)" by (rule json_laws(6) [OF jl v(2)])
  with v Cons show ?case by simp
qed simp

lemma parse_nodeInfoList_view:
  assumes jl: "json_spec jl view" and root: "view root = JObject f"
    "f ''nodeInfoList'' = Some (JArray (map group_doc m))"
  shows "list_all (\<lambda>i. i < length m) is \<Longrightarrow>
    parse_nodeInfoList jl root is acc
      = Some (fold (\<lambda>(g, ns) acc. um_put g (os_insert_all ns []) acc) (map ((!) m) is) acc)"
proof (induction "is" arbitrary: acc)
  case (Cons i "is")
  obtain g ns where gn: "m ! i = (g, ns)" by fastforce
  obtain list where list: "jl_member jl root ''nodeInfoList'' = Some list" "view list = JArray (map group_doc m)"
    using json_laws(2) [OF jl root] by blast
  obtain v where v: "jl_index jl list i = Some v" "view v = group_doc (g, ns)"
    using json_laws(3) [OF jl list(2), of i] Cons.prems gn by auto
  obtain vg where vg: "jl_member jl v ''groupID'' = Some vg" "view vg = JString g"
    using json_laws(2) [OF jl v(2) [unfolded group_doc_def], of "''groupID''"] by auto
  obtain arr where arr: "jl_member jl v ''nodeIDs'' = Some arr" "view arr = JArray (map JString ns)"
    using json_laws(2) [OF jl v(2) [unfolded group_doc_def], of "''nodeIDs''"] by auto
  have "jl_size jl arr = length ns" using json_laws(4) [OF jl arr(2)] by simp
  then have "parse_nodeIDs jl arr [0..<jl_size jl arr] [] = Some (os_insert_all ns [])"
    using parse_nodeIDs_view [OF jl arr(2), of "[0..<length ns]"]
    by (simp add: list_all_iff os_insert_all_def map_nth)
  moreover have "jl_asString jl vg = Some g" by (rule json_laws(6) [OF jl vg(2)])
  ultimately show ?case using Cons list v vg arr gn by simp
qed simp

lemma os_insert_all_sorted: "os_ok ns \<Longrightarrow> os_insert_all ns [] = ns"
  by (rule os_eqI) auto

lemma update_new: "g \<notin> fst ` set m \<Longrightarrow> um_put g v m = m @ [(g, v)]"
  by (induction m) auto

lemma fold_table:
  "nodeids_ok (acc @ m) \<Longrightarrow>
   fold (\<lambda>(g, ns) acc. um_put g (os_insert_all ns []) acc) m acc = acc @ m"
proof (induction m arbitrary: acc)
  case (Cons gn m)
  obtain g ns where gn: "gn = (g, ns)" by fastforce
  have "g \<notin> fst ` set acc" and "os_ok ns"
    using Cons.prems by (auto simp: nodeids_ok_def um_ok_def gn)
  then show ?case using Cons.IH [of "acc @ [gn]"] Cons.prems
    by (simp add: gn os_insert_all_sorted update_new)
qed simp

lemma parse_table:
  assumes jl: "json_spec jl view" and parsed: "jl_parse jl t = Some v" "view v = table_doc seq m"
    and m: "nodeids_ok m"
  shows "parseReceivedJson jl t = Some (seq, m)"
proof -
  obtain s where s: "jl_member jl v ''statusSeq'' = Some s" "view s = JUInt seq"
    using json_laws(2) [OF jl parsed(2) [unfolded table_doc_def], of "''statusSeq''"] by auto
  have list_at: "[''statusSeq'' \<mapsto> JUInt seq, ''nodeInfoList'' \<mapsto> JArray (map group_doc m)] ''nodeInfoList''
      = Some (JArray (map group_doc m))" by simp
  obtain list where list: "jl_member jl v ''nodeInfoList'' = Some list" "view list = JArray (map group_doc m)"
    using json_laws(2) [OF jl parsed(2) [unfolded table_doc_def] list_at] by blast
  have "jl_size jl list = length m" using json_laws(4) [OF jl list(2)] by simp
  then have "parse_nodeInfoList jl v [0..<jl_size jl list] [] = Some m"
    using parse_nodeInfoList_view [OF jl parsed(2) [unfolded table_doc_def] list_at, of "[0..<length m]" "[]"]
      fold_table [of "[]" m] m by (simp add: list_all_iff map_nth)
  with s list parsed(1) json_laws(5) [OF jl s(2)] show ?thesis by (simp add: parseReceivedJson_def)
qed

lemma request_answer:
  assumes "json_spec jl view" and "plain_map (localGroup2NodeIDs nm)"
  shows "parseReceivedJson jl (onRequestNodeIDs jl nm) = Some (m_statusSeq nm, localGroup2NodeIDs nm)"
  using onRequestNodeIDs_text [OF assms] parse_table [OF assms(1) _ _ localGroup2NodeIDs_ok] by blast

text \<open>Whatever text arrives, what is parsed from it is a map of sets.\<close>

lemma parse_nodeIDs_ok: "parse_nodeIDs jl arr js acc = Some ns \<Longrightarrow> os_ok acc \<Longrightarrow> os_ok ns"
proof (induction jl arr js acc rule: parse_nodeIDs.induct)
  case (2 jl arr j js acc)
  then show ?case by (cases "jl_index jl arr j"; cases "jl_asString jl (the (jl_index jl arr j))") auto
qed simp

lemma option_bind_Some: "option_bind x f = Some y \<longleftrightarrow> (\<exists>a. x = Some a \<and> f a = Some y)"
  by (cases x) auto

lemma parse_nodeInfoList_ok:
  "parse_nodeInfoList jl root is acc = Some m \<Longrightarrow> nodeids_ok acc \<Longrightarrow> nodeids_ok m"
proof (induction "is" arbitrary: acc)
  case (Cons i "is")
  from Cons.prems(1) obtain groupID nodeIDs arr
    where "parse_nodeIDs jl arr [0..<jl_size jl arr] [] = Some nodeIDs"
      and "parse_nodeInfoList jl root is (um_put groupID nodeIDs acc) = Some m"
    by (auto simp: option_bind_Some)
  with Cons.IH Cons.prems(2) show ?case
    using parse_nodeIDs_ok [of jl arr _ "[]"] nodeids_ok_put by (metis os_ok_Nil)
qed simp

lemma parseReceivedJson_ok: "parseReceivedJson jl t = Some (seq, m) \<Longrightarrow> nodeids_ok m"
  using parse_nodeInfoList_ok [of jl _ _ "[]" m] by (auto simp: parseReceivedJson_def option_bind_Some)

section \<open>Notifications\<close>

text \<open>A registered node id is the hex text of a key, so it converts back.\<close>

definition hex_fronts :: "('key, 'more) bcos_fw_scheme \<Rightarrow> node_manager \<Rightarrow> bool" where
  "hex_fronts fw nm =
     list_all (\<lambda>(g, fronts). list_all (\<lambda>(n, fi). fromHexString fw n \<noteq> None) fronts) (m_frontServiceInfos nm)"

definition node_keys :: "('key, 'more) bcos_fw_scheme \<Rightarrow> nodeid list \<Rightarrow> 'key list" where
  "node_keys fw ns = concat (map (\<lambda>n. case fromHexString fw n of None \<Rightarrow> [] | Some b \<Rightarrow> [createKey fw b]) ns)"

text \<open>The nodes of a group that are known here: the registered ones, then those of the peers.\<close>

definition group_nodes :: "node_manager \<Rightarrow> groupid \<Rightarrow> nodeid list" where
  "group_nodes nm g = map fst (um_at (m_frontServiceInfos nm) g) @ map fst (um_at (m_peerGatewayNodes nm) g)"

lemma queryLocal_fold:
  assumes "list_all (\<lambda>(n, fi). fromHexString fw n \<noteq> None) fronts"
  shows "fold (\<lambda>(n, fi) acc. cpp_bind acc (\<lambda>ids.
      case fromHexString fw n of None \<Rightarrow> Inl NullPointer | Some b \<Rightarrow> Inr (ids @ [createKey fw b]))) fronts (Inr ids)
    = Inr (ids @ node_keys fw (map fst fronts))"
  using assms by (induction fronts arbitrary: ids) (auto simp: node_keys_def)

lemma hex_fronts_at: "hex_fronts fw nm \<Longrightarrow> list_all (\<lambda>(n, fi). fromHexString fw n \<noteq> None) (um_at (m_frontServiceInfos nm) g)"
  by (cases "map_of (m_frontServiceInfos nm) g")
    (fastforce simp: hex_fronts_def um_at_def list_all_iff dest: map_of_SomeD)+

lemma queryNodeIDsByGroupID_eq:
  assumes "hex_fronts fw nm"
  shows "queryNodeIDsByGroupID fw g nm ids
    = Inr (um_has g (m_peerGatewayNodes nm), ids @ node_keys fw (group_nodes nm g))"
proof -
  have peers: "concat (map (\<lambda>(n, ps). case fromHexString fw n of None \<Rightarrow> [] | Some b \<Rightarrow> [createKey fw b]) nodes)
      = node_keys fw (map fst nodes)" for nodes :: "(nodeid \<times> p2pid list) list"
    by (simp add: node_keys_def o_def case_prod_unfold)
  have "node_keys fw (xs @ ys) = node_keys fw xs @ node_keys fw ys" for xs ys
    by (simp add: node_keys_def)
  then show ?thesis
    using queryLocal_fold [OF hex_fronts_at [OF assms]]
    by (simp add: queryNodeIDsByGroupID_def queryLocalNodeIDsByGroup_def peers group_nodes_def
        um_at_def um_has_def node_keys_def split: option.split)
qed

lemma notify_eq:
  assumes "hex_fronts fw nm"
  shows "notifyNodeIDs2FrontService fw nm = Inr (concat (map (\<lambda>(g, fronts).
    map (\<lambda>(n, fi). \<lparr>nt_front = m_frontService fi, nt_group = g, nt_nodeIDs = node_keys fw (group_nodes nm g)\<rparr>) fronts)
    (m_frontServiceInfos nm)))"
proof -
  have "fold (\<lambda>(g, fronts) acc. cpp_bind acc (\<lambda>ns.
        cpp_bind (queryNodeIDsByGroupID fw g nm []) (\<lambda>(found, nodeIDs).
          Inr (ns @ map (\<lambda>(n, fi). \<lparr>nt_front = m_frontService fi, nt_group = g, nt_nodeIDs = nodeIDs\<rparr>) fronts))))
      fs (Inr acc) = Inr (acc @ concat (map (\<lambda>(g, fronts). map (\<lambda>(n, fi).
        \<lparr>nt_front = m_frontService fi, nt_group = g, nt_nodeIDs = node_keys fw (group_nodes nm g)\<rparr>) fronts) fs))" for fs acc
    by (induction fs arbitrary: acc) (auto simp: queryNodeIDsByGroupID_eq [OF assms])
  from this [of "m_frontServiceInfos nm" "[]"] show ?thesis
    unfolding notifyNodeIDs2FrontService_def by simp
qed

lemma hex_fronts_same: "m_frontServiceInfos nm' = m_frontServiceInfos nm \<Longrightarrow> hex_fronts fw nm' = hex_fronts fw nm"
  by (simp add: hex_fronts_def)

lemma updateNodeIDs_eq:
  assumes "hex_fronts fw nm"
  shows "\<exists>ns. updateNodeIDs fw p seq m nm = Inr (ns, apply_nodeIDs p seq m nm)"
  using notify_eq [of fw "apply_nodeIDs p seq m nm"] assms
  by (simp add: updateNodeIDs_def Let_def hex_fronts_def)

section \<open>The contracts of the gossip\<close>

definition peer_view :: "node_manager \<Rightarrow> p2pid \<Rightarrow> (groupid \<times> nodeid) set" where
  "peer_view nm p = {(g, n). route_has (m_peerGatewayNodes nm) g n p}"

definition map_view :: "nodeids_map \<Rightarrow> (groupid \<times> nodeid) set" where
  "map_view m = {(g, n). listed m g n}"

definition local_view :: "node_manager \<Rightarrow> (groupid \<times> nodeid) set" where
  "local_view nm = {(g, n). registered nm g n}"

lemma map_view_local: "um2_ok (m_frontServiceInfos nm) \<Longrightarrow> map_view (localGroup2NodeIDs nm) = local_view nm"
  by (simp add: map_view_def local_view_def listed_local)

interpretation node_cache: forgetting_cache nm_inv nodeids_ok apply_nodeIDs onReceiveStatusSeq peer_view map_view
  forget_peer "{}"
proof unfold_locales
  fix s v p n
  assume inv: "nm_inv s" and ok: "nodeids_ok v"
  then show "nm_inv (apply_nodeIDs p n v s)" by (rule nm_inv_apply)
  fix q k
  show "onReceiveStatusSeq q k (apply_nodeIDs p n v s)
      \<longleftrightarrow> (if q = p then k \<noteq> n else onReceiveStatusSeq q k s)"
    by (simp add: onReceiveStatusSeq_def um_simps)
  have "um_ok v" using ok by (simp add: nodeids_ok_def)
  then show "peer_view (apply_nodeIDs p n v s) q = (if q = p then map_view v else peer_view s q)"
    using nm_invD(2) [OF inv] by (auto simp: peer_view_def map_view_def um_simps)
next
  fix s p q k
  assume inv: "nm_inv s"
  then show "nm_inv (forget_peer p s)" by (rule nm_inv_forget)
  show "onReceiveStatusSeq q k (forget_peer p s) \<longleftrightarrow> q = p \<or> onReceiveStatusSeq q k s"
    by (simp add: onReceiveStatusSeq_def um_simps)
  show "peer_view (forget_peer p s) q = (if q = p then {} else peer_view s q)"
    using nm_invD(2) [OF inv] by (auto simp: peer_view_def um_simps)
qed

text \<open>The operations on the registered nodes, and the states they lead through.\<close>

datatype 'key local_op =
    Register groupid 'key nat
  | Unregister groupid 'key
  | Refresh "nat \<Rightarrow> nat list \<times> nat list" u64 u64
  | GroupStarted "string \<Rightarrow> front_service_info" groupid "node_info list"

fun local_step :: "('key, 'more) bcos_fw_scheme \<Rightarrow> 'key local_op \<Rightarrow> node_manager \<Rightarrow> node_manager" where
  "local_step fw (Register g n front) nm = snd (registerFrontService fw g n front nm)"
| "local_step fw (Unregister g n) nm = snd (unregisterFrontService fw g n nm)"
| "local_step fw (Refresh tars now startT) nm = snd (refresh_fronts tars now startT nm)"
| "local_step fw (GroupStarted mk g nodes) nm = snd (add_group_nodes mk g nodes False nm)"

fun seq_cost :: "'key local_op \<Rightarrow> nat" where
  "seq_cost (GroupStarted mk g nodes) = length nodes"
| "seq_cost _ = 1"

lemma nothing_dropped: "\<not> something_dropped tars fs \<Longrightarrow> drop_unreachable tars fs = fs"
proof (induction fs)
  case (Cons gn fs)
  obtain g nodes where gn: "gn = (g, nodes)" by fastforce
  have "filter (\<lambda>(n, fi). \<not> unreachable tars fi) nodes = nodes"
    using Cons.prems by (auto simp: something_dropped_def gn list_ex_iff filter_id_conv)
  with Cons show ?case by (simp add: something_dropped_def drop_unreachable_def gn)
qed (simp add: drop_unreachable_def)

lemma refresh_bump:
  "\<exists>k \<le> 1. m_statusSeq (snd (refresh_fronts tars now st nm)) = m_statusSeq nm + of_nat k \<and>
     (k = 0 \<longrightarrow> local_view (snd (refresh_fronts tars now st nm)) = local_view nm)"
proof (cases "now - st < c_tarsAdminRefreshInitTime \<or> \<not> something_dropped tars (m_frontServiceInfos nm)")
  case True
  then have "snd (refresh_fronts tars now st nm) = nm"
    by (auto simp: refresh_fronts_def Let_def nothing_dropped)
  then show ?thesis by (intro exI [of _ 0]) simp
next
  case False
  then show ?thesis by (intro exI [of _ 1]) (simp add: refresh_fronts_def Let_def increaseSeq_def)
qed

lemma add_group_bump:
  "\<exists>k \<le> length nodes. m_statusSeq (snd (add_group_nodes mk g nodes u nm)) = m_statusSeq nm + of_nat k \<and>
     (k = 0 \<longrightarrow> local_view (snd (add_group_nodes mk g nodes u nm)) = local_view nm)"
proof (induction mk g nodes u nm rule: add_group_nodes.induct)
  case (1 mk g u nm)
  then show ?case by simp
next
  case (2 mk g ni rest u nm)
  let ?skip = "um2_find (m_frontServiceInfos nm) g (ni_nodeID ni) \<noteq> None \<or> ni_serviceName ni = []"
  let ?nm = "increaseSeq (nm\<lparr>m_frontServiceInfos := um2_put g (ni_nodeID ni)
                (mk (ni_serviceName ni)) (m_frontServiceInfos nm)\<rparr>)"
  show ?case
  proof (cases ?skip)
    case True
    then have "add_group_nodes mk g (ni # rest) u nm = add_group_nodes mk g rest u nm" by auto
    moreover obtain k where "k \<le> length rest"
        "m_statusSeq (snd (add_group_nodes mk g rest u nm)) = m_statusSeq nm + of_nat k"
        "k = 0 \<longrightarrow> local_view (snd (add_group_nodes mk g rest u nm)) = local_view nm"
      using 2(1,2) True by blast
    ultimately show ?thesis by (intro exI [of _ k]) simp
  next
    case False
    then obtain k where "k \<le> length rest"
        "m_statusSeq (snd (add_group_nodes mk g rest True ?nm)) = m_statusSeq ?nm + of_nat k"
      using 2(3) by blast
    with False show ?thesis by (intro exI [of _ "Suc k"]) (simp add: increaseSeq_def add.assoc)
  qed
qed

interpretation node_publisher: versioned "local_step fw" m_statusSeq local_view seq_cost for fw
proof unfold_locales
  fix op s
  show "\<exists>k \<le> seq_cost op. m_statusSeq (local_step fw op s) = m_statusSeq s + of_nat k \<and>
      (k = 0 \<longrightarrow> local_view (local_step fw op s) = local_view s)"
  proof (cases op)
    case (Register g n front)
    then show ?thesis
      by (cases "um2_find (m_frontServiceInfos s) g (keyHex fw n)")
        (auto simp: registerFrontService_eq intro: exI [of _ 1] exI [of _ 0])
  next
    case (Unregister g n)
    then show ?thesis
      by (cases "um2_find (m_frontServiceInfos s) g (keyHex fw n)")
        (auto simp: unregisterFrontService_eq intro: exI [of _ 1] exI [of _ 0])
  next
    case (Refresh tars now st)
    then show ?thesis using refresh_bump by simp
  next
    case (GroupStarted mk g nodes)
    then show ?thesis using add_group_bump by simp
  qed
qed

lemma nm_inv_local_step: "nm_inv nm \<Longrightarrow> nm_inv (local_step fw op nm)"
  by (cases op) (simp_all add: registerFrontService_eq unregisterFrontService_eq nm_inv_refresh
      nm_inv_add_group_nodes nm_inv_fronts nm_invD(1))

lemma nm_inv_local_run: "nm_inv nm \<Longrightarrow> nm_inv (fold (local_step fw) ops nm)"
  by (induction ops arbitrary: nm) (simp_all add: nm_inv_local_step)

end
