(* ===== verification/Node_Specs.thy ===== *)
theory Node_Specs
  imports Node_Gossip
begin

text \<open>
  What the node manager promises: an abstract state (the local registry, and for each known peer
  the number and the set of nodes it announced), the operations on it, the proof that the
  operations of the code implement them, and the properties of the component.
\<close>

section \<open>Abstract state and operations\<close>

record node_spec =
  sp_version :: u32
  sp_local :: "groupid \<times> nodeid \<Rightarrow> front_service_info option"
  sp_peers :: "p2pid \<Rightarrow> (u32 \<times> (groupid \<times> nodeid) set) option"

definition node_abs :: "node_manager \<Rightarrow> node_spec" where
  "node_abs nm = \<lparr>sp_version = m_statusSeq nm,
     sp_local = (\<lambda>(g, n). um2_find (m_frontServiceInfos nm) g n),
     sp_peers = (\<lambda>p. map_option (\<lambda>k. (k, peer_view nm p)) (map_of (m_p2pID2Seq nm) p))\<rparr>"

datatype 'key nm_event =
    RegisterNode groupid 'key nat
  | UnregisterNode groupid 'key
  | RefreshFronts "nat \<Rightarrow> nat list \<times> nat list" u64 u64
  | PeerAnswered p2pid string
  | PeerLost p2pid

text \<open>One operation of the code; notifications to the front services go out beside the state.\<close>

fun nm_exec :: "('key, 'more) bcos_fw_scheme \<Rightarrow> 'j jsonlib \<Rightarrow> 'key nm_event \<Rightarrow> node_manager \<Rightarrow> node_manager cpp" where
  "nm_exec fw jl (RegisterNode g n front) nm = Inr (snd (registerFrontService fw g n front nm))"
| "nm_exec fw jl (UnregisterNode g n) nm = Inr (snd (unregisterFrontService fw g n nm))"
| "nm_exec fw jl (RefreshFronts tars now startT) nm =
     cpp_bind (updateFrontServiceInfo fw tars now startT nm) (\<lambda>(ns, nm'). Inr nm')"
| "nm_exec fw jl (PeerAnswered p text) nm =
     cpp_bind (onReceiveNodeIDs fw jl p text nm) (\<lambda>(ns, nm'). Inr nm')"
| "nm_exec fw jl (PeerLost p) nm = cpp_bind (onRemoveNodeIDs fw p nm) (\<lambda>(ns, nm'). Inr nm')"

fun nm_run :: "('key, 'more) bcos_fw_scheme \<Rightarrow> 'j jsonlib \<Rightarrow> 'key nm_event list \<Rightarrow> node_manager \<Rightarrow> node_manager cpp" where
  "nm_run fw jl [] nm = Inr nm"
| "nm_run fw jl (e # es) nm = cpp_bind (nm_exec fw jl e nm) (nm_run fw jl es)"

fun spec_exec :: "('key, 'more) bcos_fw_scheme \<Rightarrow> 'j jsonlib \<Rightarrow> 'key nm_event \<Rightarrow> node_spec \<Rightarrow> node_spec" where
  "spec_exec fw jl (RegisterNode g n front) a =
     (if sp_local a (g, keyHex fw n) \<noteq> None then a
      else a\<lparr>sp_version := sp_version a + 1, sp_local := (sp_local a)((g, keyHex fw n) \<mapsto>
              \<lparr>m_frontService = front, m_frontServicePrx = None\<rparr>)\<rparr>)"
| "spec_exec fw jl (UnregisterNode g n) a =
     (if sp_local a (g, keyHex fw n) = None then a
      else a\<lparr>sp_version := sp_version a + 1, sp_local := (sp_local a)((g, keyHex fw n) := None)\<rparr>)"
| "spec_exec fw jl (RefreshFronts tars now startT) a =
     (if now - startT < c_tarsAdminRefreshInitTime then a
      else if \<exists>k fi. sp_local a k = Some fi \<and> unreachable tars fi
      then a\<lparr>sp_version := sp_version a + 1, sp_local := (\<lambda>k. case sp_local a k of None \<Rightarrow> None
              | Some fi \<Rightarrow> if unreachable tars fi then None else Some fi)\<rparr>
      else a)"
| "spec_exec fw jl (PeerAnswered p text) a =
     (case parseReceivedJson jl text of None \<Rightarrow> a
      | Some (seq, m) \<Rightarrow> a\<lparr>sp_peers := (sp_peers a)(p \<mapsto> (seq, map_view m))\<rparr>)"
| "spec_exec fw jl (PeerLost p) a = a\<lparr>sp_peers := (sp_peers a)(p := None)\<rparr>"

section \<open>Refinement\<close>

lemma find_filter_inner:
  "um_ok nodes \<Longrightarrow> map_of (filter (\<lambda>(n, fi). P fi) nodes) n =
     (case map_of nodes n of None \<Rightarrow> None | Some fi \<Rightarrow> if P fi then Some fi else None)"
  by (rule um_find_filter [where P = "\<lambda>n fi. P fi"])

lemma find_drop_unreachable:
  "um2_ok fs \<Longrightarrow> um2_find (drop_unreachable tars fs) g n =
     (case um2_find fs g n of None \<Rightarrow> None | Some fi \<Rightarrow> if unreachable tars fi then None else Some fi)"
proof (induction fs)
  case (Cons gn fs)
  obtain h nodes where gn: "gn = (h, nodes)" by fastforce
  let ?kept = "filter (\<lambda>(n, fi). \<not> unreachable tars fi) nodes"
  have ok: "um_ok nodes" "um2_ok fs" "h \<notin> fst ` set fs" using Cons.prems by (simp_all add: gn um2_ok_Cons)
  have kept: "map_of ?kept n = (case map_of nodes n of None \<Rightarrow> None
      | Some fi \<Rightarrow> if \<not> unreachable tars fi then Some fi else None)"
    by (rule find_filter_inner [OF ok(1)])
  have rest: "h \<notin> fst ` set (drop_unreachable tars fs)"
    using ok(3) by (force simp: drop_unreachable_def)
  have step: "drop_unreachable tars (gn # fs) =
      (if ?kept = [] then drop_unreachable tars fs else (h, ?kept) # drop_unreachable tars fs)"
    by (simp add: drop_unreachable_def gn)
  show ?case
  proof (cases "g = h")
    case True
    have "um2_find (drop_unreachable tars (gn # fs)) h n = map_of ?kept n"
      using um2_find_notin [OF rest, of n] by (simp add: step um2_find_Cons)
    with True kept show ?thesis by (auto simp: gn um2_find_Cons split: option.split)
  next
    case False
    then have "um2_find (drop_unreachable tars (gn # fs)) g n = um2_find (drop_unreachable tars fs) g n"
      by (simp add: step um2_find_Cons)
    with False Cons.IH [OF ok(2)] show ?thesis by (simp add: gn um2_find_Cons)
  qed
qed (simp add: drop_unreachable_def)

lemma something_dropped_iff:
  assumes "um2_ok fs"
  shows "something_dropped tars fs \<longleftrightarrow> (\<exists>g n fi. um2_find fs g n = Some fi \<and> unreachable tars fi)"
proof -
  have "something_dropped tars fs \<longleftrightarrow> (\<exists>g nodes n fi. (g, nodes) \<in> set fs \<and> (n, fi) \<in> set nodes \<and> unreachable tars fi)"
    using assms by (force simp: something_dropped_def um2_ok_def list_ex_iff list_all_iff)
  also have "\<dots> \<longleftrightarrow> (\<exists>g n fi. um2_find fs g n = Some fi \<and> unreachable tars fi)"
    using um2_find_mem [OF assms] by blast
  finally show ?thesis .
qed

lemma peer_view_same: "m_peerGatewayNodes nm' = m_peerGatewayNodes nm \<Longrightarrow> peer_view nm' p = peer_view nm p"
  by (simp add: peer_view_def)

lemma abs_register:
  assumes "nm_inv nm"
  shows "node_abs (snd (registerFrontService fw g n front nm)) = spec_exec fw jl (RegisterNode g n front) (node_abs nm)"
  by (auto simp: registerFrontService_eq node_abs_def um2_find_put peer_view_def fun_eq_iff)

lemma abs_unregister:
  "node_abs (snd (unregisterFrontService fw g n nm)) = spec_exec fw jl (UnregisterNode g n) (node_abs nm)"
  by (auto simp: unregisterFrontService_eq node_abs_def um2_find_erase peer_view_def fun_eq_iff)

lemma abs_refresh:
  assumes "nm_inv nm"
  shows "node_abs (snd (refresh_fronts tars now st nm)) = spec_exec fw jl (RefreshFronts tars now st) (node_abs nm)"
proof -
  have ok: "um2_ok (m_frontServiceInfos nm)" by (rule nm_invD(1) [OF assms])
  show ?thesis
  proof (cases "now - st < c_tarsAdminRefreshInitTime \<or> \<not> something_dropped tars (m_frontServiceInfos nm)")
    case True
    then have "snd (refresh_fronts tars now st nm) = nm"
      by (auto simp: refresh_fronts_def Let_def nothing_dropped)
    with True show ?thesis by (auto simp: node_abs_def something_dropped_iff [OF ok])
  next
    case False
    then have "\<exists>k fi. sp_local (node_abs nm) k = Some fi \<and> unreachable tars fi"
      by (auto simp: node_abs_def something_dropped_iff [OF ok])
    with False ok show ?thesis
      by (auto simp: refresh_fronts_def Let_def increaseSeq_def node_abs_def peer_view_def
          find_drop_unreachable fun_eq_iff)
  qed
qed

lemma abs_apply:
  assumes "nm_inv nm" and "nodeids_ok m"
  shows "node_abs (apply_nodeIDs p k m nm) = (node_abs nm)\<lparr>sp_peers := (sp_peers (node_abs nm))(p \<mapsto> (k, map_view m))\<rparr>"
  using node_cache.view_learn [OF assms] by (auto simp: node_abs_def um_simps fun_eq_iff)

lemma abs_forget:
  assumes "nm_inv nm"
  shows "node_abs (forget_peer p nm) = (node_abs nm)\<lparr>sp_peers := (sp_peers (node_abs nm))(p := None)\<rparr>"
  using node_cache.view_forget [OF assms] by (auto simp: node_abs_def um_simps fun_eq_iff)

lemma nm_exec_refines:
  assumes inv: "nm_inv nm" and exec: "nm_exec fw jl e nm = Inr nm'"
  shows "nm_inv nm' \<and> node_abs nm' = spec_exec fw jl e (node_abs nm)"
proof (cases e)
  case (RegisterNode g n front)
  then have "nm' = snd (registerFrontService fw g n front nm)" using exec by simp
  with RegisterNode show ?thesis
    using nm_inv_local_step [OF inv, of fw "Register g n front"] abs_register [OF inv, of fw g n front jl]
    by (simp del: spec_exec.simps)
next
  case (UnregisterNode g n)
  then have "nm' = snd (unregisterFrontService fw g n nm)" using exec by simp
  with UnregisterNode show ?thesis
    using nm_inv_local_step [OF inv, of fw "Unregister g n"] abs_unregister [of fw g n nm jl]
    by (simp del: spec_exec.simps)
next
  case (RefreshFronts tars now st)
  with exec have "nm' = snd (refresh_fronts tars now st nm)"
    by (auto simp: updateFrontServiceInfo_def cpp_bind_eq_Inr split: prod.splits if_splits)
  with RefreshFronts show ?thesis
    using nm_inv_refresh [OF inv] abs_refresh [OF inv, of tars now st fw jl] by (simp del: spec_exec.simps)
next
  case (PeerAnswered p json)
  show ?thesis
  proof (cases "parseReceivedJson jl json")
    case None
    with PeerAnswered exec inv show ?thesis by (simp add: onReceiveNodeIDs_def)
  next
    case (Some r)
    obtain k m where r: "r = (k, m)" by fastforce
    have ok: "nodeids_ok m" using Some r parseReceivedJson_ok by blast
    have "nm' = apply_nodeIDs p k m nm"
      using exec PeerAnswered Some r by (auto simp: onReceiveNodeIDs_def updateNodeIDs_def Let_def cpp_bind_eq_Inr)
    with PeerAnswered Some r show ?thesis using nm_inv_apply [OF inv ok] abs_apply [OF inv ok] by simp
  qed
next
  case (PeerLost p)
  with exec have "nm' = forget_peer p nm"
    by (auto simp: onRemoveNodeIDs_def Let_def cpp_bind_eq_Inr)
  with PeerLost show ?thesis using nm_inv_forget [OF inv] abs_forget [OF inv] by simp
qed

lemma nm_run_refines:
  "nm_inv nm \<Longrightarrow> nm_run fw jl es nm = Inr nm' \<Longrightarrow>
   nm_inv nm' \<and> node_abs nm' = fold (spec_exec fw jl) es (node_abs nm)"
proof (induction es arbitrary: nm)
  case (Cons e es)
  then obtain nm1 where e: "nm_exec fw jl e nm = Inr nm1" and es: "nm_run fw jl es nm1 = Inr nm'"
    by (auto simp: cpp_bind_eq_Inr)
  from nm_exec_refines [OF Cons.prems(1) e] Cons.IH [OF _ es] show ?case by simp
qed simp

section \<open>Queries\<close>

lemma queryP2pIDs_eq:
  "queryP2pIDs g n acc nm =
     (case um2_find (m_peerGatewayNodes nm) g n of None \<Rightarrow> (False, acc) | Some ps \<Rightarrow> (True, os_insert_all ps acc))"
  by (simp add: queryP2pIDs_def um2_find_def split: option.split)

lemma queryP2pIDs_peers:
  assumes "nm_inv nm"
  shows "set (snd (queryP2pIDs g n acc nm)) = set acc \<union> {p. (g, n) \<in> peer_view nm p}"
    and "fst (queryP2pIDs g n acc nm) \<longleftrightarrow> {p. (g, n) \<in> peer_view nm p} \<noteq> {}"
proof -
  have ok: "um2_find (m_peerGatewayNodes nm) g n = Some ps \<Longrightarrow> ps \<noteq> []" for ps
    using nm_invD(2) [OF assms] by (auto simp: routes_ok_def)
  show "set (snd (queryP2pIDs g n acc nm)) = set acc \<union> {p. (g, n) \<in> peer_view nm p}"
    by (auto simp: queryP2pIDs_eq peer_view_def route_has_def split: option.split)
  show "fst (queryP2pIDs g n acc nm) \<longleftrightarrow> {p. (g, n) \<in> peer_view nm p} \<noteq> {}"
    using ok by (cases "um2_find (m_peerGatewayNodes nm) g n")
      (auto simp: queryP2pIDs_eq peer_view_def route_has_def ex_in_conv [symmetric] neq_Nil_conv)
qed

lemma set_fold_nodes:
  "set (fold (\<lambda>(n, ps) acc. os_insert_all ps acc) nodes acc) = set acc \<union> (\<Union>(n, ps) \<in> set nodes. set ps)"
  by (induction nodes arbitrary: acc) auto

lemma queryP2pIDsByGroupID_peers:
  assumes "nm_inv nm"
  shows "set (snd (queryP2pIDsByGroupID g acc nm)) = set acc \<union> {p. \<exists>n. (g, n) \<in> peer_view nm p}"
proof (cases "map_of (m_peerGatewayNodes nm) g")
  case None
  then show ?thesis by (simp add: queryP2pIDsByGroupID_def peer_view_def route_has_def um2_find_def)
next
  case (Some nodes)
  then have "um_ok nodes" using nm_invD(2) [OF assms] um2_okD [OF _ Some] by (simp add: routes_ok_def)
  then have "(\<Union>(n, ps) \<in> set nodes. set ps) = {p. \<exists>n ps. map_of nodes n = Some ps \<and> p \<in> set ps}"
    using um_mem_iff by fastforce
  moreover have "{p. \<exists>n. (g, n) \<in> peer_view nm p} = {p. \<exists>n ps. map_of nodes n = Some ps \<and> p \<in> set ps}"
    using Some by (auto simp: peer_view_def route_has_def um2_find_def split: option.splits)
  ultimately show ?thesis
    using Some by (simp add: queryP2pIDsByGroupID_def set_fold_nodes)
qed

section \<open>Properties\<close>


lemma unknown_peer_view: "nm_inv nm \<Longrightarrow> map_of (m_p2pID2Seq nm) p = None \<Longrightarrow> peer_view nm p = {}"
  using nm_invD(6) [of nm p] nm_invD(7) [of nm] by (auto simp: peer_view_def peer_lists_def um_has_iff split: option.splits)

text \<open>
  After every run, asking for the gateways through which a node can be reached gives
  exactly the peers whose last answer listed the node in that group (and have not been lost
  since), and the query says whether there is one. The query by group gives the peers that
  listed some node of the group.
\<close>

theorem routing_query_exact:
  "case nm_run fw jl es (new_node_manager self) of
     Inl _ \<Rightarrow> True
   | Inr nm \<Rightarrow>
       (let peers = sp_peers (fold (spec_exec fw jl) es (node_abs (new_node_manager self)));
            via = {p. \<exists>k S. peers p = Some (k, S) \<and> (g, n) \<in> S}
        in set (snd (queryP2pIDs g n [] nm)) = via \<and> fst (queryP2pIDs g n [] nm) = (via \<noteq> {}) \<and>
           set (snd (queryP2pIDsByGroupID g [] nm)) = {p. \<exists>k S n. peers p = Some (k, S) \<and> (g, n) \<in> S})"
proof (cases "nm_run fw jl es (new_node_manager self)")
  case (Inl u)
  then show ?thesis by simp
next
  case (Inr nm)
  note run = nm_run_refines [OF nm_inv_new Inr]
  then have inv: "nm_inv nm" by blast
  have view: "(\<exists>k S. sp_peers (node_abs nm) p = Some (k, S) \<and> x \<in> S) \<longleftrightarrow> x \<in> peer_view nm p" for p x
    using unknown_peer_view [OF inv, of p] by (cases "map_of (m_p2pID2Seq nm) p") (auto simp: node_abs_def)
  have "{p. \<exists>k S n. sp_peers (node_abs nm) p = Some (k, S) \<and> (g, n) \<in> S} = {p. \<exists>n. (g, n) \<in> peer_view nm p}"
    using view by blast
  with run view Inr queryP2pIDs_peers [OF inv, of g n "[]"] queryP2pIDsByGroupID_peers [OF inv, of g "[]"]
  show ?thesis by (simp add: Let_def)
qed

text \<open>
  Registering succeeds exactly when the node has no front service in the group, and
  then the lookup finds the given one; a second registration changes nothing. Unregistering
  succeeds exactly when there is one, and then the lookup finds none. Other nodes are untouched.
\<close>

theorem registry_lookup:
  "fst (registerFrontService fw g n front nm) = (queryFrontServiceInterfaceByGroupIDAndNodeID fw g n nm = None) \<and>
   queryFrontServiceInterfaceByGroupIDAndNodeID fw h k (snd (registerFrontService fw g n front nm))
     = (if h = g \<and> keyHex fw k = keyHex fw n
        then Some (case queryFrontServiceInterfaceByGroupIDAndNodeID fw g n nm of None \<Rightarrow> front | Some old \<Rightarrow> old)
        else queryFrontServiceInterfaceByGroupIDAndNodeID fw h k nm) \<and>
   fst (unregisterFrontService fw g n nm) = (queryFrontServiceInterfaceByGroupIDAndNodeID fw g n nm \<noteq> None) \<and>
   queryFrontServiceInterfaceByGroupIDAndNodeID fw h k (snd (unregisterFrontService fw g n nm))
     = (if h = g \<and> keyHex fw k = keyHex fw n then None
        else queryFrontServiceInterfaceByGroupIDAndNodeID fw h k nm)"
proof -
  have query: "queryFrontServiceInterfaceByGroupIDAndNodeID fw h k nm'
      = map_option m_frontService (um2_find (m_frontServiceInfos nm') h (keyHex fw k))" for h k nm'
    by (simp add: queryFrontServiceInterfaceByGroupIDAndNodeID_def um2_find_def split: option.split)
  show ?thesis
    by (auto simp: query registerFrontService_eq unregisterFrontService_eq um2_find_put um2_find_erase
        split: option.split)
qed

text \<open>
  The answer to a request for the node ids, parsed by the receiver, is the sender's
  version with a map that lists exactly the nodes registered at the sender, for every JSON
  library that writes and reads plain text as documented.
\<close>

theorem gossip_json_roundtrip:
  assumes "json_spec jl view" and "nm_inv nm" and "plain_map (localGroup2NodeIDs nm)"
  shows "\<exists>m. parseReceivedJson jl (onRequestNodeIDs jl nm) = Some (m_statusSeq nm, m) \<and>
    nodeids_ok m \<and> (\<forall>g n. listed m g n \<longleftrightarrow> registered nm g n)"
  using request_answer [OF assms(1,3)] localGroup2NodeIDs_ok listed_local [OF nm_invD(1) [OF assms(2)]]
  by blast

definition example_nm :: node_manager where
  "example_nm = snd (registerFrontService example_fw ''g1'' [65, 66] 5 (new_node_manager ''p1''))"

lemma example_nm_eq: "example_nm = \<lparr>m_p2pNodeID = ''p1'', m_statusSeq = 2, m_peerGatewayNodes = [],
    m_p2pID2Seq = [], m_frontServiceInfos = [(''g1'', [(''AB'', \<lparr>m_frontService = 5, m_frontServicePrx = None\<rparr>)])],
    m_nodeIDInfo = []\<rparr>"
  by (simp add: example_nm_def registerFrontService_eq new_node_manager_def string_of_bytes_def char_of_byte_def
      char_of_def um2_put_def um_at_def bit_0)

lemma example_nm_inv: "nm_inv example_nm"
  unfolding example_nm_def using nm_inv_local_step [OF nm_inv_new, of example_fw "Register ''g1'' [65, 66] 5"] by simp

lemma example_nm_plain: "plain_map (localGroup2NodeIDs example_nm)"
  by (simp add: example_nm_eq localGroup2NodeIDs_def plain_map_def plain_string_def um_at_def insort_insert_key_def)

theorem gossip_json_roundtrip_witness:
  "\<exists>m. parseReceivedJson jv_lib (onRequestNodeIDs jv_lib example_nm) = Some (m_statusSeq example_nm, m) \<and>
    nodeids_ok m \<and> (\<forall>g n. listed m g n \<longleftrightarrow> registered example_nm g n)"
  by (rule gossip_json_roundtrip [OF jv_lib_spec example_nm_inv example_nm_plain])

text \<open>
  After a gateway B has processed the answer of gateway A, exactly the nodes registered
  at A are routed through A, the routes of every other gateway are unchanged, and A's version is
  known, so that a heartbeat with it asks for nothing.
\<close>

theorem gossip_exchange:
  assumes "json_spec jl view" and "nm_inv A" and "plain_map (localGroup2NodeIDs A)" and "nm_inv B" and "hex_fronts fw B"
  shows "case onReceiveNodeIDs fw jl a (onRequestNodeIDs jl A) B of
      Inl _ \<Rightarrow> False
    | Inr (calls, B') \<Rightarrow> peer_view B' a = local_view A \<and> (\<forall>q. q = a \<or> peer_view B' q = peer_view B q) \<and>
        (onReceiveStatusSeq a k B' = (k \<noteq> m_statusSeq A)) \<and> nm_inv B'"
proof -
  let ?m = "localGroup2NodeIDs A"
  obtain calls where "updateNodeIDs fw a (m_statusSeq A) ?m B = Inr (calls, apply_nodeIDs a (m_statusSeq A) ?m B)"
    using updateNodeIDs_eq [OF assms(5)] by blast
  with request_answer [OF assms(1,3)]
  have "onReceiveNodeIDs fw jl a (onRequestNodeIDs jl A) B = Inr (calls, apply_nodeIDs a (m_statusSeq A) ?m B)"
    by (simp add: onReceiveNodeIDs_def)
  with node_cache.view_learn [OF assms(4) localGroup2NodeIDs_ok] nm_inv_apply [OF assms(4) localGroup2NodeIDs_ok]
    node_cache.stale_learn [OF assms(4) localGroup2NodeIDs_ok] map_view_local [OF nm_invD(1) [OF assms(2)]]
  show ?thesis by simp
qed

theorem gossip_exchange_witness:
  "case onReceiveNodeIDs example_fw jv_lib ''p1'' (onRequestNodeIDs jv_lib example_nm) example_nm of
      Inl _ \<Rightarrow> False
    | Inr (calls, B') \<Rightarrow> peer_view B' ''p1'' = local_view example_nm \<and>
        (\<forall>q. q = ''p1'' \<or> peer_view B' q = peer_view example_nm q) \<and>
        (onReceiveStatusSeq ''p1'' 2 B' = (2 \<noteq> m_statusSeq example_nm)) \<and> nm_inv B'"
  by (rule gossip_exchange [OF jv_lib_spec example_nm_inv example_nm_plain example_nm_inv])
    (simp add: hex_fronts_def example_nm_eq)

text \<open>
  The version number is enough to keep the tables in step. Gateway A goes through any
  sequence of registrations, removals and refreshes that adds less than 2^32 to its version;
  gateway B receives answers of A that were given at any moments of that run, in any order,
  delayed or repeated, mixed with the answers of other gateways. Whenever B finds that the
  version A now announces is the one it has, B routes exactly the nodes now registered at A.
\<close>

theorem gossip_in_step:
  fixes fw :: "('key, 'more) bcos_fw_scheme"
  assumes "sum_list (map seq_cost ops) < 2 ^ 32" and "nm_inv A" and "nm_inv B"
    and "\<And>k. onReceiveStatusSeq a k B"
    and "list_all (\<lambda>(q, k, m). nodeids_ok m \<and> (q = a \<longrightarrow> (\<exists>i \<le> length ops.
        k = m_statusSeq (fold (local_step fw) (take i ops) A) \<and>
        m = localGroup2NodeIDs (fold (local_step fw) (take i ops) A)))) answers"
    and "j \<le> length ops"
    and "\<not> onReceiveStatusSeq a (m_statusSeq (fold (local_step fw) (take j ops) A))
           (fold (\<lambda>(q, k, m). apply_nodeIDs q k m) answers B)"
  shows "peer_view (fold (\<lambda>(q, k, m). apply_nodeIDs q k m) answers B) a
    = local_view (fold (local_step fw) (take j ops) A)"
proof -
  define says where "says = (\<lambda>q k c. q = a \<longrightarrow> node_publisher.published TYPE('more) fw ops A k c)"
  let ?B = "fold (\<lambda>(q, k, m). apply_nodeIDs q k m) answers B"
  have start: "node_cache.coherent says B"
    using assms(3,4) by (simp add: node_cache.coherent_def says_def)
  have snapshot: "map_view (localGroup2NodeIDs (fold (local_step fw) xs A)) = local_view (fold (local_step fw) xs A)" for xs
    using nm_inv_local_run [OF assms(2)] by (intro map_view_local nm_invD(1))
  have "nodeids_ok m \<and> says q k (map_view m)" if "(q, k, m) \<in> set answers" for q k m
  proof -
    have ok: "nodeids_ok m" and "q = a \<longrightarrow> (\<exists>i \<le> length ops.
        k = m_statusSeq (fold (local_step fw) (take i ops) A) \<and>
        m = localGroup2NodeIDs (fold (local_step fw) (take i ops) A))"
      using assms(5) that by (auto simp: list_all_iff)
    then have "q = a \<longrightarrow> (\<exists>i \<le> length ops.
        k = m_statusSeq (fold (local_step fw) (take i ops) A) \<and>
        map_view m = local_view (fold (local_step fw) (take i ops) A))"
      using snapshot by metis
    with ok show ?thesis by (simp add: says_def node_publisher.published_def)
  qed
  then have told: "list_all (\<lambda>(q, k, m). nodeids_ok m \<and> says q k (map_view m)) answers"
    by (auto simp: list_all_iff)
  have "node_cache.coherent says ?B" by (rule node_cache.coherent_run [OF start told])
  then show ?thesis
  proof (rule node_cache.current_content [OF _ assms(7)])
    show "says a (m_statusSeq (fold (local_step fw) (take j ops) A)) (local_view (fold (local_step fw) (take j ops) A))"
      using assms(6) by (auto simp: says_def node_publisher.published_def)
    show "says a (m_statusSeq (fold (local_step fw) (take j ops) A)) c \<Longrightarrow>
        says a (m_statusSeq (fold (local_step fw) (take j ops) A)) c' \<Longrightarrow> c = c'" for c c'
      using node_publisher.published_unique [OF assms(1)] by (simp add: says_def)
  qed
qed

theorem gossip_in_step_witness:
  "peer_view (fold (\<lambda>(q, k, m). apply_nodeIDs q k m)
      [(''p1'', m_statusSeq example_nm, localGroup2NodeIDs example_nm)] (new_node_manager ''p2'')) ''p1''
   = local_view (fold (local_step example_fw) (take 1 [Register ''g1'' [65, 66] 5]) (new_node_manager ''p1''))"
proof (rule gossip_in_step [where ops = "[Register ''g1'' [65, 66] 5]"])
  show "list_all (\<lambda>(q, k, m). nodeids_ok m \<and> (q = ''p1'' \<longrightarrow> (\<exists>i \<le> length [Register ''g1'' [65, 66] 5 :: bytes local_op].
        k = m_statusSeq (fold (local_step example_fw) (take i [Register ''g1'' [65, 66] 5]) (new_node_manager ''p1'')) \<and>
        m = localGroup2NodeIDs (fold (local_step example_fw) (take i [Register ''g1'' [65, 66] 5]) (new_node_manager ''p1'')))))
     [(''p1'', m_statusSeq example_nm, localGroup2NodeIDs example_nm)]"
    by (simp add: localGroup2NodeIDs_ok) (rule exI [of _ 1], simp add: example_nm_def)
  show "\<not> onReceiveStatusSeq ''p1''
      (m_statusSeq (fold (local_step example_fw) (take 1 [Register ''g1'' [65, 66] 5]) (new_node_manager ''p1'')))
      (fold (\<lambda>(q, k, m). apply_nodeIDs q k m)
        [(''p1'', m_statusSeq example_nm, localGroup2NodeIDs example_nm)] (new_node_manager ''p2''))"
    by (simp add: onReceiveStatusSeq_def um_simps example_nm_def [symmetric])
qed (simp_all add: nm_inv_new, simp add: onReceiveStatusSeq_def new_node_manager_def)

text \<open>
  A notification round calls every registered front service exactly once, with its
  group and the keys of the nodes known in the group: the registered ones followed by those
  announced by the peers.
\<close>

theorem notify_reaches_every_front:
  assumes "hex_fronts fw nm"
  shows "\<exists>calls. notifyNodeIDs2FrontService fw nm = Inr calls \<and>
    map (\<lambda>c. (nt_group c, nt_front c)) calls
      = concat (map (\<lambda>(g, fronts). map (\<lambda>(n, fi). (g, m_frontService fi)) fronts) (m_frontServiceInfos nm)) \<and>
    list_all (\<lambda>c. nt_nodeIDs c = node_keys fw (group_nodes nm (nt_group c))) calls"
  by (auto simp: notify_eq [OF assms] map_concat o_def case_prod_unfold list_all_iff)

theorem notify_reaches_every_front_witness:
  "\<exists>calls. notifyNodeIDs2FrontService example_fw example_nm = Inr calls \<and>
    map (\<lambda>c. (nt_group c, nt_front c)) calls
      = concat (map (\<lambda>(g, fronts). map (\<lambda>(n, fi). (g, m_frontService fi)) fronts) (m_frontServiceInfos example_nm)) \<and>
    list_all (\<lambda>c. nt_nodeIDs c = node_keys example_fw (group_nodes example_nm (nt_group c))) calls"
  by (rule notify_reaches_every_front) (simp add: hex_fronts_def example_nm_eq)

end
