(* ===== verification/AMOP_Message.thy ===== *)
theory AMOP_Message
  imports Net_Common
begin

text \<open>
  \<open>libamop/AMOPMessage.h\<close> and \<open>libamop/AMOPMessage.cpp\<close>: the packet of the topic protocol, a
  type, a status and the data, which is a reference into the buffer it was decoded from (kept
  here by value). \<open>encode\<close> appends to the buffer it is given; \<open>decode\<close> answers \<open>-1\<close> to a buffer
  shorter than the header.
\<close>

definition amop_TopicSeq :: u16 where "amop_TopicSeq = 1"
definition amop_RequestTopic :: u16 where "amop_RequestTopic = 2"
definition amop_ResponseTopic :: u16 where "amop_ResponseTopic = 3"
definition amop_AMOPRequest :: u16 where "amop_AMOPRequest = 4"
definition amop_AMOPResponse :: u16 where "amop_AMOPResponse = 5"
definition amop_AMOPBroadcast :: u16 where "amop_AMOPBroadcast = 5"

lemmas amop_type_defs = amop_TopicSeq_def amop_RequestTopic_def amop_ResponseTopic_def
  amop_AMOPRequest_def amop_AMOPResponse_def amop_AMOPBroadcast_def

definition AMOP_HEADER_LENGTH :: nat where "AMOP_HEADER_LENGTH = 4"

record amop_message =
  a_type :: u16
  a_status :: u16
  a_data :: bytes

definition new_amop :: amop_message where
  "new_amop = \<lparr>a_type = 0, a_status = 0, a_data = []\<rparr>"

definition amop_encode :: "amop_message \<Rightarrow> bytes \<Rightarrow> bool \<times> bytes" where
  "amop_encode m buf = (True, buf @ be16 (a_type m) @ be16 (a_status m) @ a_data m)"

definition amop_decode ::
  "('key, 'more) bcos_fw_scheme \<Rightarrow> amop_message \<Rightarrow> bytes \<Rightarrow> (int \<times> amop_message) cpp" where
  "amop_decode fw m b =
     (if length b < AMOP_HEADER_LENGTH then Inr (-1, m)
      else cpp_bind (rd16 b 0) (\<lambda>type.
           cpp_bind (rd16 b 2) (\<lambda>status.
             Inr (int (length b), \<lparr>a_type = type, a_status = status, a_data = cropFrom fw b 4\<rparr>))))"

text \<open>\<open>AMOPMessageFactory::buildMessage\<close>: the result of \<open>decode\<close> is dropped.\<close>

definition buildAMOPMessage :: "('key, 'more) bcos_fw_scheme \<Rightarrow> bytes \<Rightarrow> amop_message cpp" where
  "buildAMOPMessage fw b = cpp_bind (amop_decode fw new_amop b) (\<lambda>(r, m). Inr m)"

definition amop_bytes :: "amop_message \<Rightarrow> bytes" where
  "amop_bytes m = snd (amop_encode m [])"

lemma amop_bytes_eq: "amop_bytes m = be16 (a_type m) @ be16 (a_status m) @ a_data m"
  by (simp add: amop_bytes_def amop_encode_def)

lemma amop_decode_bytes:
  assumes "crop_spec fw"
  shows "amop_decode fw m0 (amop_bytes m) = Inr (int (length (amop_bytes m)), m)"
proof -
  have "rd16 ([] @ be16 (a_type m) @ be16 (a_status m) @ a_data m) 0 = Inr (a_type m)"
    by (rule rd16_be16) simp
  moreover have "rd16 (be16 (a_type m) @ be16 (a_status m) @ a_data m) 2 = Inr (a_status m)"
    by (rule rd16_be16) simp
  ultimately show ?thesis
    by (simp add: amop_decode_def amop_bytes_eq AMOP_HEADER_LENGTH_def crop_from_eq [OF assms])
qed

lemma build_amop_bytes: "crop_spec fw \<Longrightarrow> buildAMOPMessage fw (amop_bytes m) = Inr m"
  by (simp add: buildAMOPMessage_def amop_decode_bytes)

lemma amop_decode_total: "defined (amop_decode fw m b)"
  by (simp add: amop_decode_def rd16_def AMOP_HEADER_LENGTH_def)

lemma amop_decode_short: "amop_decode fw m b = Inr (r, m') \<Longrightarrow> r < 0 \<longleftrightarrow> length b < 4"
  by (auto simp: amop_decode_def AMOP_HEADER_LENGTH_def cpp_bind_eq_Inr split: if_splits)

lemma split_four: "4 \<le> length b \<Longrightarrow> \<exists>b0 b1 b2 b3 d. b = b0 # b1 # b2 # b3 # d"
  by (auto simp: numeral_eq_Suc Suc_le_length_iff)

lemma amop_reencode:
  assumes crop: "crop_spec fw" and dec: "amop_decode fw m0 b = Inr (r, m)" and "0 \<le> r"
  shows "amop_bytes m = b"
proof -
  have "4 \<le> length b" using amop_decode_short [OF dec] assms(3) by simp
  then obtain b0 b1 b2 b3 d where b: "b = b0 # b1 # b2 # b3 # d"
    using split_four by blast
  have "m = \<lparr>a_type = join16 b0 b1, a_status = join16 b2 b3, a_data = d\<rparr>"
    using dec by (simp add: b amop_decode_def AMOP_HEADER_LENGTH_def rd16_def crop_from_eq [OF crop])
  then show ?thesis by (simp add: amop_bytes_eq b be16_join16)
qed

section \<open>Properties\<close>

text \<open>
  An AMOP message survives the trip through its bytes: decoding what \<open>encode\<close> writes
  into an empty buffer consumes all of it and gives back type, status and data.
\<close>

theorem amop_roundtrip:
  assumes "crop_spec fw"
  shows "fst (amop_encode m []) \<and>
    amop_decode fw m0 (snd (amop_encode m [])) = Inr (int (length (snd (amop_encode m []))), m)"
  using amop_decode_bytes [OF assms] by (simp add: amop_bytes_def amop_encode_def)

theorem amop_roundtrip_witness:
  "fst (amop_encode \<lparr>a_type = 4, a_status = 1, a_data = [10, 20]\<rparr> []) \<and>
   amop_decode example_fw new_amop (snd (amop_encode \<lparr>a_type = 4, a_status = 1, a_data = [10, 20]\<rparr> []))
     = Inr (int (length (snd (amop_encode \<lparr>a_type = 4, a_status = 1, a_data = [10, 20]\<rparr> []))),
         \<lparr>a_type = 4, a_status = 1, a_data = [10, 20]\<rparr>)"
  by (rule amop_roundtrip) simp

text \<open>
  Claim C37: every buffer is handled: a buffer shorter than the four bytes of the header is
  rejected with the message left as it was, and any other buffer is decoded to a message whose
  encoding is that buffer again, so no two buffers decode to the same message.
\<close>

theorem amop_decode_every_buffer:
  assumes "crop_spec fw"
  shows "case amop_decode fw m0 b of
      Inl _ \<Rightarrow> False
    | Inr (r, m) \<Rightarrow> if length b < 4 then r = -1 \<and> m = m0
                   else r = int (length b) \<and> snd (amop_encode m []) = b"
proof -
  obtain r m where dec: "amop_decode fw m0 b = Inr (r, m)"
    using amop_decode_total by (fastforce simp: defined_iff)
  show ?thesis
  proof (cases "length b < 4")
    case True
    with dec show ?thesis by (simp add: amop_decode_def AMOP_HEADER_LENGTH_def)
  next
    case False
    then have "0 \<le> r" using amop_decode_short [OF dec] by simp
    moreover have "r = int (length b)"
      using dec False by (auto simp: amop_decode_def AMOP_HEADER_LENGTH_def cpp_bind_eq_Inr)
    ultimately show ?thesis
      using amop_reencode [OF assms dec] False dec by (simp add: amop_bytes_def)
  qed
qed

theorem amop_decode_every_buffer_witness:
  "case amop_decode example_fw new_amop [0, 1, 0, 0, 255] of
      Inl _ \<Rightarrow> False
    | Inr (r, m) \<Rightarrow> if length [0, 1, 0, 0, 255 :: byte] < 4 then r = -1 \<and> m = new_amop
                   else r = int (length [0, 1, 0, 0, 255 :: byte])
                     \<and> snd (amop_encode m []) = [0, 1, 0, 0, 255]"
  by (rule amop_decode_every_buffer) simp

end
