(* ===== verification/Topic_Manager.thy ===== *)
theory Topic_Manager
  imports Net_Common Seq_Gossip Json_Lib
begin

text \<open>
  \<open>libamop/TopicManager.h/.cpp\<close>, \<open>libamop/LocalTopicManager.h\<close> and the topic items of
  \<open>libamop/Common.h\<close>: the topics the clients of this gateway subscribe to, the topics the peers
  have announced, and the sequence numbers that keep the two in step between gateways.
\<close>

section \<open>Topic items\<close>

datatype topic_item = TopicItem (topicName: string)

text \<open>\<open>operator<\<close> compares the names.\<close>

instantiation topic_item :: linorder
begin

definition less_eq_topic_item :: "topic_item \<Rightarrow> topic_item \<Rightarrow> bool" where
  "less_eq_topic_item a b \<longleftrightarrow> topicName a \<le> topicName b"

definition less_topic_item :: "topic_item \<Rightarrow> topic_item \<Rightarrow> bool" where
  "less_topic_item a b \<longleftrightarrow> topicName a < topicName b"

instance
proof
  fix a b :: topic_item
  show "a \<le> b \<Longrightarrow> b \<le> a \<Longrightarrow> a = b"
    by (simp add: less_eq_topic_item_def topic_item.expand)
qed (auto simp: less_eq_topic_item_def less_topic_item_def)

end

type_synonym topic_items = "topic_item list" \<comment> \<open>\<open>std::set<TopicItem>\<close>\<close>

section \<open>State\<close>

record topic_manager =
  m_client2TopicItems :: "(string \<times> topic_items) list"
  m_topicSeq :: u32
  m_nodeID2TopicSeq :: "(string \<times> u32) list"
  m_nodeID2TopicItems :: "(string \<times> topic_items) list"
  m_clientInfo :: "(string \<times> nat) list" \<comment> \<open>the rpc client made for each endpoint\<close>
  m_rpc :: "nat option option" \<comment> \<open>\<open>Some rpc\<close>: a \<open>LocalTopicManager\<close> with that client\<close>

definition new_topic_manager :: "nat option option \<Rightarrow> topic_manager" where
  "new_topic_manager rpc = \<lparr>m_client2TopicItems = [], m_topicSeq = 1, m_nodeID2TopicSeq = [],
     m_nodeID2TopicItems = [], m_clientInfo = [], m_rpc = rpc\<rparr>"

definition incTopicSeq :: "topic_manager \<Rightarrow> topic_manager" where
  "incTopicSeq tm = tm\<lparr>m_topicSeq := m_topicSeq tm + 1\<rparr>"

section \<open>Subscriptions\<close>

text \<open>\<open>stringToProxy\<close> makes the client of an endpoint, or throws.\<close>

definition createAndGetServiceByClient :: "(string \<Rightarrow> nat option) \<Rightarrow> string \<Rightarrow> topic_manager \<Rightarrow>
    nat option \<times> topic_manager" where
  "createAndGetServiceByClient stringToProxy client tm =
     (case m_rpc tm of
        Some rpc \<Rightarrow> (rpc, tm)
      | None \<Rightarrow> (case map_of (m_clientInfo tm) client of
          Some c \<Rightarrow> (Some c, tm)
        | None \<Rightarrow> (case stringToProxy client of
            None \<Rightarrow> (None, tm)
          | Some c \<Rightarrow> (Some c, tm\<lparr>m_clientInfo := um_put client c (m_clientInfo tm)\<rparr>))))"

definition subTopic_items :: "(string \<Rightarrow> nat option) \<Rightarrow> string \<Rightarrow> topic_items \<Rightarrow> topic_manager \<Rightarrow> topic_manager" where
  "subTopic_items stringToProxy client items tm =
     snd (createAndGetServiceByClient stringToProxy client
       (incTopicSeq (tm\<lparr>m_client2TopicItems := um_put client items (m_client2TopicItems tm)\<rparr>)))"

text \<open>The array of topics of a subscription and of an announcement; \<open>None\<close> when an accessor throws.\<close>

fun opt_bind :: "'a option \<Rightarrow> ('a \<Rightarrow> 'b option) \<Rightarrow> 'b option" where
  "opt_bind None f = None"
| "opt_bind (Some x) f = f x"

fun parse_topics :: "'j jsonlib \<Rightarrow> string \<Rightarrow> 'j \<Rightarrow> nat list \<Rightarrow> topic_items \<Rightarrow> topic_items option" where
  "parse_topics jl key root [] acc = Some acc"
| "parse_topics jl key root (i # is) acc =
     opt_bind (jl_member jl root key) (\<lambda>arr.
     opt_bind (jl_index jl arr i) (\<lambda>v.
     opt_bind (jl_asString jl v) (\<lambda>topic. parse_topics jl key root is (os_insert (TopicItem topic) acc))))"

definition parseSubTopicsJson :: "'j jsonlib \<Rightarrow> string \<Rightarrow> topic_items option" where
  "parseSubTopicsJson jl json =
     opt_bind (jl_parse jl json) (\<lambda>root.
     opt_bind (jl_member jl root ''topics'') (\<lambda>arr.
       parse_topics jl ''topics'' root [0..<jl_size jl arr] []))"

definition subTopic :: "'j jsonlib \<Rightarrow> (string \<Rightarrow> nat option) \<Rightarrow> string \<Rightarrow> string \<Rightarrow> topic_manager \<Rightarrow> topic_manager" where
  "subTopic jl stringToProxy client json tm =
     (case parseSubTopicsJson jl json of None \<Rightarrow> tm
      | Some items \<Rightarrow> subTopic_items stringToProxy client items tm)"

definition queryTopicItemsByClient :: "string \<Rightarrow> topic_items \<Rightarrow> topic_manager \<Rightarrow> bool \<times> topic_items" where
  "queryTopicItemsByClient client items tm =
     (case map_of (m_client2TopicItems tm) client of None \<Rightarrow> (False, items) | Some its \<Rightarrow> (True, its))"

definition removeTopics :: "string \<Rightarrow> string list \<Rightarrow> topic_manager \<Rightarrow> topic_manager" where
  "removeTopics client topics tm =
     (case map_of (m_client2TopicItems tm) client of None \<Rightarrow> tm
      | Some items \<Rightarrow> incTopicSeq (tm\<lparr>m_client2TopicItems := um_put client
          (fold (\<lambda>topic its. if TopicItem topic \<in> set its then os_erase (TopicItem topic) its else its) topics items)
          (m_client2TopicItems tm)\<rparr>))"

definition removeTopicsByClients :: "string list \<Rightarrow> topic_manager \<Rightarrow> topic_manager" where
  "removeTopicsByClients clients tm =
     incTopicSeq (fold (\<lambda>client tm.
       if um_has client (m_client2TopicItems tm)
       then tm\<lparr>m_client2TopicItems := um_erase client (m_client2TopicItems tm)\<rparr> else tm) clients tm)"

text \<open>
  \<open>checkClientConnection\<close>: the two vectors of endpoints are declared before the loop and handed
  to each proxy in turn. \<open>tars_endpointsAll\<close> says what it leaves in them.
\<close>

fun check_clients :: "(nat \<Rightarrow> string list \<times> string list \<Rightarrow> string list \<times> string list) \<Rightarrow>
    string list \<times> string list \<Rightarrow> (string \<times> nat) list \<Rightarrow> (string \<times> nat) list \<times> string list" where
  "check_clients tars eps [] = ([], [])"
| "check_clients tars eps ((client, rpc) # rest) =
     (let eps' = tars rpc eps; (kept, gone) = check_clients tars eps' rest
      in if 0 < length (fst eps') then ((client, rpc) # kept, gone) else (kept, client # gone))"

definition checkClientConnection :: "(nat \<Rightarrow> string list \<times> string list \<Rightarrow> string list \<times> string list) \<Rightarrow>
    topic_manager \<Rightarrow> topic_manager" where
  "checkClientConnection tars tm =
     (case check_clients tars ([], []) (m_clientInfo tm) of (kept, gone) \<Rightarrow>
        removeTopicsByClients gone (tm\<lparr>m_clientInfo := kept\<rparr>))"

text \<open>
  At the start the rpc services are asked to subscribe again: the clients called, in order, until
  one cannot be made. \<open>active\<close> gives the hosts and ports of the active endpoints of a proxy.
\<close>

definition endpoint_string :: "string \<Rightarrow> string \<times> int \<Rightarrow> string" where
  "endpoint_string service ep = service @ ''@tcp -h '' @ fst ep @ '' -p '' @ to_string_int (snd ep)"

fun notify_endpoints :: "(string \<Rightarrow> nat option) \<Rightarrow> string \<Rightarrow> (string \<times> int) list \<Rightarrow> nat list" where
  "notify_endpoints stringToProxy service [] = []"
| "notify_endpoints stringToProxy service (ep # eps) =
     (case stringToProxy (endpoint_string service ep) of
        None \<Rightarrow> []
      | Some c \<Rightarrow> c # notify_endpoints stringToProxy service eps)"

definition notifyRpcToSubscribeTopics ::
  "(string \<Rightarrow> nat option) \<Rightarrow> (nat \<Rightarrow> (string \<times> int) list) \<Rightarrow> string \<Rightarrow> nat list" where
  "notifyRpcToSubscribeTopics stringToProxy active m_rpcServiceName =
     (case stringToProxy m_rpcServiceName of
        None \<Rightarrow> []
      | Some rpc \<Rightarrow> notify_endpoints stringToProxy m_rpcServiceName (active rpc))"

section \<open>Announcements\<close>

definition local_topics :: "topic_manager \<Rightarrow> topic_items" where
  "local_topics tm = fold (\<lambda>(c, items) acc. os_insert_all items acc) (m_client2TopicItems tm) []"

fun build_topics :: "'j jsonlib \<Rightarrow> 'j \<Rightarrow> topic_items \<Rightarrow> 'j option" where
  "build_topics jl jTopics [] = Some jTopics"
| "build_topics jl jTopics (t # ts) =
     opt_bind (jl_append jl jTopics (jl_string jl (topicName t))) (\<lambda>jTopics'. build_topics jl jTopics' ts)"

definition queryTopicsSubByClient :: "'j jsonlib \<Rightarrow> topic_manager \<Rightarrow> string" where
  "queryTopicsSubByClient jl tm =
     (let json = opt_bind (build_topics jl (jl_array jl) (local_topics tm)) (\<lambda>jTopics.
            opt_bind (jl_set jl (jl_null jl) ''topicSeq'' (jl_uint jl (m_topicSeq tm))) (\<lambda>jResp.
            opt_bind (jl_set jl jResp ''topicItems'' jTopics) (\<lambda>jResp. jl_write jl jResp)))
      in case json of None \<Rightarrow> [] | Some t \<Rightarrow> t)"

definition parseTopicItemsJson :: "'j jsonlib \<Rightarrow> string \<Rightarrow> (u32 \<times> topic_items) option" where
  "parseTopicItemsJson jl json =
     opt_bind (jl_parse jl json) (\<lambda>root.
     opt_bind (jl_member jl root ''topicSeq'') (\<lambda>s.
     opt_bind (jl_asUInt jl s) (\<lambda>topicSeq.
     opt_bind (jl_member jl root ''topicItems'') (\<lambda>arr.
     opt_bind (parse_topics jl ''topicItems'' root [0..<jl_size jl arr] []) (\<lambda>items.
       Some (topicSeq, items))))))"

definition checkTopicSeq :: "string \<Rightarrow> u32 \<Rightarrow> topic_manager \<Rightarrow> bool" where
  "checkTopicSeq node seq tm =
     (case map_of (m_nodeID2TopicSeq tm) node of None \<Rightarrow> True | Some k \<Rightarrow> \<not> (k = seq))"

fun erase_offline :: "string list \<Rightarrow> (string \<times> u32) list \<Rightarrow> (string \<times> topic_items) list \<Rightarrow>
    (string \<times> u32) list \<times> (string \<times> topic_items) list" where
  "erase_offline online [] items = ([], items)"
| "erase_offline online ((node, seq) # rest) items =
     (if node \<notin> set online then erase_offline online rest (um_erase node items)
      else case erase_offline online rest items of (seqs, items') \<Rightarrow> ((node, seq) # seqs, items'))"

definition notifyNodeIDs :: "string list \<Rightarrow> topic_manager \<Rightarrow> topic_manager" where
  "notifyNodeIDs online tm =
     (case erase_offline online (m_nodeID2TopicSeq tm) (m_nodeID2TopicItems tm) of (seqs, items) \<Rightarrow>
        tm\<lparr>m_nodeID2TopicSeq := seqs, m_nodeID2TopicItems := items\<rparr>)"

definition updateSeqAndTopicsByNodeID :: "string \<Rightarrow> u32 \<Rightarrow> topic_items \<Rightarrow> topic_manager \<Rightarrow> topic_manager" where
  "updateSeqAndTopicsByNodeID node seq items tm =
     tm\<lparr>m_nodeID2TopicSeq := um_put node seq (m_nodeID2TopicSeq tm),
        m_nodeID2TopicItems := um_put node items (m_nodeID2TopicItems tm)\<rparr>"

definition queryNodeIDsByTopic :: "(string \<Rightarrow> bool) \<Rightarrow> string \<Rightarrow> topic_manager \<Rightarrow> string list" where
  "queryNodeIDsByTopic connected topic tm =
     map fst (filter (\<lambda>(node, items). list_ex (\<lambda>t. topic = topicName t) items \<and> connected node)
       (m_nodeID2TopicItems tm))"

definition queryClientsByTopic :: "string \<Rightarrow> topic_manager \<Rightarrow> string list" where
  "queryClientsByTopic topic tm =
     map fst (filter (\<lambda>(client, items). list_ex (\<lambda>t. topic = topicName t) items) (m_client2TopicItems tm))"

section \<open>Invariant\<close>

definition items_ok :: "(string \<times> topic_items) list \<Rightarrow> bool" where
  "items_ok m \<longleftrightarrow> um_ok m \<and> list_all (\<lambda>(k, its). os_ok its) m"

definition tm_inv :: "topic_manager \<Rightarrow> bool" where
  "tm_inv tm \<longleftrightarrow> items_ok (m_client2TopicItems tm) \<and> items_ok (m_nodeID2TopicItems tm) \<and>
     um_ok (m_nodeID2TopicSeq tm) \<and> um_ok (m_clientInfo tm) \<and>
     (\<forall>n. um_has n (m_nodeID2TopicSeq tm) \<longleftrightarrow> um_has n (m_nodeID2TopicItems tm))"

definition node_topics :: "topic_manager \<Rightarrow> string \<Rightarrow> string set" where
  "node_topics tm n = topicName ` set (um_at (m_nodeID2TopicItems tm) n)"

definition client_topics :: "topic_manager \<Rightarrow> string \<Rightarrow> string set" where
  "client_topics tm c = topicName ` set (um_at (m_client2TopicItems tm) c)"

definition subscribed :: "topic_manager \<Rightarrow> string set" where
  "subscribed tm = {t. \<exists>c. t \<in> client_topics tm c}"

lemma items_ok_Nil [simp]: "items_ok []"
  by (simp add: items_ok_def)

lemma items_ok_put [simp]: "items_ok m \<Longrightarrow> os_ok its \<Longrightarrow> items_ok (um_put k its m)"
  using set_update_subset [of k its m] by (auto simp: items_ok_def list_all_iff)

lemma items_ok_erase [simp]: "items_ok m \<Longrightarrow> items_ok (um_erase k m)"
  using set_delete_subset [of k m] by (auto simp: items_ok_def list_all_iff)

lemma items_ok_find: "items_ok m \<Longrightarrow> map_of m k = Some its \<Longrightarrow> os_ok its"
  by (auto simp: items_ok_def list_all_iff dest: map_of_SomeD)

lemma items_mem: "items_ok m \<Longrightarrow> (k, its) \<in> set m \<longleftrightarrow> map_of m k = Some its"
  by (simp add: items_ok_def um_mem_iff)

lemma parse_topics_ok: "parse_topics jl key root is acc = Some its \<Longrightarrow> os_ok acc \<Longrightarrow> os_ok its"
proof (induction jl key root "is" acc rule: parse_topics.induct)
  case (2 jl key root i "is" acc)
  then show ?case
    by (cases "jl_member jl root key"; cases "jl_index jl (the (jl_member jl root key)) i";
        cases "jl_asString jl (the (jl_index jl (the (jl_member jl root key)) i))") auto
qed simp

lemma opt_bind_Some: "opt_bind x f = Some y \<longleftrightarrow> (\<exists>a. x = Some a \<and> f a = Some y)"
  by (cases x) auto

lemma parseSub_ok: "parseSubTopicsJson jl json = Some its \<Longrightarrow> os_ok its"
  using parse_topics_ok [of jl _ _ _ "[]" its] by (auto simp: parseSubTopicsJson_def opt_bind_Some)

lemma parseItems_ok: "parseTopicItemsJson jl json = Some (k, its) \<Longrightarrow> os_ok its"
  using parse_topics_ok [of jl _ _ _ "[]" its] by (auto simp: parseTopicItemsJson_def opt_bind_Some)

lemma tm_inv_new: "tm_inv (new_topic_manager rpc)"
  by (simp add: tm_inv_def new_topic_manager_def um_has_iff)

lemma create_fields [simp]:
  "m_client2TopicItems (snd (createAndGetServiceByClient p c tm)) = m_client2TopicItems tm"
  "m_topicSeq (snd (createAndGetServiceByClient p c tm)) = m_topicSeq tm"
  "m_nodeID2TopicSeq (snd (createAndGetServiceByClient p c tm)) = m_nodeID2TopicSeq tm"
  "m_nodeID2TopicItems (snd (createAndGetServiceByClient p c tm)) = m_nodeID2TopicItems tm"
  "um_ok (m_clientInfo tm) \<Longrightarrow> um_ok (m_clientInfo (snd (createAndGetServiceByClient p c tm)))"
  by (auto simp: createAndGetServiceByClient_def split: option.split)

lemma tm_inv_subTopic_items: "tm_inv tm \<Longrightarrow> os_ok its \<Longrightarrow> tm_inv (subTopic_items p c its tm)"
  by (simp add: tm_inv_def subTopic_items_def incTopicSeq_def)

lemma tm_inv_subTopic: "tm_inv tm \<Longrightarrow> tm_inv (subTopic jl p c json tm)"
  by (auto simp: subTopic_def intro: tm_inv_subTopic_items parseSub_ok split: option.split)

lemma erase_topics:
  "os_ok its \<Longrightarrow> os_ok (fold (\<lambda>topic its. if TopicItem topic \<in> set its then os_erase (TopicItem topic) its else its) ts its)"
  "set (fold (\<lambda>topic its. if TopicItem topic \<in> set its then os_erase (TopicItem topic) its else its) ts its)
    = set its - TopicItem ` set ts"
  by (induction ts arbitrary: its) auto

lemma tm_inv_removeTopics: "tm_inv tm \<Longrightarrow> tm_inv (removeTopics c ts tm)"
  by (auto simp: removeTopics_def tm_inv_def incTopicSeq_def erase_topics(1) items_ok_find split: option.split)

lemma removeClients_eq:
  "removeTopicsByClients cs tm = tm\<lparr>m_client2TopicItems := fold um_erase cs (m_client2TopicItems tm),
     m_topicSeq := m_topicSeq tm + 1\<rparr>"
proof -
  have erase_absent: "\<not> um_has c m \<Longrightarrow> um_erase c m = m" for c and m :: "(string \<times> topic_items) list"
    by (simp add: um_has_iff map_of_eq_None_iff delete_id)
  have "fold (\<lambda>client tm. if um_has client (m_client2TopicItems tm)
       then tm\<lparr>m_client2TopicItems := um_erase client (m_client2TopicItems tm)\<rparr> else tm) cs tm
     = tm\<lparr>m_client2TopicItems := fold um_erase cs (m_client2TopicItems tm)\<rparr>"
    by (induction cs arbitrary: tm) (simp_all add: erase_absent)
  then show ?thesis by (simp add: removeTopicsByClients_def incTopicSeq_def)
qed

lemma items_ok_fold_erase: "items_ok m \<Longrightarrow> items_ok (fold um_erase cs m)"
  by (induction cs arbitrary: m) simp_all

lemma find_fold_erase: "map_of (fold um_erase cs m) c = (if c \<in> set cs then None else map_of m c)"
  by (induction cs arbitrary: m) (auto simp: um_simps)

lemma tm_inv_removeClients: "tm_inv tm \<Longrightarrow> tm_inv (removeTopicsByClients cs tm)"
  by (simp add: removeClients_eq tm_inv_def items_ok_fold_erase)

lemma check_clients_sub: "fst ` set (fst (check_clients tars eps m)) \<subseteq> fst ` set m"
  by (induction tars eps m rule: check_clients.induct)
    (auto simp: Let_def image_subset_iff split: prod.split)

lemma check_clients_ok: "um_ok m \<Longrightarrow> um_ok (fst (check_clients tars eps m))"
proof (induction tars eps m rule: check_clients.induct)
  case (2 tars eps client rpc rest)
  then show ?case
    using check_clients_sub [of tars "tars rpc eps" rest]
    by (auto simp: um_ok_def Let_def image_subset_iff split: prod.split)
qed simp

lemma tm_inv_check: "tm_inv tm \<Longrightarrow> tm_inv (checkClientConnection tars tm)"
  using check_clients_ok [of "m_clientInfo tm" tars "([], [])"]
  by (auto simp: checkClientConnection_def tm_inv_def removeClients_eq items_ok_fold_erase split: prod.split)

lemma tm_inv_update: "tm_inv tm \<Longrightarrow> os_ok its \<Longrightarrow> tm_inv (updateSeqAndTopicsByNodeID n k its tm)"
  by (simp add: tm_inv_def updateSeqAndTopicsByNodeID_def um_has_iff um_simps)

lemma erase_offline_eq:
  "erase_offline online seqs items = (filter (\<lambda>(n, k). n \<in> set online) seqs,
     fold um_erase (filter (\<lambda>n. n \<notin> set online) (map fst seqs)) items)"
  by (induction online seqs items rule: erase_offline.induct) auto

lemma notifyNodeIDs_find:
  assumes "tm_inv tm"
  shows "map_of (m_nodeID2TopicSeq (notifyNodeIDs online tm)) n
      = (if n \<in> set online then map_of (m_nodeID2TopicSeq tm) n else None)"
    and "map_of (m_nodeID2TopicItems (notifyNodeIDs online tm)) n
      = (if n \<in> set online then map_of (m_nodeID2TopicItems tm) n else None)"
proof -
  have ok: "um_ok (m_nodeID2TopicSeq tm)" using assms by (simp add: tm_inv_def)
  show "map_of (m_nodeID2TopicSeq (notifyNodeIDs online tm)) n
      = (if n \<in> set online then map_of (m_nodeID2TopicSeq tm) n else None)"
    using um_find_filter [OF ok, of "\<lambda>n k. n \<in> set online" n]
    by (simp add: notifyNodeIDs_def erase_offline_eq split: option.split)
  have "um_has n (m_nodeID2TopicSeq tm) \<longleftrightarrow> um_has n (m_nodeID2TopicItems tm)"
    using assms by (simp add: tm_inv_def)
  then have "n \<notin> set (map fst (m_nodeID2TopicSeq tm)) \<Longrightarrow> map_of (m_nodeID2TopicItems tm) n = None"
    by (simp add: um_has_iff map_of_eq_None_iff)
  then show "map_of (m_nodeID2TopicItems (notifyNodeIDs online tm)) n
      = (if n \<in> set online then map_of (m_nodeID2TopicItems tm) n else None)"
    by (auto simp: notifyNodeIDs_def erase_offline_eq find_fold_erase)
qed

lemma tm_inv_notify: "tm_inv tm \<Longrightarrow> tm_inv (notifyNodeIDs online tm)"
proof -
  assume inv: "tm_inv tm"
  have "um_has n (m_nodeID2TopicSeq (notifyNodeIDs online tm))
      \<longleftrightarrow> um_has n (m_nodeID2TopicItems (notifyNodeIDs online tm))" for n
    using inv by (simp add: um_has_iff notifyNodeIDs_find [OF inv] tm_inv_def)
  moreover have "items_ok (m_nodeID2TopicItems (notifyNodeIDs online tm))"
    using inv by (simp add: notifyNodeIDs_def erase_offline_eq items_ok_fold_erase tm_inv_def)
  ultimately show ?thesis
    using inv by (simp add: tm_inv_def notifyNodeIDs_def erase_offline_eq)
qed

end
