(* ===== verification/Topic_Gossip.thy ===== *)
theory Topic_Gossip
  imports Topic_Manager
begin

text \<open>
  The gossip of the topic manager: the JSON of an announcement, the contracts of \<open>Seq_Gossip\<close>
  interpreted on its operations, and the properties of the component.
\<close>

section \<open>The local topics and their JSON\<close>

lemma local_topics_fold:
  "os_ok acc \<Longrightarrow> os_ok (fold (\<lambda>(c, items) acc. os_insert_all items acc) m acc)"
  "set (fold (\<lambda>(c, items) acc. os_insert_all items acc) m acc) = set acc \<union> (\<Union>(c, its) \<in> set m. set its)"
  by (induction m arbitrary: acc) auto

lemma local_topics_ok: "os_ok (local_topics tm)"
  by (simp add: local_topics_def local_topics_fold(1))

lemma um_at_mem: "x \<in> set (um_at m k) \<longleftrightarrow> (\<exists>its. map_of m k = Some its \<and> x \<in> set its)"
  by (cases "map_of m k") (simp_all add: um_at_def)

lemma local_topics_subscribed:
  assumes "tm_inv tm"
  shows "topicName ` set (local_topics tm) = subscribed tm"
proof -
  have ok: "items_ok (m_client2TopicItems tm)" using assms by (simp add: tm_inv_def)
  have "set (local_topics tm) = (\<Union>(c, its) \<in> set (m_client2TopicItems tm). set its)"
    by (simp add: local_topics_def local_topics_fold(2))
  also have "\<dots> = {t. \<exists>c. t \<in> set (um_at (m_client2TopicItems tm) c)}"
    by (fastforce simp: um_at_mem items_mem [OF ok] intro: items_mem [OF ok, THEN iffD2])
  finally show ?thesis by (auto simp: subscribed_def client_topics_def)
qed

definition topics_doc :: "u32 \<Rightarrow> topic_items \<Rightarrow> jdoc" where
  "topics_doc seq its = JObject [''topicSeq'' \<mapsto> JUInt seq,
     ''topicItems'' \<mapsto> JArray (map (\<lambda>t. JString (topicName t)) its)]"

definition plain_topics :: "topic_items \<Rightarrow> bool" where
  "plain_topics its = list_all (\<lambda>t. plain_string (topicName t)) its"

lemma plain_topics_doc: "plain_topics its \<Longrightarrow> plain_doc (topics_doc seq its)"
proof -
  assume "plain_topics its"
  moreover have "plain_string ''topicSeq''" "plain_string ''topicItems''" by (simp_all add: plain_string_def)
  ultimately show ?thesis unfolding topics_doc_def
    by (intro plain_doc.intros)
      (auto simp: plain_topics_def list_all_iff split: if_splits intro!: plain_doc.intros)
qed

lemma build_topics_view:
  assumes jl: "json_spec jl view"
  shows "view v = JArray ds \<Longrightarrow>
    \<exists>v'. build_topics jl v its = Some v' \<and> view v' = JArray (ds @ map (\<lambda>t. JString (topicName t)) its)"
proof (induction its arbitrary: v ds)
  case (Cons t its)
  obtain v1 where v1: "jl_append jl v (jl_string jl (topicName t)) = Some v1"
      "view v1 = JArray (ds @ [JString (topicName t)])"
    using json_laws(12) [OF jl Cons.prems, of "jl_string jl (topicName t)"] json_laws(10) [OF jl] by auto
  from Cons.IH [OF v1(2)] v1(1) show ?case by simp
qed simp

lemma announcement_text:
  assumes jl: "json_spec jl view" and plain: "plain_topics (local_topics tm)"
  shows "\<exists>v. jl_parse jl (queryTopicsSubByClient jl tm) = Some v \<and> view v = topics_doc (m_topicSeq tm) (local_topics tm)"
proof -
  obtain v1 where v1: "build_topics jl (jl_array jl) (local_topics tm) = Some v1"
      "view v1 = JArray (map (\<lambda>t. JString (topicName t)) (local_topics tm))"
    using build_topics_view [OF jl, of "jl_array jl" "[]" "local_topics tm"] json_laws(8) [OF jl] by auto
  obtain v2 where v2: "jl_set jl (jl_null jl) ''topicSeq'' (jl_uint jl (m_topicSeq tm)) = Some v2"
      "view v2 = JObject [''topicSeq'' \<mapsto> JUInt (m_topicSeq tm)]"
    using json_laws(11) [OF jl, of "jl_null jl" Map.empty "''topicSeq''" "jl_uint jl (m_topicSeq tm)"]
      json_laws(7,9) [OF jl] by (auto simp: object_of_def)
  obtain v3 where v3: "jl_set jl v2 ''topicItems'' v1 = Some v3" "view v3 = topics_doc (m_topicSeq tm) (local_topics tm)"
    using json_laws(11) [OF jl, of v2 _ "''topicItems''" v1] v2(2) v1(2) by (auto simp: object_of_def topics_doc_def)
  obtain t v4 where "jl_write jl v3 = Some t" "jl_parse jl t = Some v4" "view v4 = view v3"
    using json_laws(1) [OF jl, of v3] plain_topics_doc [OF plain] v3(2) by auto
  with v1 v2 v3 show ?thesis by (simp add: queryTopicsSubByClient_def)
qed

lemma parse_topics_view:
  assumes jl: "json_spec jl view" and root: "view root = JObject f"
    "f key = Some (JArray (map (\<lambda>t. JString (topicName t)) its))"
  shows "list_all (\<lambda>i. i < length its) is \<Longrightarrow>
    parse_topics jl key root is acc = Some (fold os_insert (map ((!) its) is) acc)"
proof (induction "is" arbitrary: acc)
  case (Cons i "is")
  obtain arr where arr: "jl_member jl root key = Some arr"
      "view arr = JArray (map (\<lambda>t. JString (topicName t)) its)"
    using json_laws(2) [OF jl root] by blast
  obtain v where v: "jl_index jl arr i = Some v" "view v = JString (topicName (its ! i))"
    using json_laws(3) [OF jl arr(2), of i] Cons.prems by auto
  have "jl_asString jl v = Some (topicName (its ! i))" by (rule json_laws(6) [OF jl v(2)])
  with arr v Cons show ?case by simp
qed simp

lemma parse_announcement:
  assumes jl: "json_spec jl view" and parsed: "jl_parse jl t = Some v" "view v = topics_doc seq its" and its: "os_ok its"
  shows "parseTopicItemsJson jl t = Some (seq, its)"
proof -
  let ?f = "[''topicSeq'' \<mapsto> JUInt seq, ''topicItems'' \<mapsto> JArray (map (\<lambda>t. JString (topicName t)) its)]"
  have root: "view v = JObject ?f" using parsed(2) by (simp add: topics_doc_def)
  have items_at: "?f ''topicItems'' = Some (JArray (map (\<lambda>t. JString (topicName t)) its))" by simp
  obtain s where s: "jl_member jl v ''topicSeq'' = Some s" "view s = JUInt seq"
    using json_laws(2) [OF jl root, of "''topicSeq''"] by auto
  obtain arr where arr: "jl_member jl v ''topicItems'' = Some arr"
      "view arr = JArray (map (\<lambda>t. JString (topicName t)) its)"
    using json_laws(2) [OF jl root items_at] by blast
  have "jl_size jl arr = length its" using json_laws(4) [OF jl arr(2)] by simp
  moreover have "fold os_insert its [] = its"
    by (rule os_eqI) (use its in \<open>simp_all add: os_insert_all_def [symmetric]\<close>)
  ultimately have "parse_topics jl ''topicItems'' v [0..<jl_size jl arr] [] = Some its"
    using parse_topics_view [OF jl root items_at, of "[0..<length its]" "[]"] by (simp add: list_all_iff map_nth)
  with s arr parsed(1) json_laws(5) [OF jl s(2)] show ?thesis by (simp add: parseTopicItemsJson_def)
qed

lemma announcement_read:
  assumes "json_spec jl view" and "plain_topics (local_topics tm)"
  shows "parseTopicItemsJson jl (queryTopicsSubByClient jl tm) = Some (m_topicSeq tm, local_topics tm)"
  using announcement_text [OF assms] parse_announcement [OF assms(1) _ _ local_topics_ok] by blast

section \<open>The contracts of the gossip\<close>

definition items_view :: "topic_items \<Rightarrow> string set" where
  "items_view its = topicName ` set its"

interpretation topic_cache: seq_cache tm_inv os_ok updateSeqAndTopicsByNodeID checkTopicSeq node_topics items_view
proof unfold_locales
  fix s :: topic_manager and v :: topic_items and p :: string and n :: u32
  assume "tm_inv s" and "os_ok v"
  then show "tm_inv (updateSeqAndTopicsByNodeID p n v s)" by (rule tm_inv_update)
  show "checkTopicSeq q k (updateSeqAndTopicsByNodeID p n v s) \<longleftrightarrow> (if q = p then k \<noteq> n else checkTopicSeq q k s)" for q k
    by (auto simp: checkTopicSeq_def updateSeqAndTopicsByNodeID_def um_simps)
  show "node_topics (updateSeqAndTopicsByNodeID p n v s) q = (if q = p then items_view v else node_topics s q)" for q
    by (simp add: node_topics_def updateSeqAndTopicsByNodeID_def items_view_def um_at_def um_simps)
qed

datatype topic_op =
    Subscribe string string
  | RemoveTopic string "string list"
  | RemoveClients "string list"
  | CheckClients "nat \<Rightarrow> string list \<times> string list \<Rightarrow> string list \<times> string list"

fun topic_step :: "'j jsonlib \<Rightarrow> (string \<Rightarrow> nat option) \<Rightarrow> topic_op \<Rightarrow> topic_manager \<Rightarrow> topic_manager" where
  "topic_step jl proxy (Subscribe client json) tm = subTopic jl proxy client json tm"
| "topic_step jl proxy (RemoveTopic client topics) tm = removeTopics client topics tm"
| "topic_step jl proxy (RemoveClients clients) tm = removeTopicsByClients clients tm"
| "topic_step jl proxy (CheckClients tars) tm = checkClientConnection tars tm"

lemma checkClientConnection_seq: "m_topicSeq (checkClientConnection tars tm) = m_topicSeq tm + 1"
  by (simp add: checkClientConnection_def removeClients_eq split: prod.split)

lemma topic_step_bump:
  "\<exists>k \<le> 1. m_topicSeq (topic_step jl proxy op tm) = m_topicSeq tm + of_nat k \<and>
     (k = 0 \<longrightarrow> subscribed (topic_step jl proxy op tm) = subscribed tm)"
proof (cases op)
  case (Subscribe client json)
  then show ?thesis
    by (cases "parseSubTopicsJson jl json")
      (auto simp: subTopic_def subTopic_items_def incTopicSeq_def intro: exI [of _ 0] exI [of _ 1])
next
  case (RemoveTopic client topics)
  then show ?thesis
    by (cases "map_of (m_client2TopicItems tm) client")
      (auto simp: removeTopics_def incTopicSeq_def intro: exI [of _ 0] exI [of _ 1])
next
  case (RemoveClients clients)
  then show ?thesis by (intro exI [of _ 1]) (simp add: removeClients_eq)
next
  case (CheckClients tars)
  then show ?thesis by (intro exI [of _ 1]) (simp add: checkClientConnection_seq)
qed

interpretation topic_publisher: versioned "topic_step jl proxy" m_topicSeq subscribed "\<lambda>_. 1" for jl proxy
  by unfold_locales (rule topic_step_bump)

lemma tm_inv_topic_step: "tm_inv tm \<Longrightarrow> tm_inv (topic_step jl proxy op tm)"
  by (cases op) (simp_all add: tm_inv_subTopic tm_inv_removeTopics tm_inv_removeClients tm_inv_check)

lemma tm_inv_topic_run: "tm_inv tm \<Longrightarrow> tm_inv (fold (topic_step jl proxy) ops tm)"
  by (induction ops arbitrary: tm) (simp_all add: tm_inv_topic_step)

lemma queries_exact:
  assumes "tm_inv tm"
  shows "distinct (queryClientsByTopic topic tm) \<and>
    set (queryClientsByTopic topic tm) = {c. topic \<in> client_topics tm c} \<and>
    distinct (queryNodeIDsByTopic connected topic tm) \<and>
    set (queryNodeIDsByTopic connected topic tm) = {n. connected n \<and> topic \<in> node_topics tm n}"
proof -
  have ok: "items_ok (m_client2TopicItems tm)" "items_ok (m_nodeID2TopicItems tm)"
    using assms by (simp_all add: tm_inv_def)
  have distinct: "distinct (map fst (filter P m))" if "items_ok m" for P and m :: "(string \<times> topic_items) list"
    using that by (simp add: items_ok_def um_ok_def distinct_map_filter)
  have keys: "fst ` {x \<in> set m. case x of (k, its) \<Rightarrow> list_ex (\<lambda>t. topic = topicName t) its \<and> P k}
      = {k. P k \<and> topic \<in> topicName ` set (um_at m k)}" if "items_ok m" for P and m :: "(string \<times> topic_items) list"
    using items_mem [OF that] by (force simp: um_at_mem list_ex_iff image_iff)
  show ?thesis
    using distinct [OF ok(1)] distinct [OF ok(2)] keys [OF ok(1), of "\<lambda>_. True"] keys [OF ok(2), of connected]
    by (simp add: queryClientsByTopic_def queryNodeIDsByTopic_def client_topics_def node_topics_def)
qed

section \<open>Properties\<close>

text \<open>
  The clients that get a message of a topic are exactly those subscribed to it, each
  once, and the peers it can be sent to are exactly the connected ones whose last announcement
  lists the topic, each once.
\<close>

theorem topic_queries_exact:
  assumes "tm_inv tm"
  shows "distinct (queryClientsByTopic topic tm) \<and>
    set (queryClientsByTopic topic tm) = {c. topic \<in> client_topics tm c} \<and>
    distinct (queryNodeIDsByTopic connected topic tm) \<and>
    set (queryNodeIDsByTopic connected topic tm) = {n. connected n \<and> topic \<in> node_topics tm n}"
  by (rule queries_exact [OF assms])

lemma example_topics_ok: "tm_inv (updateSeqAndTopicsByNodeID ''p1'' 4 [TopicItem ''t''] (new_topic_manager None))"
  by (rule tm_inv_update [OF tm_inv_new]) (simp add: os_ok_def)

theorem topic_queries_exact_witness:
  "let tm = updateSeqAndTopicsByNodeID ''p1'' 4 [TopicItem ''t''] (new_topic_manager None)
   in distinct (queryClientsByTopic ''t'' tm) \<and> set (queryClientsByTopic ''t'' tm) = {c. ''t'' \<in> client_topics tm c} \<and>
      distinct (queryNodeIDsByTopic (\<lambda>_. True) ''t'' tm) \<and>
      set (queryNodeIDsByTopic (\<lambda>_. True) ''t'' tm) = {n. True \<and> ''t'' \<in> node_topics tm n}"
  unfolding Let_def by (rule topic_queries_exact [OF example_topics_ok])

lemma client_topics_put:
  "client_topics (tm\<lparr>m_client2TopicItems := um_put c its (m_client2TopicItems tm)\<rparr>) d
    = (if d = c then topicName ` set its else client_topics tm d)"
  by (simp add: client_topics_def um_at_def um_simps)

lemma client_topics_same: "m_client2TopicItems tm' = m_client2TopicItems tm \<Longrightarrow> client_topics tm' c = client_topics tm c"
  by (simp add: client_topics_def)

lemma client_topics_subTopic_items:
  "client_topics (subTopic_items p c its tm) d = (if d = c then topicName ` set its else client_topics tm d)"
  by (simp add: subTopic_items_def incTopicSeq_def client_topics_def um_at_def um_simps)

lemma client_topics_remove:
  "client_topics (removeTopics c ts tm) d = (if d = c then client_topics tm c - set ts else client_topics tm d)"
proof (cases "map_of (m_client2TopicItems tm) c")
  case None
  then show ?thesis by (simp add: removeTopics_def client_topics_def um_at_def)
next
  case (Some its)
  have "topicName ` {x \<in> set its. x \<notin> TopicItem ` set ts} = topicName ` set its - set ts"
    by (auto simp: image_iff)
  with Some show ?thesis
    by (simp add: removeTopics_def incTopicSeq_def client_topics_def um_at_def um_simps erase_topics(2))
qed

lemma client_topics_removeClients:
  "client_topics (removeTopicsByClients cs tm) d = (if d \<in> set cs then {} else client_topics tm d)"
  by (simp add: removeClients_eq client_topics_def um_at_def find_fold_erase)

lemma parse_subscription:
  assumes jl: "json_spec jl view" and parsed: "jl_parse jl json = Some v" "view v = JObject f"
    and topics: "f ''topics'' = Some (JArray (map JString ts))"
  shows "parseSubTopicsJson jl json = Some (fold os_insert (map TopicItem ts) [])"
proof -
  have at: "f ''topics'' = Some (JArray (map (\<lambda>t. JString (topicName t)) (map TopicItem ts)))"
    using topics by (simp add: o_def)
  obtain arr where arr: "jl_member jl v ''topics'' = Some arr" "view arr = JArray (map JString ts)"
    using json_laws(2) [OF jl parsed(2) topics] by blast
  have "jl_size jl arr = length (map TopicItem ts)" using json_laws(4) [OF jl arr(2)] by simp
  then have "parse_topics jl ''topics'' v [0..<jl_size jl arr] [] = Some (fold os_insert (map TopicItem ts) [])"
    using parse_topics_view [OF jl parsed(2) at, of "[0..<length (map TopicItem ts)]" "[]"]
    by (simp only: map_nth list_all_iff set_upt) simp
  with arr(1) parsed(1) show ?thesis by (simp add: parseSubTopicsJson_def)
qed

text \<open>
  After a client has subscribed with a JSON array of topics it has exactly those topics,
  whatever it had before; removing topics leaves the client the others; removing clients leaves
  them none. No other client is touched, and every one of these changes moves the topic version.
\<close>

theorem topic_subscription_effects:
  assumes "json_spec jl view" and "jl_parse jl json = Some v" and "view v = JObject f"
    and "f ''topics'' = Some (JArray (map JString ts))"
  shows "client_topics (subTopic jl proxy c json tm) d = (if d = c then set ts else client_topics tm d) \<and>
    m_topicSeq (subTopic jl proxy c json tm) = m_topicSeq tm + 1 \<and>
    client_topics (removeTopics c gone tm) d
      = (if d = c then client_topics tm c - set gone else client_topics tm d) \<and>
    client_topics (removeTopicsByClients cs tm) d = (if d \<in> set cs then {} else client_topics tm d)"
proof -
  have "set (fold os_insert (map TopicItem ts) []) = TopicItem ` set ts"
    using set_os_insert_all [of "map TopicItem ts" "[]"] by (simp add: os_insert_all_def)
  then have "topicName ` set (fold os_insert (map TopicItem ts) []) = set ts"
    by (simp add: image_image)
  then show ?thesis
    using parse_subscription [OF assms]
    by (simp add: subTopic_def client_topics_subTopic_items client_topics_remove client_topics_removeClients)
      (simp add: subTopic_items_def incTopicSeq_def)
qed

lemma example_subscription:
  "\<exists>v. jl_parse jv_lib (jv_write (VObject [(''topics'', VArray [VString ''t''])])) = Some v \<and>
    jv_view v = JObject [''topics'' \<mapsto> JArray (map JString [''t''])]"
  by (rule exI [of _ "VObject [(''topics'', VArray [VString ''t''])]"])
    (simp only: jv_parse_write, simp)

theorem topic_subscription_effects_witness:
  "client_topics (subTopic jv_lib (\<lambda>_. Some 1) ''c'' (jv_write (VObject [(''topics'', VArray [VString ''t''])]))
      (new_topic_manager None)) ''c'' = {''t''}"
proof -
  obtain v where "jl_parse jv_lib (jv_write (VObject [(''topics'', VArray [VString ''t''])])) = Some v"
      "jv_view v = JObject [''topics'' \<mapsto> JArray (map JString [''t''])]"
    using example_subscription by blast
  from topic_subscription_effects [OF jv_lib_spec this, where ts = "[''t'']" and c = "''c''" and d = "''c''"
      and proxy = "\<lambda>_. Some 1" and tm = "new_topic_manager None"]
  show ?thesis by simp
qed

lemma check_clients_gone:
  assumes "\<And>rpc eps. tars rpc eps = ends rpc"
  shows "check_clients tars eps m = (filter (\<lambda>(c, rpc). fst (ends rpc) \<noteq> []) m,
    map fst (filter (\<lambda>(c, rpc). fst (ends rpc) = []) m))"
  by (induction m arbitrary: eps) (auto simp: assms Let_def split: prod.split)

text \<open>
  The check of the clients' connections drops the topics of exactly the known clients
  whose proxy has no active endpoint. It moves the topic version even when there is no such
  client, so that every peer asks for the topics again after each check.
\<close>

theorem topic_client_check:
  assumes "\<And>rpc eps. tars rpc eps = ends rpc" and "tm_inv tm"
  shows "client_topics (checkClientConnection tars tm) d =
      (case map_of (m_clientInfo tm) d of None \<Rightarrow> client_topics tm d
       | Some rpc \<Rightarrow> if fst (ends rpc) = [] then {} else client_topics tm d) \<and>
    m_topicSeq (checkClientConnection tars tm) = m_topicSeq tm + 1"
proof -
  have ok: "um_ok (m_clientInfo tm)" using assms(2) by (simp add: tm_inv_def)
  have gone: "d \<in> fst ` {x \<in> set (m_clientInfo tm). case x of (c, rpc) \<Rightarrow> fst (ends rpc) = []} \<longleftrightarrow>
      (\<exists>rpc. map_of (m_clientInfo tm) d = Some rpc \<and> fst (ends rpc) = [])"
    using um_mem_iff [OF ok] by force
  have "client_topics (checkClientConnection tars tm) d = (if \<exists>rpc. map_of (m_clientInfo tm) d = Some rpc \<and>
      fst (ends rpc) = [] then {} else client_topics tm d)"
    by (auto simp: checkClientConnection_def check_clients_gone [OF assms(1)] client_topics_removeClients gone
        client_topics_same [of "tm\<lparr>m_clientInfo := _\<rparr>" tm])
  then show ?thesis
    by (cases "map_of (m_clientInfo tm) d") (simp_all add: checkClientConnection_seq)
qed

theorem topic_client_check_witness:
  "let tars = (\<lambda>rpc eps. if rpc = 1 then ([], []) else ([''e''], []));
       tm = subTopic_items (\<lambda>_. Some (1 :: nat)) ''c'' [TopicItem ''t''] (new_topic_manager None)
   in client_topics (checkClientConnection tars tm) ''c'' = {} \<and> m_topicSeq (checkClientConnection tars tm) = 3"
proof -
  let ?tm = "subTopic_items (\<lambda>_. Some (1 :: nat)) ''c'' [TopicItem ''t''] (new_topic_manager None)"
  have "tm_inv ?tm" by (rule tm_inv_subTopic_items [OF tm_inv_new]) (simp add: os_ok_def)
  moreover have "map_of (m_clientInfo ?tm) ''c'' = Some 1" and "m_topicSeq ?tm = 2"
    by (simp_all add: subTopic_items_def createAndGetServiceByClient_def new_topic_manager_def incTopicSeq_def)
  ultimately show ?thesis
    using topic_client_check [of "\<lambda>rpc eps. if rpc = 1 then ([], []) else ([''e''], [])"
        "\<lambda>rpc. if rpc = 1 then ([], []) else ([''e''], [])" ?tm "''c''"]
    by (simp add: Let_def)
qed

end
