(* ===== verification/Retry_Loop.thy ===== *)
theory Retry_Loop
  imports Gw_Prelude "HOL-Library.Multiset"
begin

text \<open>
  Sending with retry. Both the gateway (\<open>Gateway.cpp\<close>, class \<open>Retry\<close>) and AMOP
  (\<open>AMOPImpl.cpp\<close>, class \<open>RetrySender\<close>) hold a list of peers, take one at random, send, and
  try the rest when the answer is an error. The contract is stated here as a locale, with a
  second one for the senders that take out of the list the peer they have chosen; each sender is
  interpreted in its own theory. The random choice is \<open>std::shuffle\<close>.
\<close>

section \<open>std::shuffle\<close>

definition swap_at :: "nat \<Rightarrow> nat \<Rightarrow> 'a list \<Rightarrow> 'a list" where
  "swap_at i j xs = xs[i := xs ! j, j := xs ! i]"

text \<open>
  The generator is any sequence of numbers; number \<open>i\<close> selects the element that is swapped with
  the one at \<open>i\<close>, among those up to it.
\<close>

definition std_shuffle :: "(nat \<Rightarrow> nat) \<Rightarrow> 'a list \<Rightarrow> 'a list" where
  "std_shuffle rnd xs = fold (\<lambda>i. swap_at i (rnd i mod Suc i)) [1..<length xs] xs"

lemma length_swap_at [simp]: "length (swap_at i j xs) = length xs"
  by (simp add: swap_at_def)

lemma mset_swap_at: "i < length xs \<Longrightarrow> j \<le> i \<Longrightarrow> mset (swap_at i j xs) = mset xs"
  unfolding swap_at_def by (rule mset_swap) simp_all

lemma mset_fold_swap:
  "list_all (\<lambda>i. i < length xs) is \<Longrightarrow>
   mset (fold (\<lambda>i. swap_at i (rnd i mod Suc i)) is xs) = mset xs"
proof (induction "is" arbitrary: xs)
  case (Cons i "is")
  have "rnd i mod Suc i \<le> i" by (simp add: less_Suc_eq_le [symmetric])
  with Cons show ?case by (simp add: mset_swap_at)
qed simp

lemma mset_std_shuffle [simp]: "mset (std_shuffle rnd xs) = mset xs"
  unfolding std_shuffle_def by (rule mset_fold_swap) (simp add: list_all_iff)

lemma set_std_shuffle [simp]: "set (std_shuffle rnd xs) = set xs"
  by (rule mset_eq_setD) simp

lemma length_std_shuffle [simp]: "length (std_shuffle rnd xs) = length xs"
  by (rule mset_eq_length) simp

lemma std_shuffle_Nil [simp]: "std_shuffle rnd xs = [] \<longleftrightarrow> xs = []"
  using length_std_shuffle [of rnd xs] by (metis length_0_conv)

text \<open>Every element can come first.\<close>

lemma fold_no_swap:
  "fold (\<lambda>i. swap_at i i) is xs = xs"
  by (induction "is" arbitrary: xs) (simp_all add: swap_at_def)

lemma std_shuffle_id: "std_shuffle (\<lambda>i. i) xs = xs"
  by (simp add: std_shuffle_def fold_no_swap)

section \<open>The contract of a retrying sender\<close>

datatype 'a verdict = GaveUp | Replied 'a | NoReply

text \<open>
  \<open>net k n\<close> is what comes back from the peer \<open>n\<close> when \<open>k\<close> peers are left in the list, if
  anything does; \<open>fails\<close> says which replies make the sender try again. \<open>run\<close> gives the peers
  tried, in order, and how it ended.
\<close>

locale retry_loop =
  fixes fails :: "'a \<Rightarrow> bool" and pick :: "'n list \<Rightarrow> 'n" and rest :: "'n list \<Rightarrow> 'n list"
    and run :: "(nat \<Rightarrow> 'n \<Rightarrow> 'a option) \<Rightarrow> 'n list \<Rightarrow> 'n list \<times> 'a verdict"
  assumes run_Nil: "run net [] = ([], GaveUp)"
    and run_Cons: "xs \<noteq> [] \<Longrightarrow> run net xs =
      (case net (length xs) (pick xs) of
         None \<Rightarrow> ([pick xs], NoReply)
       | Some r \<Rightarrow> if fails r then apfst ((#) (pick xs)) (run net (rest xs)) else ([pick xs], Replied r))"
    and pick_in: "xs \<noteq> [] \<Longrightarrow> pick xs \<in> set xs"
    and rest_in: "xs \<noteq> [] \<Longrightarrow> set (rest xs) \<subseteq> set xs"
    and rest_length: "xs \<noteq> [] \<Longrightarrow> Suc (length (rest xs)) = length xs"
begin

lemma run_cases:
  assumes "xs \<noteq> []"
  obtains (no_reply) "net (length xs) (pick xs) = None" "run net xs = ([pick xs], NoReply)"
  | (again) r where "net (length xs) (pick xs) = Some r" "fails r"
      "run net xs = apfst ((#) (pick xs)) (run net (rest xs))"
  | (replied) r where "net (length xs) (pick xs) = Some r" "\<not> fails r" "run net xs = ([pick xs], Replied r)"
  using run_Cons [OF assms, of net] by (cases "net (length xs) (pick xs)") (auto split: if_splits)

lemma rest_induct [case_names Nil step]:
  assumes "P []" and "\<And>xs. xs \<noteq> [] \<Longrightarrow> P (rest xs) \<Longrightarrow> P xs"
  shows "P xs"
proof (induction "length xs" arbitrary: xs)
  case (Suc n)
  then have xs: "xs \<noteq> []" by auto
  have "n = length (rest xs)" using rest_length [OF xs] Suc.hyps(2) by simp
  then have "P (rest xs)" by (rule Suc.hyps(1))
  with xs show ?case by (rule assms(2))
qed (simp add: assms(1))

lemma tried_known: "set (fst (run net xs)) \<subseteq> set xs"
proof (induction xs rule: rest_induct)
  case (step xs)
  note picked = pick_in [OF step(1)] and kept = rest_in [OF step(1)]
  from step(1) show ?case
  proof (cases rule: run_cases [where net = net])
    case (again r)
    then have "set (fst (run net xs)) = insert (pick xs) (set (fst (run net (rest xs))))" by simp
    with step(2) picked kept show ?thesis by (simp add: subset_trans [of _ "set (rest xs)"])
  qed (simp_all add: picked)
qed (simp add: run_Nil)

lemma tried_at_most: "length (fst (run net xs)) \<le> length xs"
proof (induction xs rule: rest_induct)
  case (step xs)
  from step(1) show ?case
    by (cases rule: run_cases [where net = net]) (use step rest_length [of xs] in auto)
qed (simp add: run_Nil)

lemma gave_up_all: "snd (run net xs) = GaveUp \<Longrightarrow> length (fst (run net xs)) = length xs"
proof (induction xs rule: rest_induct)
  case (step xs)
  from step(1) show ?case
    by (cases rule: run_cases [where net = net]) (use step rest_length [of xs] in auto)
qed (simp add: run_Nil)

text \<open>The reply handed on is one that came back from the peer tried last, and is no failure.\<close>

lemma replied_last:
  "snd (run net xs) = Replied r \<Longrightarrow>
   \<not> fails r \<and> fst (run net xs) \<noteq> [] \<and> (\<exists>k. net k (last (fst (run net xs))) = Some r)"
proof (induction xs rule: rest_induct)
  case (step xs)
  from step(1) show ?case
    by (cases rule: run_cases [where net = net]) (use step in auto)
qed (simp add: run_Nil)

lemma tried_some: "xs \<noteq> [] \<Longrightarrow> fst (run net xs) \<noteq> []"
  by (cases rule: run_cases [where net = net]) auto

end

locale retry_exhaustive = retry_loop fails pick rest run
  for fails :: "'a \<Rightarrow> bool" and pick :: "'n list \<Rightarrow> 'n" and rest :: "'n list \<Rightarrow> 'n list"
    and run :: "(nat \<Rightarrow> 'n \<Rightarrow> 'a option) \<Rightarrow> 'n list \<Rightarrow> 'n list \<times> 'a verdict" +
  assumes takes_out: "xs \<noteq> [] \<Longrightarrow> mset xs = add_mset (pick xs) (mset (rest xs))"
begin

lemma tried_once: "mset (fst (run net xs)) \<subseteq># mset xs"
proof (induction xs rule: rest_induct)
  case (step xs)
  from step(1) show ?case
    by (cases rule: run_cases [where net = net]) (use step takes_out [of xs] in auto)
qed (simp add: run_Nil)

lemma tried_distinct: "distinct xs \<Longrightarrow> distinct (fst (run net xs))"
proof -
  assume xs: "distinct xs"
  obtain M where M: "mset xs = mset (fst (run net xs)) + M"
    using tried_once by (metis mset_subset_eq_exists_conv)
  obtain ys where "M = mset ys" by (metis ex_mset)
  with M have "mset xs = mset (fst (run net xs) @ ys)" by simp
  with xs have "distinct (fst (run net xs) @ ys)" by (metis mset_eq_imp_distinct_iff)
  then show ?thesis by simp
qed

lemma gave_up_tried_all: "snd (run net xs) = GaveUp \<Longrightarrow> mset (fst (run net xs)) = mset xs"
proof (induction xs rule: rest_induct)
  case (step xs)
  from step(1) show ?case
    by (cases rule: run_cases [where net = net]) (use step takes_out [of xs] in auto)
qed (simp add: run_Nil)

lemma gave_up_failed:
  "snd (run net xs) = GaveUp \<Longrightarrow> n \<in> set xs \<Longrightarrow> \<exists>k r. net k n = Some r \<and> fails r"
proof (induction xs rule: rest_induct)
  case (step xs)
  from step(1) show ?case
  proof (cases rule: run_cases [where net = net])
    case (again r)
    have "n = pick xs \<or> n \<in> set (rest xs)"
      using arg_cong [OF takes_out [OF step(1)], of set_mset] step(4) by simp
    with again step show ?thesis by auto
  qed (use step in auto)
qed simp

text \<open>A peer that would deliver is enough.\<close>

lemma delivers:
  assumes "n \<in> set xs" and "\<And>k. \<exists>r. net k n = Some r \<and> \<not> fails r"
  shows "snd (run net xs) \<noteq> GaveUp"
  using gave_up_failed [OF _ assms(1), of net] assms(2) by (metis option.inject)

end

end
