(* ===== verification/AMOP_Impl.thy ===== *)
theory AMOP_Impl
  imports AMOP_Message P2P_Message Topic_Gossip Retry_Loop
begin

text \<open>
  \<open>libamop/AMOPImpl.h/.cpp\<close>: the topic protocol between gateways and the delivery of messages by
  topic. The state is the topic manager's; every handler returns it with the effects it has, in
  order: what it hands to the P2P network, to the clients and to callbacks. A continuation given
  with a request is a datatype value that carries what the closure captures, and has a
  definition of its own below. Callbacks from outside are named by numbers.
\<close>

section \<open>Effects\<close>

record retry_sender =
  rs_nodeIDs :: "string list"
  rs_buffer :: bytes
  rs_callback :: "nat option"

datatype p2p_continuation = OnlyLog | RetrySender retry_sender

datatype amop_kind = Unicast | Broadcast

text \<open>Where the answer of a client goes: to the session of a peer's request, or to a local caller.\<close>

datatype reply_target = ToPeer nat p2p_message | ToCaller "nat option"

datatype client_continuation = ClientOnlyLog | ClientReply reply_target

datatype amop_effect =
    BroadcastToPeers u16 bytes u32
  | SendToPeer u16 string bytes u32 p2p_continuation
  | SendToPeers u16 "string list" bytes u32
  | NotifyClient nat amop_kind string bytes client_continuation
  | RespondLater reply_target bytes u16 \<comment> \<open>a job of the dispatcher's thread\<close>
  | AnswerSession nat p2p_message
  | CallBack nat "error_info option" u16 "bytes option"
  | RestartTimer

text \<open>\<open>randomChoose\<close> of \<open>libamop/Common.h\<close>\<close>

definition randomChoose :: "(nat \<Rightarrow> nat) \<Rightarrow> 'a list \<Rightarrow> 'a" where
  "randomChoose rnd datas = hd (std_shuffle rnd datas)"

lemma randomChoose_in: "xs \<noteq> [] \<Longrightarrow> randomChoose rnd xs \<in> set xs"
  using set_std_shuffle [of rnd xs] by (metis randomChoose_def hd_in_set std_shuffle_Nil)

section \<open>Topic synchronisation\<close>

definition buildAndEncodeMessage :: "u16 \<Rightarrow> bytes \<Rightarrow> bytes" where
  "buildAndEncodeMessage type data = snd (amop_encode (new_amop\<lparr>a_type := type, a_data := data\<rparr>) [])"

definition broadcastTopicSeq :: "('key, 'more) bcos_fw_scheme \<Rightarrow> topic_manager \<Rightarrow> amop_effect list" where
  "broadcastTopicSeq fw tm =
     (let topicSeq = to_string_nat (unat (m_topicSeq tm));
          buffer = buildAndEncodeMessage amop_TopicSeq (bytes_of_string topicSeq)
      in [BroadcastToPeers (mtAMOPMessageType fw) buffer 0, RestartTimer])"

definition onReceiveTopicSeqMessage ::
  "('key, 'more) bcos_fw_scheme \<Rightarrow> string \<Rightarrow> amop_message \<Rightarrow> topic_manager \<Rightarrow> amop_effect list" where
  "onReceiveTopicSeqMessage fw nodeID msg tm =
     (case castU32 fw (string_of_bytes (a_data msg)) of
        None \<Rightarrow> []
      | Some topicSeq \<Rightarrow>
          if \<not> checkTopicSeq nodeID topicSeq tm then []
          else [SendToPeer (mtAMOPMessageType fw) nodeID (buildAndEncodeMessage amop_RequestTopic []) 0 OnlyLog])"

definition onReceiveResponseTopicMessage ::
  "'j jsonlib \<Rightarrow> string \<Rightarrow> amop_message \<Rightarrow> topic_manager \<Rightarrow> topic_manager" where
  "onReceiveResponseTopicMessage jl nodeID msg tm =
     (case parseTopicItemsJson jl (string_of_bytes (a_data msg)) of
        None \<Rightarrow> tm
      | Some (topicSeq, topicItems) \<Rightarrow> updateSeqAndTopicsByNodeID nodeID topicSeq topicItems tm)"

definition onReceiveRequestTopicMessage ::
  "('key, 'more) bcos_fw_scheme \<Rightarrow> 'j jsonlib \<Rightarrow> string \<Rightarrow> topic_manager \<Rightarrow> amop_effect list" where
  "onReceiveRequestTopicMessage fw jl nodeID tm =
     (let topicJson = queryTopicsSubByClient jl tm;
          buffer = buildAndEncodeMessage amop_ResponseTopic (bytes_of_string topicJson)
      in [SendToPeer (mtAMOPMessageType fw) nodeID buffer 0 OnlyLog])"

section \<open>Responses\<close>

text \<open>
  The error a response of type \<open>AMOPMessageType\<close> carries. \<open>errorCode\<close> has the type of
  \<open>status()\<close>, 16 bits, so that the \<open>-1\<close> assigned for the two tars errors is 65535.
\<close>

definition response_error :: "('key, 'more) bcos_fw_scheme \<Rightarrow> bytes \<Rightarrow> error_info cpp" where
  "response_error fw responseData =
     cpp_bind (buildAMOPMessage fw responseData) (\<lambda>amopMsg.
       let status = a_status amopMsg
       in if status = - 8 \<or> status = - 7
          then Inr \<lparr>err_code = uint (- 1 :: u16),
                    err_msg = ''Access to the remote RPC service timed out, please make sure it is online''\<rparr>
          else Inr \<lparr>err_code = uint status, err_msg = string_of_bytes (a_data amopMsg)\<rparr>)"

definition response_result ::
  "('key, 'more) bcos_fw_scheme \<Rightarrow> u16 \<Rightarrow> bytes option \<Rightarrow> error_info option cpp" where
  "response_result fw type responseData =
     (if type = mtAMOPMessageType fw
      then (case responseData of None \<Rightarrow> Inl NullPointer
            | Some b \<Rightarrow> cpp_bind (response_error fw b) (\<lambda>e. Inr (Some e)))
      else Inr None)"

text \<open>The log line before the call reads the size of the response.\<close>

definition call_with_response ::
  "nat option \<Rightarrow> error_info option \<Rightarrow> u16 \<Rightarrow> bytes option \<Rightarrow> amop_effect list cpp" where
  "call_with_response callback error type responseData =
     (case callback of None \<Rightarrow> Inr []
      | Some c \<Rightarrow> (case responseData of None \<Rightarrow> Inl NullPointer
                   | Some b \<Rightarrow> Inr [CallBack c error type (Some b)]))"

definition onRecvAMOPResponse :: "('key, 'more) bcos_fw_scheme \<Rightarrow> u16 \<Rightarrow> bytes option \<Rightarrow> nat option \<Rightarrow>
    amop_effect list cpp" where
  "onRecvAMOPResponse fw type responseData callback =
     cpp_bind (response_result fw type responseData) (\<lambda>error.
       call_with_response callback error type responseData)"

text \<open>\<open>_responseCallback\<close>: the two closures that are passed for it.\<close>

definition respond :: "('key, 'more) bcos_fw_scheme \<Rightarrow> reply_target \<Rightarrow> bytes option \<Rightarrow> u16 \<Rightarrow> amop_effect list cpp" where
  "respond fw target responseData type =
     (case target of
        ToPeer session message \<Rightarrow>
          (case responseData of None \<Rightarrow> Inl NullPointer
           | Some b \<Rightarrow> Inr [AnswerSession session ((setRespPacket (new_message\<lparr>m_seq := m_seq message\<rparr>))
                                                   \<lparr>m_payload := b, m_packetType := type\<rparr>)])
      | ToCaller callback \<Rightarrow> onRecvAMOPResponse fw type responseData callback)"

section \<open>Delivery to local clients\<close>

definition status_message :: "int \<Rightarrow> string \<Rightarrow> bytes" where
  "status_message code errorMessage = snd (amop_encode
     (new_amop\<lparr>a_status := word_of_int code, a_type := amop_AMOPResponse, a_data := bytes_of_string errorMessage\<rparr>) [])"

definition onReceiveAMOPMessage_topic :: "('key, 'more) bcos_fw_scheme \<Rightarrow> (nat \<Rightarrow> nat) \<Rightarrow>
    (string \<Rightarrow> nat option) \<Rightarrow> string \<Rightarrow> bytes \<Rightarrow> reply_target \<Rightarrow> topic_manager \<Rightarrow> amop_effect list \<times> topic_manager" where
  "onReceiveAMOPMessage_topic fw rnd proxy topic data target tm =
     (let clients = queryClientsByTopic topic tm;
          (clientService, tm') = (if clients \<noteq> []
             then createAndGetServiceByClient proxy (randomChoose rnd clients) tm else (None, tm))
      in case clientService of
           None \<Rightarrow> ([RespondLater target (status_message (ceNotFoundClientByTopicDispatchMsg fw)
                       ''NotFoundClientByTopicDispatchMsg'') (mtAMOPMessageType fw)], tm')
         | Some rpc \<Rightarrow> ([NotifyClient rpc Unicast topic data (ClientReply target)], tm'))"

text \<open>
  \<open>topicOf\<close> is the topic of the AMOP request that a payload holds, as \<open>AMOPRequestFactory\<close> of the
  framework reads it; \<open>None\<close> is its exception, caught around the dispatcher.
\<close>

definition onReceiveAMOPMessage :: "('key, 'more) bcos_fw_scheme \<Rightarrow> (bytes \<Rightarrow> string option) \<Rightarrow> (nat \<Rightarrow> nat) \<Rightarrow>
    (string \<Rightarrow> nat option) \<Rightarrow> amop_message \<Rightarrow> reply_target \<Rightarrow> topic_manager \<Rightarrow> amop_effect list \<times> topic_manager" where
  "onReceiveAMOPMessage fw topicOf rnd proxy msg target tm =
     (case topicOf (a_data msg) of None \<Rightarrow> ([], tm)
      | Some topic \<Rightarrow> onReceiveAMOPMessage_topic fw rnd proxy topic (a_data msg) target tm)"

text \<open>The callback of \<open>asyncNotifyAMOPMessage\<close>\<close>

definition onClientReply :: "('key, 'more) bcos_fw_scheme \<Rightarrow> reply_target \<Rightarrow> error_info option \<Rightarrow> bytes option \<Rightarrow>
    amop_effect list cpp" where
  "onClientReply fw target error responseData =
     (case error of
        None \<Rightarrow> respond fw target responseData (mtWSMessageType fw)
      | Some e \<Rightarrow>
          if err_code e = ceSUCCESS fw then respond fw target responseData (mtWSMessageType fw)
          else respond fw target (Some (status_message (err_code e) (err_msg e))) (mtAMOPMessageType fw))"

fun push_to_clients :: "(string \<Rightarrow> nat option) \<Rightarrow> string \<Rightarrow> bytes \<Rightarrow> string list \<Rightarrow> topic_manager \<Rightarrow>
    amop_effect list \<times> topic_manager" where
  "push_to_clients proxy topic data [] tm = ([], tm)"
| "push_to_clients proxy topic data (client # clients) tm =
     (case createAndGetServiceByClient proxy client tm of
        (None, tm') \<Rightarrow> push_to_clients proxy topic data clients tm'
      | (Some rpc, tm') \<Rightarrow>
          apfst ((#) (NotifyClient rpc Broadcast topic data ClientOnlyLog)) (push_to_clients proxy topic data clients tm'))"

definition onReceiveAMOPBroadcastMessage :: "(bytes \<Rightarrow> string option) \<Rightarrow> (string \<Rightarrow> nat option) \<Rightarrow> amop_message \<Rightarrow>
    topic_manager \<Rightarrow> amop_effect list \<times> topic_manager" where
  "onReceiveAMOPBroadcastMessage topicOf proxy msg tm =
     (case topicOf (a_data msg) of None \<Rightarrow> ([], tm)
      | Some topic \<Rightarrow> push_to_clients proxy topic (a_data msg) (queryClientsByTopic topic tm) tm)"

definition trySendTopicMessageToLocalClient :: "('key, 'more) bcos_fw_scheme \<Rightarrow> (nat \<Rightarrow> nat) \<Rightarrow>
    (string \<Rightarrow> nat option) \<Rightarrow> string \<Rightarrow> bytes \<Rightarrow> nat option \<Rightarrow> topic_manager \<Rightarrow>
    (amop_effect list \<times> topic_manager) option" where
  "trySendTopicMessageToLocalClient fw rnd proxy topic data respFunc tm =
     (if queryClientsByTopic topic tm = [] then None
      else Some (onReceiveAMOPMessage_topic fw rnd proxy topic data (ToCaller respFunc) tm))"

section \<open>Sending by topic\<close>

text \<open>\<open>RetrySender::sendMessage\<close>: it erases the first node, whichever was chosen.\<close>

definition sendMessage :: "('key, 'more) bcos_fw_scheme \<Rightarrow> (nat \<Rightarrow> nat) \<Rightarrow> retry_sender \<Rightarrow> amop_effect list" where
  "sendMessage fw rnd rs =
     (if rs_nodeIDs rs = []
      then (case rs_callback rs of None \<Rightarrow> []
            | Some c \<Rightarrow> [CallBack c (Some \<lparr>err_code = ceAMOPSendMsgFailed fw,
                            err_msg = ''unable to send message to peer by topic''\<rparr>) 0 None])
      else [SendToPeer (mtAMOPMessageType fw) (randomChoose rnd (rs_nodeIDs rs)) (rs_buffer rs) 0
              (RetrySender (rs\<lparr>rs_nodeIDs := tl (rs_nodeIDs rs)\<rparr>))])"

type_synonym p2p_reply = "error_info option \<times> u16 \<times> bytes option"

definition reply_failed :: "('key, 'more) bcos_fw_scheme \<Rightarrow> p2p_reply \<Rightarrow> bool" where
  "reply_failed fw r = (case fst r of None \<Rightarrow> False | Some e \<Rightarrow> err_code e \<noteq> ceSUCCESS fw)"

text \<open>The callback of the request: what the retry sender does with a reply.\<close>

definition onRetryReply :: "('key, 'more) bcos_fw_scheme \<Rightarrow> (nat \<Rightarrow> nat) \<Rightarrow> retry_sender \<Rightarrow> p2p_reply \<Rightarrow>
    amop_effect list cpp" where
  "onRetryReply fw rnd rs r =
     (if reply_failed fw r then Inr (sendMessage fw rnd rs)
      else case r of (error, type, responseData) \<Rightarrow>
        cpp_bind (response_result fw type responseData) (\<lambda>error.
          call_with_response (rs_callback rs) error type responseData))"

definition asyncSendMessageByTopic :: "('key, 'more) bcos_fw_scheme \<Rightarrow> (nat \<Rightarrow> nat) \<Rightarrow> (string \<Rightarrow> nat option) \<Rightarrow>
    (string \<Rightarrow> bool) \<Rightarrow> string \<Rightarrow> bytes \<Rightarrow> nat option \<Rightarrow> topic_manager \<Rightarrow> amop_effect list \<times> topic_manager" where
  "asyncSendMessageByTopic fw rnd proxy connected topic data respFunc tm =
     (let nodeIDs = queryNodeIDsByTopic connected topic tm
      in if nodeIDs = []
         then (case trySendTopicMessageToLocalClient fw rnd proxy topic data respFunc tm of
                 Some r \<Rightarrow> r
               | None \<Rightarrow> ((case respFunc of None \<Rightarrow> []
                     | Some c \<Rightarrow> [CallBack c (Some \<lparr>err_code = ceNotFoundPeerByTopicSendMsg fw,
                          err_msg = ''there has no node subscribe this topic, topic: '' @ topic\<rparr>) 0 None]), tm))
         else (sendMessage fw rnd \<lparr>rs_nodeIDs = nodeIDs,
                 rs_buffer = buildAndEncodeMessage amop_AMOPRequest data, rs_callback = respFunc\<rparr>, tm))"

definition asyncSendBroadbastMessageByTopic :: "('key, 'more) bcos_fw_scheme \<Rightarrow> (string \<Rightarrow> bool) \<Rightarrow> string \<Rightarrow> bytes \<Rightarrow>
    topic_manager \<Rightarrow> amop_effect list" where
  "asyncSendBroadbastMessageByTopic fw connected topic data tm =
     (let nodeIDs = queryNodeIDsByTopic connected topic tm
      in if nodeIDs = [] then []
         else [SendToPeers (mtAMOPMessageType fw) nodeIDs (buildAndEncodeMessage amop_AMOPBroadcast data) 0])"

section \<open>Dispatch\<close>

text \<open>
  The switch has a case for \<open>AMOPBroadcast\<close> and none for \<open>AMOPResponse\<close>, which have the same
  value. \<open>session\<close> names the P2P session and \<open>from\<close> is its peer.
\<close>

definition dispatcherAMOPMessage :: "('key, 'more) bcos_fw_scheme \<Rightarrow> 'j jsonlib \<Rightarrow> (bytes \<Rightarrow> string option) \<Rightarrow>
    (nat \<Rightarrow> nat) \<Rightarrow> (string \<Rightarrow> nat option) \<Rightarrow> network_exception \<Rightarrow> nat \<Rightarrow> string \<Rightarrow> p2p_message option \<Rightarrow>
    topic_manager \<Rightarrow> (amop_effect list \<times> topic_manager) cpp" where
  "dispatcherAMOPMessage fw jl topicOf rnd proxy e session fromNodeID message tm =
     (case message of None \<Rightarrow> Inr ([], tm)
      | Some m \<Rightarrow>
        if ne_code e \<noteq> 0 then Inr ([], tm)
        else if m_packetType m \<noteq> mtAMOPMessageType fw then Inr ([], tm)
        else cpp_bind (buildAMOPMessage fw (m_payload m)) (\<lambda>amopMessage.
          let type = a_type amopMessage
          in if type = amop_TopicSeq then Inr (onReceiveTopicSeqMessage fw fromNodeID amopMessage tm, tm)
             else if type = amop_RequestTopic then Inr (onReceiveRequestTopicMessage fw jl fromNodeID tm, tm)
             else if type = amop_ResponseTopic
             then Inr ([], onReceiveResponseTopicMessage jl fromNodeID amopMessage tm)
             else if type = amop_AMOPRequest
             then Inr (onReceiveAMOPMessage fw topicOf rnd proxy amopMessage (ToPeer session m) tm)
             else if type = amop_AMOPBroadcast
             then Inr (onReceiveAMOPBroadcastMessage topicOf proxy amopMessage tm)
             else Inr ([], tm)))"

definition asyncSubscribeTopic :: "'j jsonlib \<Rightarrow> (string \<Rightarrow> nat option) \<Rightarrow> string \<Rightarrow> string \<Rightarrow> nat option \<Rightarrow>
    topic_manager \<Rightarrow> amop_effect list \<times> topic_manager" where
  "asyncSubscribeTopic jl proxy clientID topicInfo callback tm =
     ((case callback of None \<Rightarrow> [] | Some c \<Rightarrow> [CallBack c None 0 None]), subTopic jl proxy clientID topicInfo tm)"

definition asyncRemoveTopic :: "string \<Rightarrow> string list \<Rightarrow> nat option \<Rightarrow> topic_manager \<Rightarrow> amop_effect list \<times> topic_manager" where
  "asyncRemoveTopic clientID topicList callback tm =
     ((case callback of None \<Rightarrow> [] | Some c \<Rightarrow> [CallBack c None 0 None]), removeTopics clientID topicList tm)"

end
