(* ===== verification/Gateway_Model.thy ===== *)
theory Gateway_Model
  imports Service_Inv Node_Specs AMOP_Impl
begin

text \<open>
  \<open>Gateway.h/.cpp\<close>: the gateway itself, over the P2P service, the node manager and the topic
  manager. It sends messages of the local nodes to the gateways of their receivers, with retry,
  and gives the messages that arrive to the local front services.
\<close>

section \<open>State and effects\<close>

record 'q gateway =
  gw_service :: "('q, p2p_continuation) service"
  gw_nm :: node_manager
  gw_tm :: topic_manager

text \<open>
  What becomes of the error a front service or the gateway reports for a message: nothing
  (only logged), the callback of a local caller, or a response on a P2P session.
\<close>

datatype error_resp = RespLog | RespUser "nat option" | RespondTo nat p2p_message

datatype gateway_timer = TopicSyncTimer | TopicCheckTimer | FrontServiceTimer

datatype 'key gateway_effect =
    Net "p2p_continuation service_effect"
  | CallFront nat groupid 'key bytes error_resp
  | CallErrorResp nat "error_info option"
  | CallNodeIDs nat "'key list"
  | Notify "'key notification"
  | Amop amop_effect
  | StartTimer gateway_timer
  | RearmTimer gateway_timer
  | StopTimer gateway_timer
  | AskSubscribe nat \<comment> \<open>a client of the rpc service is asked to subscribe its topics again\<close>

type_synonym ('key, 'q) gateway_result = "('key gateway_effect list \<times> 'q gateway) cpp"

definition on_service :: "(('q, p2p_continuation) service \<Rightarrow> ('q, p2p_continuation) service_result) \<Rightarrow> 'q gateway \<Rightarrow>
    ('key, 'q) gateway_result" where
  "on_service f gw = cpp_bind (f (gw_service gw)) (\<lambda>(es, sv). Inr (map Net es, gw\<lparr>gw_service := sv\<rparr>))"

definition service_send :: "('key, 'more) bcos_fw_scheme \<Rightarrow> 'q write_queue \<Rightarrow> p2p_id \<Rightarrow> p2p_message \<Rightarrow>
    p2p_continuation p2p_callback option \<Rightarrow> u32 \<Rightarrow> ('q, p2p_continuation) service \<Rightarrow>
    ('q, p2p_continuation) service_result" where
  "service_send fw wq n message callback timeout sv =
     cpp_bind (asyncSendMessageByNodeID fw wq n message callback timeout sv) (\<lambda>(es, m, sv). Inr (es, sv))"

section \<open>Messages\<close>

definition gw_newP2PMessage :: "('key, 'more) bcos_fw_scheme \<Rightarrow> groupid \<Rightarrow> 'key \<Rightarrow> 'key \<Rightarrow> bytes \<Rightarrow> 'q gateway \<Rightarrow>
    p2p_message \<times> 'q gateway" where
  "gw_newP2PMessage fw g src dst payload gw =
     (case factory_newSeq (gw_service gw) of (seq, sv) \<Rightarrow>
        (new_message\<lparr>m_packetType := mtPeerToPeerMessage fw, m_seq := seq,
           m_options := \<lparr>m_groupID = g, m_srcNodeID = Some (keyEncode fw src),
                         m_dstNodeIDs = m_dstNodeIDs new_options @ [Some (keyEncode fw dst)]\<rparr>,
           m_payload := payload\<rparr>, gw\<lparr>gw_service := sv\<rparr>))"

definition gw_newBroadcastMessage :: "('key, 'more) bcos_fw_scheme \<Rightarrow> groupid \<Rightarrow> 'key \<Rightarrow> bytes \<Rightarrow> 'q gateway \<Rightarrow>
    p2p_message \<times> 'q gateway" where
  "gw_newBroadcastMessage fw g src payload gw =
     (case factory_newSeq (gw_service gw) of (seq, sv) \<Rightarrow>
        (new_message\<lparr>m_packetType := mtBroadcastMessage fw, m_seq := seq,
           m_options := new_options\<lparr>m_groupID := g, m_srcNodeID := Some (keyEncode fw src)\<rparr>,
           m_payload := payload\<rparr>, gw\<lparr>gw_service := sv\<rparr>))"

section \<open>Queries and registration\<close>

text \<open>\<open>hostInfo\<close> is \<open>Host::p2pInfo()\<close>; \<open>localP2pInfo\<close> of the service puts the own id in it.\<close>

definition localP2pInfo :: "p2p_info \<Rightarrow> ('q, 'c) service \<Rightarrow> p2p_info" where
  "localP2pInfo hostInfo sv = hostInfo\<lparr>pi_p2pID := sv_nodeID sv\<rparr>"

type_synonym gateway_info = "p2p_info \<times> nodeids_map"

definition asyncGetPeers :: "nat option \<Rightarrow> p2p_info \<Rightarrow> 'q gateway \<Rightarrow>
    (nat \<times> gateway_info \<times> gateway_info list) option cpp" where
  "asyncGetPeers onGetPeers hostInfo gw =
     (case onGetPeers of None \<Rightarrow> Inr None
      | Some c \<Rightarrow> cpp_bind (sessionInfos (gw_service gw)) (\<lambda>infos.
          Inr (Some (c, (localP2pInfo hostInfo (gw_service gw), getLocalNodeIDInfo (gw_nm gw)),
            map (\<lambda>info. (info, nodeIDInfo (pi_p2pID info) (gw_nm gw))) infos))))"

definition asyncGetNodeIDs :: "('key, 'more) bcos_fw_scheme \<Rightarrow> groupid \<Rightarrow> nat \<Rightarrow> 'q gateway \<Rightarrow>
    'key gateway_effect list cpp" where
  "asyncGetNodeIDs fw g getNodeIDsFunc gw =
     cpp_bind (queryNodeIDsByGroupID fw g (gw_nm gw) []) (\<lambda>(found, nodeIDs). Inr [CallNodeIDs getNodeIDsFunc nodeIDs])"

definition gw_registerFrontService :: "('key, 'more) bcos_fw_scheme \<Rightarrow> groupid \<Rightarrow> 'key \<Rightarrow> nat \<Rightarrow> 'q gateway \<Rightarrow>
    bool \<times> 'q gateway" where
  "gw_registerFrontService fw g n front gw =
     (case registerFrontService fw g n front (gw_nm gw) of (b, nm) \<Rightarrow> (b, gw\<lparr>gw_nm := nm\<rparr>))"

definition gw_unregisterFrontService :: "('key, 'more) bcos_fw_scheme \<Rightarrow> groupid \<Rightarrow> 'key \<Rightarrow> 'q gateway \<Rightarrow>
    bool \<times> 'q gateway" where
  "gw_unregisterFrontService fw g n gw =
     (case unregisterFrontService fw g n (gw_nm gw) of (b, nm) \<Rightarrow> (b, gw\<lparr>gw_nm := nm\<rparr>))"

definition asyncNotifyGroupInfo :: "('key, 'more) bcos_fw_scheme \<Rightarrow> (string \<Rightarrow> front_service_info) \<Rightarrow> groupid \<Rightarrow>
    node_info list \<Rightarrow> nat option \<Rightarrow> 'q gateway \<Rightarrow> ('key, 'q) gateway_result" where
  "asyncNotifyGroupInfo fw createServiceClient g nodes callback gw =
     cpp_bind (updateFrontServiceInfo_group fw createServiceClient g nodes (gw_nm gw)) (\<lambda>(ns, nm).
       Inr (map Notify ns @ (case callback of None \<Rightarrow> [] | Some c \<Rightarrow> [CallErrorResp c None]), gw\<lparr>gw_nm := nm\<rparr>))"

section \<open>Sending\<close>

definition call_resp :: "nat option \<Rightarrow> error_info option \<Rightarrow> 'key gateway_effect list" where
  "call_resp respFunc error = (case respFunc of None \<Rightarrow> [] | Some c \<Rightarrow> [CallErrorResp c error])"

definition trySendLocalMessage :: "groupid \<Rightarrow> 'key \<Rightarrow> string \<Rightarrow> bytes \<Rightarrow> nat option \<Rightarrow> 'q gateway \<Rightarrow>
    'key gateway_effect list option" where
  "trySendLocalMessage g src dstHex payload respFunc gw =
     (case queryLocalNodes g dstHex (gw_nm gw) of
        None \<Rightarrow> None
      | Some fi \<Rightarrow> Some [CallFront (m_frontService fi) g src payload (RespUser respFunc)])"

text \<open>\<open>Retry\<close>: the list is shuffled in place, its first element taken and erased.\<close>

definition randomChooseP2pID :: "(nat \<Rightarrow> nat) \<Rightarrow> gateway_retry \<Rightarrow> p2p_id \<times> gateway_retry" where
  "randomChooseP2pID rnd r =
     (if gr_p2pIDs r = [] then ([], r)
      else let ids = std_shuffle rnd (gr_p2pIDs r) in (hd ids, r\<lparr>gr_p2pIDs := tl ids\<rparr>))"

definition send_failed :: "('key, 'more) bcos_fw_scheme \<Rightarrow> error_info" where
  "send_failed fw = \<lparr>err_code = ceGatewaySendMsgFailed fw, err_msg = ''unable to send the message''\<rparr>"

definition trySendMessage :: "('key, 'more) bcos_fw_scheme \<Rightarrow> 'q write_queue \<Rightarrow> (nat \<Rightarrow> nat) \<Rightarrow> gateway_retry \<Rightarrow>
    'q gateway \<Rightarrow> ('key, 'q) gateway_result" where
  "trySendMessage fw wq rnd r gw =
     (if gr_p2pIDs r = [] then Inr (call_resp (gr_respFunc r) (Some (send_failed fw)), gw)
      else case randomChooseP2pID rnd r of (p2pID, r') \<Rightarrow>
        on_service (service_send fw wq p2pID (gr_message r') (Some (GatewayRetry r')) 10000) gw)"

text \<open>
  The callback of \<open>Retry\<close>: it tries again after a network error, a code other than success and a
  response that is no number.
\<close>

definition retry_outcome :: "('key, 'more) bcos_fw_scheme \<Rightarrow> network_exception \<times> p2p_message option \<Rightarrow> bool cpp" where
  "retry_outcome fw reply =
     (case reply of (e, message) \<Rightarrow>
        if ne_code e \<noteq> exception_code Success then Inr False
        else (case message of None \<Rightarrow> Inl NullPointer
              | Some m \<Rightarrow> Inr (castInt fw (string_of_bytes (m_payload m)) = Some (ceSUCCESS fw))))"

definition onGatewayRetryReply :: "('key, 'more) bcos_fw_scheme \<Rightarrow> 'q write_queue \<Rightarrow> (nat \<Rightarrow> nat) \<Rightarrow> gateway_retry \<Rightarrow>
    network_exception \<times> p2p_message option \<Rightarrow> 'q gateway \<Rightarrow> ('key, 'q) gateway_result" where
  "onGatewayRetryReply fw wq rnd r reply gw =
     cpp_bind (retry_outcome fw reply) (\<lambda>sent.
       if sent then Inr (call_resp (gr_respFunc r) None, gw) else trySendMessage fw wq rnd r gw)"

definition not_found_error :: "('key, 'more) bcos_fw_scheme \<Rightarrow> groupid \<Rightarrow> 'key \<Rightarrow> error_info" where
  "not_found_error fw g dst = \<lparr>err_code = ceNotFoundFrontServiceSendMsg fw,
     err_msg = ''could not find a gateway to send this message, groupID:'' @ g @ '' ,dstNodeID:'' @ keyHex fw dst\<rparr>"

definition gw_sendMessageByNodeID :: "('key, 'more) bcos_fw_scheme \<Rightarrow> 'q write_queue \<Rightarrow> (nat \<Rightarrow> nat) \<Rightarrow> groupid \<Rightarrow>
    'key \<Rightarrow> 'key \<Rightarrow> bytes \<Rightarrow> nat option \<Rightarrow> 'q gateway \<Rightarrow> ('key, 'q) gateway_result" where
  "gw_sendMessageByNodeID fw wq rnd g src dst payload respFunc gw =
     (case queryP2pIDs g (keyHex fw dst) [] (gw_nm gw) of
        (False, p2pIDs) \<Rightarrow>
          (case trySendLocalMessage g src (keyHex fw dst) payload respFunc gw of
             Some es \<Rightarrow> Inr (es, gw)
           | None \<Rightarrow> Inr (call_resp respFunc (Some (not_found_error fw g dst)), gw))
      | (True, p2pIDs) \<Rightarrow>
          (case gw_newP2PMessage fw g src dst payload gw of (message, gw1) \<Rightarrow>
             trySendMessage fw wq rnd \<lparr>gr_p2pIDs = p2pIDs, gr_message = message, gr_respFunc = respFunc\<rparr> gw1))"

text \<open>The callbacks passed for several receivers only log. Each has its own random numbers.\<close>

fun gw_sendMessageByNodeIDs :: "('key, 'more) bcos_fw_scheme \<Rightarrow> 'q write_queue \<Rightarrow> (nat \<Rightarrow> nat \<Rightarrow> nat) \<Rightarrow> groupid \<Rightarrow>
    'key \<Rightarrow> 'key list \<Rightarrow> bytes \<Rightarrow> 'q gateway \<Rightarrow> ('key, 'q) gateway_result" where
  "gw_sendMessageByNodeIDs fw wq rnds g src [] payload gw = Inr ([], gw)"
| "gw_sendMessageByNodeIDs fw wq rnds g src (dst # dsts) payload gw =
     sv_bind (gw_sendMessageByNodeID fw wq (rnds (length dsts)) g src dst payload None gw)
       (gw_sendMessageByNodeIDs fw wq rnds g src dsts payload)"

definition asyncBroadcastMessageToLocalNodes :: "groupid \<Rightarrow> 'key \<Rightarrow> bytes \<Rightarrow> 'q gateway \<Rightarrow> bool \<times> 'key gateway_effect list" where
  "asyncBroadcastMessageToLocalNodes g src payload gw =
     (let frontServiceInfos = groupFrontServices g (gw_nm gw)
      in if frontServiceInfos = [] then (False, [])
         else (True, map (\<lambda>(n, fi). CallFront (m_frontService fi) g src payload RespLog) frontServiceInfos))"

fun send_to_all :: "('key, 'more) bcos_fw_scheme \<Rightarrow> 'q write_queue \<Rightarrow> p2p_id list \<Rightarrow> p2p_message \<Rightarrow>
    ('q, 'c) service \<Rightarrow> ('q, 'c) service_result" where
  "send_to_all fw wq [] message sv = Inr ([], sv)"
| "send_to_all fw wq (n # ns) message sv =
     cpp_bind (asyncSendMessageByNodeID fw wq n message None 0 sv) (\<lambda>(es, message, sv).
       cpp_bind (send_to_all fw wq ns message sv) (\<lambda>(es', sv'). Inr (es @ es', sv')))"

definition asyncSendBroadcastMessage :: "('key, 'more) bcos_fw_scheme \<Rightarrow> 'q write_queue \<Rightarrow> groupid \<Rightarrow> 'key \<Rightarrow> bytes \<Rightarrow>
    'q gateway \<Rightarrow> ('key, 'q) gateway_result" where
  "asyncSendBroadcastMessage fw wq g src payload gw =
     (case asyncBroadcastMessageToLocalNodes g src payload gw of (ret, calls) \<Rightarrow>
        (case queryP2pIDsByGroupID g [] (gw_nm gw) of
           (False, p2pIDs) \<Rightarrow> Inr (calls, gw)
         | (True, p2pIDs) \<Rightarrow>
             (case gw_newBroadcastMessage fw g src payload gw of (message, gw1) \<Rightarrow>
                sv_bind (Inr (calls, gw1)) (on_service (send_to_all fw wq p2pIDs message)))))"

section \<open>Receiving\<close>

text \<open>
  The error callback, called: for a message of a peer it is the closure in \<open>Service::onMessage\<close>,
  which sends the error code, in decimal, as the response.
\<close>

definition run_error_resp :: "('key, 'more) bcos_fw_scheme \<Rightarrow> 'q write_queue \<Rightarrow> error_resp \<Rightarrow> error_info option \<Rightarrow>
    'q gateway \<Rightarrow> ('key, 'q) gateway_result" where
  "run_error_resp fw wq resp error gw =
     (case resp of
        RespLog \<Rightarrow> Inr ([], gw)
      | RespUser respFunc \<Rightarrow> Inr (call_resp respFunc error, gw)
      | RespondTo session message \<Rightarrow>
          (let errorCode = to_string_int (case error of None \<Rightarrow> ceSUCCESS fw | Some e \<Rightarrow> err_code e)
           in on_service (sendRespMessageBySession fw wq (bytes_of_string errorCode) message session) gw))"

definition dispatch_error :: "('key, 'more) bcos_fw_scheme \<Rightarrow> groupid \<Rightarrow> 'key \<Rightarrow> error_info" where
  "dispatch_error fw g dst = \<lparr>err_code = ceNotFoundFrontServiceDispatchMsg fw,
     err_msg = ''unable to find front service dispatch message to groupID:'' @ g @ '' ,nodeID:'' @ keyHex fw dst\<rparr>"

definition onReceiveP2PMessage :: "('key, 'more) bcos_fw_scheme \<Rightarrow> 'q write_queue \<Rightarrow> groupid \<Rightarrow> 'key \<Rightarrow> 'key \<Rightarrow> bytes \<Rightarrow>
    error_resp \<Rightarrow> 'q gateway \<Rightarrow> ('key, 'q) gateway_result" where
  "onReceiveP2PMessage fw wq g src dst payload resp gw =
     (case queryFrontServiceInterfaceByGroupIDAndNodeID fw g dst (gw_nm gw) of
        None \<Rightarrow> run_error_resp fw wq resp (Some (dispatch_error fw g dst)) gw
      | Some front \<Rightarrow> Inr ([CallFront front g src payload resp], gw))"

definition onReceiveBroadcastMessage :: "groupid \<Rightarrow> 'key \<Rightarrow> bytes \<Rightarrow> 'q gateway \<Rightarrow> 'key gateway_effect list" where
  "onReceiveBroadcastMessage g src payload gw =
     map (\<lambda>front. CallFront front g src payload RespLog) (queryFrontServiceInterfaceByGroupID g (gw_nm gw))"

text \<open>The disconnect handler that \<open>GatewayFactory\<close> registers at the service.\<close>

definition gateway_disconnect_handler :: "('key, 'more) bcos_fw_scheme \<Rightarrow> nat \<Rightarrow> 'q gateway \<Rightarrow> ('key, 'q) gateway_result" where
  "gateway_disconnect_handler fw a gw =
     (case map_of (sv_store (gw_service gw)) a of None \<Rightarrow> Inl NullPointer
      | Some ps \<Rightarrow> cpp_bind (onRemoveNodeIDs fw (pi_p2pID (ps_info ps)) (gw_nm gw)) (\<lambda>(ns, nm).
          Inr (map Notify ns, gw\<lparr>gw_nm := nm\<rparr>)))"

end
