(* ===== verification/AMOP_Specs.thy ===== *)
theory AMOP_Specs
  imports AMOP_Impl
begin

text \<open>
  The properties of AMOP: the retrying sender as an instance of the contract of \<open>Retry_Loop\<close>, the
  answers to requests, and the synchronisation of topics between two gateways.
\<close>

section \<open>The retrying sender\<close>

text \<open>
  A whole run of the sender: \<open>net k n\<close> is the reply of peer \<open>n\<close> when \<open>k\<close> peers are left, \<open>rnd k\<close>
  the random numbers then drawn. The result is the peers tried and how it ended.
\<close>

function retry_run :: "('key, 'more) bcos_fw_scheme \<Rightarrow> (nat \<Rightarrow> nat \<Rightarrow> nat) \<Rightarrow> bytes \<Rightarrow> nat option \<Rightarrow>
    (nat \<Rightarrow> string \<Rightarrow> p2p_reply option) \<Rightarrow> string list \<Rightarrow> string list \<times> p2p_reply verdict" where
  "retry_run fw rnd buffer callback net nodes =
     (case sendMessage fw (rnd (length nodes)) \<lparr>rs_nodeIDs = nodes, rs_buffer = buffer, rs_callback = callback\<rparr> of
        [SendToPeer type node b timeout (RetrySender rs)] \<Rightarrow>
          (case net (length nodes) node of
             None \<Rightarrow> ([node], NoReply)
           | Some r \<Rightarrow> if reply_failed fw r
               then apfst ((#) node) (retry_run fw rnd buffer callback net (rs_nodeIDs rs))
               else ([node], Replied r))
      | _ \<Rightarrow> ([], GaveUp))"
  by pat_completeness auto
termination
  by (relation "measure (\<lambda>(fw, rnd, buffer, callback, net, nodes). length nodes)")
    (auto simp: sendMessage_def split: if_splits option.splits)

declare retry_run.simps [simp del]

lemma retry_run_Nil: "retry_run fw rnd buffer callback net [] = ([], GaveUp)"
  by (simp add: retry_run.simps sendMessage_def split: option.split)

lemma retry_run_Cons:
  "nodes \<noteq> [] \<Longrightarrow> retry_run fw rnd buffer callback net nodes =
     (let node = randomChoose (rnd (length nodes)) nodes
      in case net (length nodes) node of
           None \<Rightarrow> ([node], NoReply)
         | Some r \<Rightarrow> if reply_failed fw r
             then apfst ((#) node) (retry_run fw rnd buffer callback net (tl nodes)) else ([node], Replied r))"
  by (subst retry_run.simps) (simp add: sendMessage_def Let_def split: option.split)

interpretation amop_retry: retry_loop "reply_failed fw" "\<lambda>nodes. randomChoose (rnd (length nodes)) nodes" tl
  "retry_run fw rnd buffer callback" for fw rnd buffer callback
  by unfold_locales
    (auto simp: retry_run_Nil retry_run_Cons Let_def randomChoose_in dest: list.set_sel(2))

text \<open>What the caller is told at the end of a run.\<close>

definition retry_told :: "('key, 'more) bcos_fw_scheme \<Rightarrow> nat option \<Rightarrow> p2p_reply verdict \<Rightarrow> amop_effect list cpp" where
  "retry_told fw callback v =
     (case v of
        GaveUp \<Rightarrow> Inr (sendMessage fw (\<lambda>i. 0) \<lparr>rs_nodeIDs = [], rs_buffer = [], rs_callback = callback\<rparr>)
      | NoReply \<Rightarrow> Inr []
      | Replied r \<Rightarrow> onRetryReply fw (\<lambda>i. 0) \<lparr>rs_nodeIDs = [], rs_buffer = [], rs_callback = callback\<rparr> r)"

section \<open>Answers\<close>

definition answers :: "nat \<Rightarrow> p2p_message \<Rightarrow> amop_effect list cpp \<Rightarrow> bool" where
  "answers session m r \<longleftrightarrow> (\<exists>a. r = Inr [AnswerSession session a] \<and> m_seq a = m_seq m \<and> m_ext a = ext_Response)"

lemma respond_answers: "answers session m (respond fw (ToPeer session m) (Some b) type)"
  by (simp add: answers_def respond_def setRespPacket_def new_message_def)

lemma client_reply_answers: "answers session m (onClientReply fw (ToPeer session m) error (Some b))"
  by (simp add: onClientReply_def respond_answers split: option.split)

section \<open>Topic synchronisation\<close>

lemma response_data: "crop_spec fw \<Longrightarrow> buildAMOPMessage fw (buildAndEncodeMessage type data)
    = Inr (new_amop\<lparr>a_type := type, a_data := data\<rparr>)"
  using build_amop_bytes [of fw "new_amop\<lparr>a_type := type, a_data := data\<rparr>"]
  by (simp add: buildAndEncodeMessage_def amop_bytes_def)

lemma tm_inv_response: "tm_inv tm \<Longrightarrow> tm_inv (onReceiveResponseTopicMessage jl p msg tm)"
  by (auto simp: onReceiveResponseTopicMessage_def intro: tm_inv_update parseItems_ok split: option.split)

lemma tm_inv_create: "tm_inv tm \<Longrightarrow> tm_inv (snd (createAndGetServiceByClient proxy c tm))"
  by (simp add: tm_inv_def)

lemma tm_inv_notify_topic: "tm_inv tm \<Longrightarrow> tm_inv (snd (onReceiveAMOPMessage_topic fw rnd proxy topic d target tm))"
  using tm_inv_create [of tm proxy "randomChoose rnd (queryClientsByTopic topic tm)"]
  by (auto simp: onReceiveAMOPMessage_topic_def Let_def split: prod.splits if_splits option.splits)

lemma tm_inv_push: "tm_inv tm \<Longrightarrow> tm_inv (snd (push_to_clients proxy topic d clients tm))"
proof (induction clients arbitrary: tm)
  case (Cons c clients)
  have "tm_inv (snd (createAndGetServiceByClient proxy c tm))" by (rule tm_inv_create [OF Cons.prems])
  with Cons.IH show ?case by (auto split: prod.split option.split)
qed simp

section \<open>Properties\<close>

lemma dispatch_safe:
  assumes "tm_inv tm"
  shows "case dispatcherAMOPMessage fw jl topicOf rnd proxy e session from_node message tm of
      Inl _ \<Rightarrow> False
    | Inr (effects, tm') \<Rightarrow> tm_inv tm'"
proof (cases message)
  case (Some m)
  obtain a where a: "buildAMOPMessage fw (m_payload m) = Inr a"
    using amop_decode_total [of fw new_amop "m_payload m"]
    by (auto simp: buildAMOPMessage_def defined_def split: sum.splits)
  have "tm_inv (snd (onReceiveAMOPMessage fw topicOf rnd proxy a (ToPeer session m) tm))"
    using tm_inv_notify_topic assms by (auto simp: onReceiveAMOPMessage_def split: option.split)
  moreover have "tm_inv (snd (onReceiveAMOPBroadcastMessage topicOf proxy a tm))"
    using tm_inv_push assms by (auto simp: onReceiveAMOPBroadcastMessage_def split: option.split)
  ultimately show ?thesis
    using Some a assms tm_inv_response [OF assms, of jl from_node a]
    by (auto simp: dispatcherAMOPMessage_def Let_def case_prod_unfold)
qed (simp add: dispatcherAMOPMessage_def assms)

text \<open>
  Whatever a peer sends, dispatching it never leaves the buffer, and the topic tables
  keep their invariant.
\<close>

theorem amop_dispatch_safe:
  assumes "tm_inv tm"
  shows "case dispatcherAMOPMessage fw jl topicOf rnd proxy e session from_node message tm of
      Inl _ \<Rightarrow> False
    | Inr (effects, tm') \<Rightarrow> tm_inv tm'"
  by (rule dispatch_safe [OF assms])

theorem amop_dispatch_safe_witness:
  "case dispatcherAMOPMessage example_fw jv_lib (\<lambda>_. None) (\<lambda>_. 0) (\<lambda>_. None) (network_error Success []) 1 ''p1''
       (Some (new_message\<lparr>m_packetType := 7, m_payload := [0]\<rparr>)) (new_topic_manager None) of
      Inl _ \<Rightarrow> False
    | Inr (effects, tm') \<Rightarrow> tm_inv tm'"
  by (rule amop_dispatch_safe [OF tm_inv_new])

text \<open>
  A request of a peer is answered exactly once, on the session it came by, with its
  sequence number and the response bit: at once with an error status when no client of the topic
  can be reached, else when the one client the request is given to, a subscriber of the topic,
  replies, whatever it replies.
\<close>

theorem amop_request_answered:
  assumes "crop_spec fw" and "topicOf data = Some topic" and "tm_inv tm"
  shows "case dispatcherAMOPMessage fw jl topicOf rnd proxy (network_error Success []) session node
      (Some (m\<lparr>m_packetType := mtAMOPMessageType fw, m_payload := buildAndEncodeMessage amop_AMOPRequest data\<rparr>)) tm of
      Inr ([RespondLater target b type], tm') \<Rightarrow> answers session m (respond fw target (Some b) type)
    | Inr ([NotifyClient rpc kind t d (ClientReply target)], tm') \<Rightarrow>
        kind = Unicast \<and> t = topic \<and> d = data \<and>
        (\<exists>c. topic \<in> client_topics tm c \<and> fst (createAndGetServiceByClient proxy c tm) = Some rpc) \<and>
        (\<forall>error b. answers session m (onClientReply fw target error (Some b)))
    | _ \<Rightarrow> False"
proof -
  let ?m = "m\<lparr>m_packetType := mtAMOPMessageType fw, m_payload := buildAndEncodeMessage amop_AMOPRequest data\<rparr>"
  let ?clients = "queryClientsByTopic topic tm"
  have same: "answers session m r \<longleftrightarrow> answers session ?m r" for r by (simp add: answers_def)
  have run: "dispatcherAMOPMessage fw jl topicOf rnd proxy (network_error Success []) session node (Some ?m) tm
      = Inr (onReceiveAMOPMessage_topic fw rnd proxy topic data (ToPeer session ?m) tm)"
    using assms by (simp add: dispatcherAMOPMessage_def response_data onReceiveAMOPMessage_def amop_type_defs)
  show ?thesis
  proof (cases "?clients = []")
    case True
    then show ?thesis
      by (simp add: run onReceiveAMOPMessage_topic_def same respond_answers)
  next
    case False
    obtain rpc tm' where create: "createAndGetServiceByClient proxy (randomChoose rnd ?clients) tm = (rpc, tm')"
      by fastforce
    have "randomChoose rnd ?clients \<in> set ?clients" by (rule randomChoose_in [OF False])
    then have "topic \<in> client_topics tm (randomChoose rnd ?clients)"
      using queries_exact [OF assms(3), of topic] by simp
    with create have "rpc = Some r \<Longrightarrow> \<exists>c. topic \<in> client_topics tm c \<and> fst (createAndGetServiceByClient proxy c tm) = Some r" for r
      by (metis fst_conv)
    with False create show ?thesis
      by (cases rpc) (simp_all add: run onReceiveAMOPMessage_topic_def same respond_answers client_reply_answers)
  qed
qed

lemma example_subscribed: "tm_inv (subTopic_items (\<lambda>_. Some 9) ''c'' [TopicItem ''t''] (new_topic_manager None))"
  by (rule tm_inv_subTopic_items [OF tm_inv_new]) (simp add: os_ok_def)

theorem amop_request_answered_witness:
  "case dispatcherAMOPMessage example_fw jv_lib (\<lambda>_. Some ''t'') (\<lambda>_. 0) (\<lambda>_. Some 9) (network_error Success []) 1 ''p1''
      (Some (new_message\<lparr>m_packetType := mtAMOPMessageType example_fw,
                         m_payload := buildAndEncodeMessage amop_AMOPRequest [1]\<rparr>))
      (subTopic_items (\<lambda>_. Some 9) ''c'' [TopicItem ''t''] (new_topic_manager None)) of
      Inr ([RespondLater target b type], tm') \<Rightarrow> answers 1 new_message (respond example_fw target (Some b) type)
    | Inr ([NotifyClient rpc kind t d (ClientReply target)], tm') \<Rightarrow>
        kind = Unicast \<and> t = ''t'' \<and> d = [1] \<and>
        (\<exists>c. ''t'' \<in> client_topics (subTopic_items (\<lambda>_. Some 9) ''c'' [TopicItem ''t''] (new_topic_manager None)) c \<and>
          fst (createAndGetServiceByClient (\<lambda>_. Some 9) c
            (subTopic_items (\<lambda>_. Some 9) ''c'' [TopicItem ''t''] (new_topic_manager None))) = Some rpc) \<and>
        (\<forall>error b. answers 1 new_message (onClientReply example_fw target error (Some b)))
    | _ \<Rightarrow> False"
  by (rule amop_request_answered [OF _ _ example_subscribed]) simp_all



text \<open>
  The retry can miss a peer that would deliver. Of two peers the second is chosen and
  fails, the first is erased, and the second is chosen again: the sender gives up without
  having tried the first.
\<close>

theorem amop_retry_misses_peer:
  "retry_run fw (\<lambda>_ _. 0) buffer callback
     (\<lambda>k n. if n = ''a'' then Some (None, type, Some d) else Some (Some \<lparr>err_code = ceSUCCESS fw + 1, err_msg = []\<rparr>, 0, None))
     [''a'', ''b''] = ([''b'', ''b''], GaveUp)"
  by (simp add: retry_run_Cons retry_run_Nil randomChoose_def std_shuffle_def swap_at_def reply_failed_def upt_rec Let_def)

text \<open>
  A broadcast of a topic is given to every subscribed client that has a proxy, once, in
  the order of the subscriptions, and to no other.
\<close>

theorem amop_broadcast_all:
  assumes "m_rpc tm = None" and "topicOf (a_data msg) = Some topic"
  shows "fst (onReceiveAMOPBroadcastMessage topicOf proxy msg tm)
    = map (\<lambda>rpc. NotifyClient rpc Broadcast topic (a_data msg) ClientOnlyLog)
        (List.map_filter (\<lambda>c. case map_of (m_clientInfo tm) c of Some r \<Rightarrow> Some r | None \<Rightarrow> proxy c)
          (queryClientsByTopic topic tm))"
proof -
  have "m_rpc t = None \<Longrightarrow> fst (push_to_clients proxy topic d clients t)
      = map (\<lambda>rpc. NotifyClient rpc Broadcast topic d ClientOnlyLog)
        (List.map_filter (\<lambda>c. case map_of (m_clientInfo t) c of Some r \<Rightarrow> Some r | None \<Rightarrow> proxy c) clients)"
    for t d clients
  proof (induction clients arbitrary: t)
    case (Cons c clients)
    let ?t = "snd (createAndGetServiceByClient proxy c t)"
    have same: "(case map_of (m_clientInfo ?t) d of Some r \<Rightarrow> Some r | None \<Rightarrow> proxy d)
        = (case map_of (m_clientInfo t) d of Some r \<Rightarrow> Some r | None \<Rightarrow> proxy d)" for d
      using Cons.prems by (auto simp: createAndGetServiceByClient_def um_simps split: option.split)
    have "m_rpc ?t = None"
      using Cons.prems by (auto simp: createAndGetServiceByClient_def split: option.split)
    from Cons.IH [OF this, unfolded same] Cons.prems show ?case
      by (auto simp: List.map_filter_def createAndGetServiceByClient_def split: option.splits)
  qed (simp add: List.map_filter_def)
  then show ?thesis using assms by (simp add: onReceiveAMOPBroadcastMessage_def)
qed

theorem amop_broadcast_all_witness:
  "fst (onReceiveAMOPBroadcastMessage (\<lambda>_. Some ''t'') (\<lambda>_. Some 9) (new_amop\<lparr>a_data := [1]\<rparr>)
      ((new_topic_manager None)\<lparr>m_client2TopicItems := [(''c'', [TopicItem ''t''])]\<rparr>))
    = [NotifyClient 9 Broadcast ''t'' [1] ClientOnlyLog]"
  using amop_broadcast_all [of "(new_topic_manager None)\<lparr>m_client2TopicItems := [(''c'', [TopicItem ''t''])]\<rparr>"
      "\<lambda>_. Some ''t''" "new_amop\<lparr>a_data := [1]\<rparr>" "''t''" "\<lambda>_. Some 9"]
  by (simp add: new_topic_manager_def queryClientsByTopic_def List.map_filter_def)

definition topics_answer :: "'j jsonlib \<Rightarrow> topic_manager \<Rightarrow> amop_message" where
  "topics_answer jl tm = new_amop\<lparr>a_type := amop_ResponseTopic, a_data := bytes_of_string (queryTopicsSubByClient jl tm)\<rparr>"

lemma request_answered_with:
  "crop_spec fw \<Longrightarrow> onReceiveRequestTopicMessage fw jl p tm = [SendToPeer (mtAMOPMessageType fw) p b t k] \<Longrightarrow>
   buildAMOPMessage fw b = Inr (topics_answer jl tm)"
  by (auto simp: onReceiveRequestTopicMessage_def Let_def response_data topics_answer_def)

lemma answer_learned:
  assumes "json_spec jl view" and "plain_topics (local_topics A)"
  shows "onReceiveResponseTopicMessage jl a (topics_answer jl A) B
    = updateSeqAndTopicsByNodeID a (m_topicSeq A) (local_topics A) B"
  using announcement_read [OF assms] by (simp add: onReceiveResponseTopicMessage_def topics_answer_def)

text \<open>
  One round of the topic synchronisation. Gateway A announces its topic version to B;
  B asks for A's topics exactly when the version is not the one it has; A's answer, encoded,
  decoded and parsed, leaves B with exactly the topics A's clients subscribe to, so that B sends
  messages of exactly those topics to A, and the same announcement asks for nothing any more.
\<close>

theorem amop_sync_round:
  assumes "crop_spec fw" and "decimal_spec fw" and "json_spec jl view"
    and "tm_inv A" and "tm_inv B" and "plain_topics (local_topics A)"
  shows "\<exists>announced answer t request.
    broadcastTopicSeq fw A = [BroadcastToPeers (mtAMOPMessageType fw) announced t, RestartTimer] \<and>
    (case buildAMOPMessage fw announced of Inl _ \<Rightarrow> False | Inr seqMsg \<Rightarrow>
       a_type seqMsg = amop_TopicSeq \<and>
       onReceiveTopicSeqMessage fw a seqMsg B = (if checkTopicSeq a (m_topicSeq A) B then [request] else []) \<and>
       onReceiveRequestTopicMessage fw jl b A = [SendToPeer (mtAMOPMessageType fw) b answer t OnlyLog] \<and>
       (case buildAMOPMessage fw answer of Inl _ \<Rightarrow> False | Inr msg \<Rightarrow>
          a_type msg = amop_ResponseTopic \<and>
          (let B' = onReceiveResponseTopicMessage jl a msg B
           in node_topics B' a = subscribed A \<and>
              (a \<in> set (queryNodeIDsByTopic connected topic B')) = (connected a \<and> topic \<in> subscribed A) \<and>
              onReceiveTopicSeqMessage fw a seqMsg B' = [])))"
proof -
  let ?B = "updateSeqAndTopicsByNodeID a (m_topicSeq A) (local_topics A) B"
  have cast: "castU32 fw (to_string_nat (unat (m_topicSeq A))) = Some (m_topicSeq A)"
    using assms(2) by (simp add: decimal_spec_def)
  have inv: "tm_inv ?B" by (rule tm_inv_update [OF assms(5) local_topics_ok])
  have view: "node_topics ?B a = subscribed A"
    using topic_cache.view_learn [OF assms(5) local_topics_ok, of a _ A a] local_topics_subscribed [OF assms(4)]
    by (simp add: items_view_def)
  have quiet: "\<not> checkTopicSeq a (m_topicSeq A) ?B"
    using topic_cache.stale_learn [OF assms(5) local_topics_ok, of a _ a _ A] by simp
  have "(a \<in> set (queryNodeIDsByTopic connected topic ?B)) = (connected a \<and> topic \<in> subscribed A)"
    using queries_exact [OF inv, of topic connected] view by simp
  then show ?thesis
    using view quiet answer_learned [OF assms(3,6), of a B]
    by (auto simp: broadcastTopicSeq_def onReceiveRequestTopicMessage_def Let_def response_data [OF assms(1)]
        onReceiveTopicSeqMessage_def cast topics_answer_def)
qed

definition example_tm :: topic_manager where
  "example_tm = subTopic_items (\<lambda>_. Some 9) ''c'' [TopicItem ''t''] (new_topic_manager None)"

lemma example_tm_ok: "tm_inv example_tm" "plain_topics (local_topics example_tm)" "subscribed example_tm = {''t''}"
proof -
  show inv: "tm_inv example_tm" unfolding example_tm_def by (rule example_subscribed)
  show "plain_topics (local_topics example_tm)"
    by (simp add: example_tm_def subTopic_items_def incTopicSeq_def new_topic_manager_def local_topics_def
        os_insert_all_def insort_insert_key_def plain_topics_def plain_string_def)
  show "subscribed example_tm = {''t''}"
    by (auto simp: example_tm_def subscribed_def client_topics_subTopic_items)
      (simp add: client_topics_def new_topic_manager_def um_at_def)
qed

theorem amop_sync_round_witness:
  "\<exists>announced answer t request.
    broadcastTopicSeq example_fw example_tm = [BroadcastToPeers (mtAMOPMessageType example_fw) announced t, RestartTimer] \<and>
    (case buildAMOPMessage example_fw announced of Inl _ \<Rightarrow> False | Inr seqMsg \<Rightarrow>
       a_type seqMsg = amop_TopicSeq \<and>
       onReceiveTopicSeqMessage example_fw ''a'' seqMsg (new_topic_manager None) = (if checkTopicSeq ''a'' (m_topicSeq example_tm) (new_topic_manager None) then [request] else []) \<and>
       onReceiveRequestTopicMessage example_fw jv_lib ''b'' example_tm = [SendToPeer (mtAMOPMessageType example_fw) ''b'' answer t OnlyLog] \<and>
       (case buildAMOPMessage example_fw answer of Inl _ \<Rightarrow> False | Inr msg \<Rightarrow>
          a_type msg = amop_ResponseTopic \<and>
          (let B' = onReceiveResponseTopicMessage jv_lib ''a'' msg (new_topic_manager None)
           in node_topics B' ''a'' = subscribed example_tm \<and>
              (''a'' \<in> set (queryNodeIDsByTopic (\<lambda>n. n = ''a'') ''t'' B')) = (''a'' = ''a'' \<and> ''t'' \<in> subscribed example_tm) \<and>
              onReceiveTopicSeqMessage example_fw ''a'' seqMsg B' = [])))"
  by (rule amop_sync_round [OF example_fw_crop example_fw_decimal jv_lib_spec example_tm_ok(1) tm_inv_new
      example_tm_ok(2), where connected = "\<lambda>n. n = ''a''"])

text \<open>
  The topic version keeps the topics in step. Gateway A goes through any sequence of
  fewer than 2^32 subscriptions, removals and checks; B receives messages of any peers in any
  order, those of A being answers A gave at any moments of the run, delayed or repeated.
  Whenever the version A now announces makes B ask for nothing, B has exactly the topics now
  subscribed at A.
\<close>

theorem topic_gossip_in_step:
  fixes jl :: "'j jsonlib"
  assumes "length ops < 2 ^ 32" and "json_spec jl view" and "tm_inv A" and "tm_inv B"
    and "\<And>k. checkTopicSeq a k B"
    and "\<And>i. i \<le> length ops \<Longrightarrow> plain_topics (local_topics (fold (topic_step jl proxy) (take i ops) A))"
    and "list_all (\<lambda>(q, msg). q = a \<longrightarrow>
        (\<exists>i \<le> length ops. msg = topics_answer jl (fold (topic_step jl proxy) (take i ops) A))) msgs"
    and "j \<le> length ops"
    and "\<not> checkTopicSeq a (m_topicSeq (fold (topic_step jl proxy) (take j ops) A))
           (fold (\<lambda>(q, msg). onReceiveResponseTopicMessage jl q msg) msgs B)"
  shows "node_topics (fold (\<lambda>(q, msg). onReceiveResponseTopicMessage jl q msg) msgs B) a
    = subscribed (fold (topic_step jl proxy) (take j ops) A)"
proof -
  define says where "says = (\<lambda>q k c. q = a \<longrightarrow> topic_publisher.published TYPE('j) jl proxy ops A k c)"
  have small: "sum_list (map (\<lambda>_. 1 :: nat) ops) < 2 ^ 32" using assms(1) by (simp add: sum_list_triv)
  have told: "says q k (items_view its)"
    if "(q, msg) \<in> set msgs" "parseTopicItemsJson jl (string_of_bytes (a_data msg)) = Some (k, its)" for q msg k its
  proof -
    have "\<exists>i \<le> length ops. k = m_topicSeq (fold (topic_step jl proxy) (take i ops) A) \<and>
        items_view its = subscribed (fold (topic_step jl proxy) (take i ops) A)" if "q = a"
    proof -
      obtain i where i: "i \<le> length ops" "msg = topics_answer jl (fold (topic_step jl proxy) (take i ops) A)"
        using assms(7) \<open>(q, msg) \<in> set msgs\<close> \<open>q = a\<close> by (auto simp: list_all_iff)
      let ?A = "fold (topic_step jl proxy) (take i ops) A"
      have "Some (k, its) = Some (m_topicSeq ?A, local_topics ?A)"
        using announcement_read [OF assms(2) assms(6) [OF i(1)]]
          \<open>parseTopicItemsJson jl (string_of_bytes (a_data msg)) = Some (k, its)\<close>
        by (simp add: i(2) topics_answer_def)
      then show ?thesis
        using i(1) local_topics_subscribed [OF tm_inv_topic_run [OF assms(3), of jl proxy "take i ops"]]
        by (auto simp: items_view_def)
    qed
    then show ?thesis by (simp add: says_def topic_publisher.published_def)
  qed
  have coherent: "topic_cache.coherent says s \<Longrightarrow> set as \<subseteq> set msgs \<Longrightarrow>
      topic_cache.coherent says (fold (\<lambda>(q, msg). onReceiveResponseTopicMessage jl q msg) as s)" for as s
  proof (induction as arbitrary: s)
    case (Cons qm as)
    obtain q msg where qm: "qm = (q, msg)" by fastforce
    have "topic_cache.coherent says (onReceiveResponseTopicMessage jl q msg s)"
      using Cons.prems told [of q msg] parseItems_ok [of jl "string_of_bytes (a_data msg)"]
      by (auto simp: qm onReceiveResponseTopicMessage_def intro: topic_cache.coherent_learn split: option.split)
    with Cons qm show ?case by simp
  qed simp
  have start: "topic_cache.coherent says B"
    using assms(4,5) by (auto simp: topic_cache.coherent_def says_def)
  show ?thesis
  proof (rule topic_cache.current_content [OF coherent [OF start subset_refl] assms(9)])
    show "says a (m_topicSeq (fold (topic_step jl proxy) (take j ops) A)) (subscribed (fold (topic_step jl proxy) (take j ops) A))"
      using assms(8) by (auto simp: says_def topic_publisher.published_def)
    show "says a (m_topicSeq (fold (topic_step jl proxy) (take j ops) A)) c \<Longrightarrow>
        says a (m_topicSeq (fold (topic_step jl proxy) (take j ops) A)) c' \<Longrightarrow> c = c'" for c c'
      using topic_publisher.published_unique [OF small] by (simp add: says_def)
  qed
qed

theorem topic_gossip_in_step_witness:
  "node_topics (fold (\<lambda>(q, msg). onReceiveResponseTopicMessage jv_lib q msg)
      [(''a'', topics_answer jv_lib example_tm), (''b'', new_amop)] (new_topic_manager None)) ''a''
   = subscribed example_tm"
proof -
  have "tm_inv example_tm" "plain_topics (local_topics example_tm)" by (rule example_tm_ok)+
  moreover have "\<not> checkTopicSeq ''a'' (m_topicSeq example_tm)
      (fold (\<lambda>(q, msg). onReceiveResponseTopicMessage jv_lib q msg)
        [(''a'', topics_answer jv_lib example_tm), (''b'', new_amop)] (new_topic_manager None))"
    by (simp add: answer_learned [OF jv_lib_spec example_tm_ok(2)])
      (simp add: onReceiveResponseTopicMessage_def new_amop_def parseTopicItemsJson_def string_of_bytes_def
        jv_lib_def checkTopicSeq_def updateSeqAndTopicsByNodeID_def um_simps)
  moreover have "checkTopicSeq ''a'' k (new_topic_manager None)" for k
    by (simp add: checkTopicSeq_def new_topic_manager_def)
  moreover have "list_all (\<lambda>(q, msg). q = ''a'' \<longrightarrow> (\<exists>i \<le> length ([] :: topic_op list).
      msg = topics_answer jv_lib (fold (topic_step jv_lib (\<lambda>_. None)) (take i []) example_tm)))
      [(''a'', topics_answer jv_lib example_tm), (''b'', new_amop)]" by simp
  ultimately show ?thesis
    using topic_gossip_in_step [OF _ jv_lib_spec _ tm_inv_new, of "[]" example_tm "''a''" None "\<lambda>_. None"
        "[(''a'', topics_answer jv_lib example_tm), (''b'', new_amop)]" 0] by simp
qed

end
