(* ===== verification/Gateway_Node.thy ===== *)
theory Gateway_Node
  imports Gateway_Model AMOP_Specs
begin

text \<open>
  \<open>Service::onMessage\<close> (\<open>libp2p/Service.cpp\<close>), which ties the P2P service, the node manager and
  the gateway together, and the wiring of the components in one node: the disconnect handler, the
  AMOP handler and the network operations AMOP asks for.
\<close>

section \<open>Dispatch of a packet\<close>

text \<open>\<open>gateway_alive\<close>: the weak pointer of the service to the gateway can be locked.\<close>

definition statusSeq :: "bool \<Rightarrow> 'q gateway \<Rightarrow> u32" where
  "statusSeq gateway_alive gw = (if gateway_alive then m_statusSeq (gw_nm gw) else 0)"

text \<open>\<open>*((uint32_t*)payload.data())\<close>: the first four bytes, whatever the size of the payload.\<close>

definition onHeartbeat :: "('key, 'more) bcos_fw_scheme \<Rightarrow> 'q write_queue \<Rightarrow> nat \<Rightarrow> p2p_id \<Rightarrow> bytes \<Rightarrow> 'q gateway \<Rightarrow>
    ('key, 'q) gateway_result" where
  "onHeartbeat fw wq a p2pID payload gw =
     cpp_bind (rd32 payload 0) (\<lambda>seq.
       if onReceiveStatusSeq p2pID seq (gw_nm gw)
       then on_service (sendMessageBySession fw wq (mtRequestNodeIDs fw) [] a) gw else Inr ([], gw))"

definition onRequestPacket :: "('key, 'more) bcos_fw_scheme \<Rightarrow> 'j jsonlib \<Rightarrow> 'q write_queue \<Rightarrow> nat \<Rightarrow> 'q gateway \<Rightarrow>
    ('key, 'q) gateway_result" where
  "onRequestPacket fw jl wq a gw =
     (let json = onRequestNodeIDs jl (gw_nm gw)
      in if json \<noteq> []
         then on_service (sendMessageBySession fw wq (mtResponseNodeIDs fw) (bytes_of_string json) a) gw
         else Inr ([], gw))"

definition onResponsePacket :: "('key, 'more) bcos_fw_scheme \<Rightarrow> 'j jsonlib \<Rightarrow> p2p_id \<Rightarrow> bytes \<Rightarrow> 'q gateway \<Rightarrow>
    ('key, 'q) gateway_result" where
  "onResponsePacket fw jl p2pID payload gw =
     cpp_bind (onReceiveNodeIDs fw jl p2pID (string_of_bytes payload) (gw_nm gw)) (\<lambda>(ns, nm).
       Inr (map Notify ns, gw\<lparr>gw_nm := nm\<rparr>))"

definition onPeerToPeerPacket :: "('key, 'more) bcos_fw_scheme \<Rightarrow> 'q write_queue \<Rightarrow> nat \<Rightarrow> p2p_message \<Rightarrow> 'q gateway \<Rightarrow>
    ('key, 'q) gateway_result" where
  "onPeerToPeerPacket fw wq a m gw =
     (case m_srcNodeID (m_options m) of None \<Rightarrow> Inl NullPointer
      | Some src \<Rightarrow> (case m_dstNodeIDs (m_options m) of
          [] \<Rightarrow> Inl OutOfBounds
        | None # _ \<Rightarrow> Inl NullPointer
        | Some dst # _ \<Rightarrow> onReceiveP2PMessage fw wq (m_groupID (m_options m)) (createKey fw src) (createKey fw dst)
            (m_payload m) (RespondTo a m) gw))"

definition onBroadcastPacket :: "('key, 'more) bcos_fw_scheme \<Rightarrow> p2p_message \<Rightarrow> 'q gateway \<Rightarrow> ('key, 'q) gateway_result" where
  "onBroadcastPacket fw m gw =
     (case m_srcNodeID (m_options m) of None \<Rightarrow> Inl NullPointer
      | Some src \<Rightarrow> Inr (onReceiveBroadcastMessage (m_groupID (m_options m)) (createKey fw src) (m_payload m) gw, gw))"

text \<open>
  \<open>Service::onMessage\<close>. \<open>session\<close> is the P2P session the handler was made for, \<open>None\<close> when it is
  gone.
\<close>

definition service_onMessage :: "('key, 'more) bcos_fw_scheme \<Rightarrow> 'j jsonlib \<Rightarrow> 'q write_queue \<Rightarrow> bool \<Rightarrow>
    network_exception \<Rightarrow> nat option \<Rightarrow> p2p_message option \<Rightarrow> 'q gateway \<Rightarrow> ('key, 'q) gateway_result" where
  "service_onMessage fw jl wq gateway_alive e session message gw =
     (case session of None \<Rightarrow> Inr ([], gw)
      | Some a \<Rightarrow> (case map_of (sv_store (gw_service gw)) a of None \<Rightarrow> Inl NullPointer
        | Some ps \<Rightarrow>
          let p2pID = pi_p2pID (ps_info ps)
          in if ne_code e \<noteq> 0 then on_service (lose_session e a) gw
             else if \<not> gateway_alive then Inr ([], gw)
             else case message of None \<Rightarrow> Inl NullPointer
             | Some m \<Rightarrow> (case getMessageHandlerByMsgType (m_packetType m) (gw_service gw) of
                 Some h \<Rightarrow> Inr ([Net (CallMsgHandler h e a m)], gw)
               | None \<Rightarrow>
                 let type = m_packetType m
                 in if type = mtHandshake fw then Inr ([], gw)
                    else if type = mtHeartbeat fw then onHeartbeat fw wq a p2pID (m_payload m) gw
                    else if type = mtRequestNodeIDs fw then onRequestPacket fw jl wq a gw
                    else if type = mtResponseNodeIDs fw then onResponsePacket fw jl p2pID (m_payload m) gw
                    else if type = mtPeerToPeerMessage fw then onPeerToPeerPacket fw wq a m gw
                    else if type = mtBroadcastMessage fw then onBroadcastPacket fw m gw
                    else Inr ([], gw))))"

section \<open>AMOP in the node\<close>

fun run_amop_effect :: "('key, 'more) bcos_fw_scheme \<Rightarrow> 'q write_queue \<Rightarrow> amop_effect \<Rightarrow> 'q gateway \<Rightarrow> ('key, 'q) gateway_result" where
  "run_amop_effect fw wq (BroadcastToPeers type b t) gw = on_service (asyncBroadcastMessageToP2PNodes fw wq type b t) gw"
| "run_amop_effect fw wq (SendToPeer type n b t cont) gw = on_service (asyncSendMessageByP2PNodeID fw wq type n b t (Some cont)) gw"
| "run_amop_effect fw wq (SendToPeers type ns b t) gw = on_service (asyncSendMessageByP2PNodeIDs fw wq type ns b t) gw"
| "run_amop_effect fw wq (AnswerSession a m) gw = on_service (on_session a (asyncSendMessage fw wq m 0 None)) gw"
| "run_amop_effect fw wq e gw = Inr ([Amop e], gw)"

fun run_amop_effects :: "('key, 'more) bcos_fw_scheme \<Rightarrow> 'q write_queue \<Rightarrow> amop_effect list \<Rightarrow> 'q gateway \<Rightarrow> ('key, 'q) gateway_result" where
  "run_amop_effects fw wq [] gw = Inr ([], gw)"
| "run_amop_effects fw wq (e # es) gw = sv_bind (run_amop_effect fw wq e gw) (run_amop_effects fw wq es)"

definition with_topics :: "('key, 'more) bcos_fw_scheme \<Rightarrow> 'q write_queue \<Rightarrow> amop_effect list \<times> topic_manager \<Rightarrow>
    'q gateway \<Rightarrow> ('key, 'q) gateway_result" where
  "with_topics fw wq r gw = run_amop_effects fw wq (fst r) (gw\<lparr>gw_tm := snd r\<rparr>)"

text \<open>\<open>onAMOPMessage\<close>, the handler AMOP registers for its packets: the dispatcher on its thread.\<close>

definition onAMOPMessage :: "('key, 'more) bcos_fw_scheme \<Rightarrow> 'j jsonlib \<Rightarrow> 'q write_queue \<Rightarrow> (bytes \<Rightarrow> string option) \<Rightarrow>
    (nat \<Rightarrow> nat) \<Rightarrow> (string \<Rightarrow> nat option) \<Rightarrow> network_exception \<Rightarrow> nat \<Rightarrow> p2p_message option \<Rightarrow> 'q gateway \<Rightarrow>
    ('key, 'q) gateway_result" where
  "onAMOPMessage fw jl wq topicOf rnd proxy e a message gw =
     (case map_of (sv_store (gw_service gw)) a of None \<Rightarrow> Inl NullPointer
      | Some ps \<Rightarrow> cpp_bind (dispatcherAMOPMessage fw jl topicOf rnd proxy e a (pi_p2pID (ps_info ps)) message (gw_tm gw))
          (\<lambda>r. with_topics fw wq r gw))"

text \<open>The operations of AMOP that the gateway passes on.\<close>

definition gw_asyncSendMessageByTopic :: "('key, 'more) bcos_fw_scheme \<Rightarrow> 'q write_queue \<Rightarrow> (nat \<Rightarrow> nat) \<Rightarrow>
    (string \<Rightarrow> nat option) \<Rightarrow> string \<Rightarrow> bytes \<Rightarrow> nat option \<Rightarrow> 'q gateway \<Rightarrow> ('key, 'q) gateway_result" where
  "gw_asyncSendMessageByTopic fw wq rnd proxy topic data respFunc gw =
     with_topics fw wq (asyncSendMessageByTopic fw rnd proxy (\<lambda>n. connected n (gw_service gw)) topic data respFunc (gw_tm gw)) gw"

definition gw_asyncSendBroadbastMessageByTopic :: "('key, 'more) bcos_fw_scheme \<Rightarrow> 'q write_queue \<Rightarrow> string \<Rightarrow> bytes \<Rightarrow>
    'q gateway \<Rightarrow> ('key, 'q) gateway_result" where
  "gw_asyncSendBroadbastMessageByTopic fw wq topic data gw =
     with_topics fw wq (asyncSendBroadbastMessageByTopic fw (\<lambda>n. connected n (gw_service gw)) topic data (gw_tm gw), gw_tm gw) gw"

definition gw_asyncSubscribeTopic :: "('key, 'more) bcos_fw_scheme \<Rightarrow> 'j jsonlib \<Rightarrow> 'q write_queue \<Rightarrow> (string \<Rightarrow> nat option) \<Rightarrow>
    string \<Rightarrow> string \<Rightarrow> nat option \<Rightarrow> 'q gateway \<Rightarrow> ('key, 'q) gateway_result" where
  "gw_asyncSubscribeTopic fw jl wq proxy clientID topicInfo callback gw =
     with_topics fw wq (asyncSubscribeTopic jl proxy clientID topicInfo callback (gw_tm gw)) gw"

definition gw_asyncRemoveTopic :: "('key, 'more) bcos_fw_scheme \<Rightarrow> 'q write_queue \<Rightarrow> string \<Rightarrow> string list \<Rightarrow> nat option \<Rightarrow>
    'q gateway \<Rightarrow> ('key, 'q) gateway_result" where
  "gw_asyncRemoveTopic fw wq clientID topics callback gw =
     with_topics fw wq (asyncRemoveTopic clientID topics callback (gw_tm gw)) gw"

text \<open>The reply to a message AMOP sent with \<open>asyncSendMessageByP2PNodeID\<close>.\<close>

definition onAmopReply :: "('key, 'more) bcos_fw_scheme \<Rightarrow> 'q write_queue \<Rightarrow> (nat \<Rightarrow> nat) \<Rightarrow> p2p_continuation \<Rightarrow> p2p_reply \<Rightarrow>
    'q gateway \<Rightarrow> ('key, 'q) gateway_result" where
  "onAmopReply fw wq rnd cont reply gw =
     (case cont of OnlyLog \<Rightarrow> Inr ([], gw)
      | RetrySender rs \<Rightarrow> cpp_bind (onRetryReply fw rnd rs reply) (\<lambda>es. run_amop_effects fw wq es gw))"

section \<open>Start and stop\<close>

text \<open>
  A gateway in local mode has a \<open>LocalTopicManager\<close>, whose \<open>start\<close> and \<open>stop\<close> do nothing, and a
  \<open>GatewayNodeManager\<close>, which has no timer; otherwise it has a \<open>TopicManager\<close> and a
  \<open>DynamicGatewayNodeManager\<close>. The rpc that is set marks the local mode. \<open>stringToProxy\<close> and \<open>active\<close>
  are what tars makes of names and proxies.
\<close>

definition local_mode :: "topic_manager \<Rightarrow> bool" where
  "local_mode tm = (m_rpc tm \<noteq> None)"

definition topic_manager_start :: "(string \<Rightarrow> nat option) \<Rightarrow> (nat \<Rightarrow> (string \<times> int) list) \<Rightarrow> string \<Rightarrow> topic_manager \<Rightarrow>
    'key gateway_effect list" where
  "topic_manager_start stringToProxy active m_rpcServiceName tm =
     (if local_mode tm then []
      else StartTimer TopicCheckTimer # map AskSubscribe (notifyRpcToSubscribeTopics stringToProxy active m_rpcServiceName))"

definition topic_manager_stop :: "topic_manager \<Rightarrow> 'key gateway_effect list" where
  "topic_manager_stop tm = (if local_mode tm then [] else [StopTimer TopicCheckTimer])"

definition amop_start :: "(string \<Rightarrow> nat option) \<Rightarrow> (nat \<Rightarrow> (string \<times> int) list) \<Rightarrow> string \<Rightarrow> topic_manager \<Rightarrow>
    'key gateway_effect list" where
  "amop_start stringToProxy active m_rpcServiceName tm =
     StartTimer TopicSyncTimer # topic_manager_start stringToProxy active m_rpcServiceName tm"

definition amop_stop :: "topic_manager \<Rightarrow> 'key gateway_effect list" where
  "amop_stop tm = StopTimer TopicSyncTimer # topic_manager_stop tm"

definition node_manager_start :: "bool \<Rightarrow> 'key gateway_effect list" where
  "node_manager_start local = (if local then [] else [StartTimer FrontServiceTimer])"

definition node_manager_stop :: "bool \<Rightarrow> 'key gateway_effect list" where
  "node_manager_stop local = (if local then [] else [StopTimer FrontServiceTimer])"

definition gateway_start :: "(string \<Rightarrow> nat option) \<Rightarrow> (nat \<Rightarrow> (string \<times> int) list) \<Rightarrow> string \<Rightarrow> 'q gateway \<Rightarrow>
    'key gateway_effect list \<times> 'q gateway" where
  "gateway_start stringToProxy active m_rpcServiceName gw =
     (case service_start (gw_service gw) of (es, sv) \<Rightarrow>
        (map Net es @ amop_start stringToProxy active m_rpcServiceName (gw_tm gw) @
           node_manager_start (local_mode (gw_tm gw)), gw\<lparr>gw_service := sv\<rparr>))"

definition gateway_stop :: "'q gateway \<Rightarrow> ('key, 'q) gateway_result" where
  "gateway_stop gw =
     cpp_bind (on_service service_stop gw) (\<lambda>(es, gw').
       Inr (es @ amop_stop (gw_tm gw) @ node_manager_stop (local_mode (gw_tm gw)), gw'))"

text \<open>
  The handlers of the timers. Those of the topic check and of the front services restart their
  timer first; \<open>broadcastTopicSeq\<close> does so after the broadcast.
\<close>

definition onTopicSyncTimer :: "('key, 'more) bcos_fw_scheme \<Rightarrow> 'q write_queue \<Rightarrow> 'q gateway \<Rightarrow> ('key, 'q) gateway_result" where
  "onTopicSyncTimer fw wq gw = with_topics fw wq (broadcastTopicSeq fw (gw_tm gw), gw_tm gw) gw"

definition onTopicCheckTimer :: "(nat \<Rightarrow> string list \<times> string list \<Rightarrow> string list \<times> string list) \<Rightarrow> 'q gateway \<Rightarrow>
    'key gateway_effect list \<times> 'q gateway" where
  "onTopicCheckTimer tars gw = ([RearmTimer TopicCheckTimer], gw\<lparr>gw_tm := checkClientConnection tars (gw_tm gw)\<rparr>)"

definition onFrontServiceTimer :: "('key, 'more) bcos_fw_scheme \<Rightarrow> (nat \<Rightarrow> nat list \<times> nat list) \<Rightarrow> u64 \<Rightarrow> u64 \<Rightarrow> 'q gateway \<Rightarrow>
    ('key, 'q) gateway_result" where
  "onFrontServiceTimer fw tars now m_startT gw =
     cpp_bind (updateFrontServiceInfo fw tars now m_startT (gw_nm gw)) (\<lambda>(ns, nm).
       Inr (RearmTimer FrontServiceTimer # map Notify ns, gw\<lparr>gw_nm := nm\<rparr>))"

text \<open>\<open>GatewayFactory::buildGateway\<close>: the components of one node and what they register.\<close>

text \<open>The constructor of \<open>AMOPImpl\<close> registers \<open>onAMOPMessage\<close> at the network.\<close>

definition new_amop_impl :: "('key, 'more) bcos_fw_scheme \<Rightarrow> ('q, 'c) service \<Rightarrow> ('q, 'c) service" where
  "new_amop_impl fw network = registerHandlerByMsgType (mtAMOPMessageType fw) (Some 0) network"

definition buildAMOP :: "('key, 'more) bcos_fw_scheme \<Rightarrow> ('q, 'c) service \<Rightarrow> topic_manager \<times> ('q, 'c) service" where
  "buildAMOP fw network = (new_topic_manager None, new_amop_impl fw network)"

definition buildLocalAMOP :: "('key, 'more) bcos_fw_scheme \<Rightarrow> ('q, 'c) service \<Rightarrow> topic_manager \<times> ('q, 'c) service" where
  "buildLocalAMOP fw network = (new_topic_manager (Some None), new_amop_impl fw network)"

definition setLocalClient :: "nat option \<Rightarrow> topic_manager \<Rightarrow> topic_manager" where
  "setLocalClient rpc tm = tm\<lparr>m_rpc := Some rpc\<rparr>"

text \<open>
  \<open>rpc\<close> is \<open>None\<close> for a gateway that is not in local mode, else the client that is set with
  \<open>setLocalClient\<close> before the start.
\<close>

definition build_gateway :: "('key, 'more) bcos_fw_scheme \<Rightarrow> p2p_id \<Rightarrow> endpoint list \<Rightarrow> nat option option \<Rightarrow> 'q gateway" where
  "build_gateway fw pubHex connectedNodes rpc =
     (let service = setStaticNodes connectedNodes (new_service pubHex);
          (topicManager, service) = (case rpc of None \<Rightarrow> buildAMOP fw service
             | Some client \<Rightarrow> apfst (setLocalClient client) (buildLocalAMOP fw service))
      in \<lparr>gw_service = registerDisconnectHandler 0 service, gw_nm = new_node_manager pubHex, gw_tm = topicManager\<rparr>)"

lemma build_gateway_eq:
  "build_gateway fw pubHex connectedNodes rpc =
     \<lparr>gw_service = registerDisconnectHandler 0 (registerHandlerByMsgType (mtAMOPMessageType fw) (Some 0)
        (setStaticNodes connectedNodes (new_service pubHex))),
      gw_nm = new_node_manager pubHex, gw_tm = new_topic_manager rpc\<rparr>"
  by (cases rpc) (simp_all add: build_gateway_def buildAMOP_def buildLocalAMOP_def new_amop_impl_def setLocalClient_def new_topic_manager_def)

end
