(* ===== verification/Service_Specs.thy ===== *)
theory Service_Specs
  imports Service_Inv
begin

text \<open>The properties of the P2P service.\<close>

definition example_info :: "string \<Rightarrow> p2p_info" where
  "example_info p = \<lparr>pi_p2pID = p, pi_agencyName = [], pi_nodeName = [], pi_endpoint = ([], 0)\<rparr>"

definition example_ep :: endpoint where
  "example_ep = (''127.0.0.1'', 30300)"

definition example_session :: "bytes list session" where
  "example_session = create_session (Some True) True []"

lemma greeting:
  assumes "fifo_spec wq view" and "view (m_writeQueue s) = []" and "m_server s = Some True"
    and "m_socketConnected s" and "\<not> m_writing s" and "m_actived s"
  shows "\<exists>s'. asyncSendMessage fw wq m 0 None s = Inr ([AsyncWrite (snd (message_encode fw m))], s')"
proof -
  let ?b = "snd (message_encode fw m)"
  have "view (wq_push wq (m_writeQueue s) ?b) = [?b]" and "\<not> wq_empty wq (wq_push wq (m_writeQueue s) ?b)"
    and "wq_top wq (wq_push wq (m_writeQueue s) ?b) = ?b"
    using assms(1,2) by (simp_all add: fifo_spec_def)
  with assms(3-6) show ?thesis
    by (simp add: asyncSendMessage_def eff_bind_def session_send_def session_write_def actived_def)
qed

lemma connect_greets:
  assumes "fifo_spec wq view" and "view q = []" and "sv_run sv"
    and "\<not> isConnected (pi_p2pID info) sv" and "pi_p2pID info \<noteq> sv_nodeID sv"
  shows "\<exists>idle sv'. onConnect fw wq k success info (Some (create_session (Some True) True q, ep)) sv
      = Inr (map (SessionDo (sv_next sv)) (idle @ [PostDoRead, AsyncWrite (snd (message_encode fw (heartbeat_message fw k)))])
             @ [ArmP2PSessionTimer (sv_next sv) 5000], sv') \<and>
    list_all (\<lambda>e. e = ArmIdle) idle \<and>
    isConnected (pi_p2pID info) sv' \<and> getP2PSessionByNodeId (pi_p2pID info) sv' = Some (sv_next sv)"
proof -
  let ?a = "sv_next sv" and ?s = "create_session (Some True) True q"
  let ?sv1 = "sv\<lparr>sv_store := um_put ?a (new_p2p_session ?s ep info) (sv_store sv), sv_next := ?a + 1\<rparr>"
  let ?s1 = "?s\<lparr>m_messageHandler := True, m_actived := True\<rparr>"
  obtain s2 where sent: "asyncSendMessage fw wq (heartbeat_message fw k) 0 None ?s1
      = Inr ([AsyncWrite (snd (message_encode fw (heartbeat_message fw k)))], s2)"
    using greeting [OF assms(1), of ?s1 fw "heartbeat_message fw k"] assms(2)
    by (auto simp: create_session_def setHost_def)
  have act: "actived ?s1" by (simp add: actived_def create_session_def setHost_def)
  have "\<exists>sv2. p2p_start fw wq k ?a ?sv1 = Inr (map (SessionDo ?a) ([ArmIdle, ArmIdle] @
      [PostDoRead, AsyncWrite (snd (message_encode fw (heartbeat_message fw k)))]) @ [ArmP2PSessionTimer ?a 5000], sv2)"
    using assms(3) sent act
    by (simp add: p2p_start_def ps_actived_def new_p2p_session_def set_ps_run_def on_session_def um_simps
        p2p_heartBeat_def session_start_def create_session_def setHost_def updateIdleTimer_def)
  then obtain sv2 where start: "p2p_start fw wq k ?a ?sv1 = Inr (map (SessionDo ?a) ([ArmIdle, ArmIdle] @
      [PostDoRead, AsyncWrite (snd (message_encode fw (heartbeat_message fw k)))]) @ [ArmP2PSessionTimer ?a 5000], sv2)"
    by blast
  then obtain sv' where run: "onConnect fw wq k success info (Some (?s, ep)) sv
      = Inr (map (SessionDo ?a) ([ArmIdle, ArmIdle] @
      [PostDoRead, AsyncWrite (snd (message_encode fw (heartbeat_message fw k)))]) @ [ArmP2PSessionTimer ?a 5000], sv')"
    using assms(4,5) by (simp add: onConnect_def Let_def success_def)
  have "adopt ?a info ep sv sv'" by (rule onConnect_adopted [OF assms(4,5) _ run]) (simp add: success_def)
  then have "isConnected (pi_p2pID info) sv'" "getP2PSessionByNodeId (pi_p2pID info) sv' = Some ?a"
    by (simp_all add: adopt_def isConnected_view getP2PSessionByNodeId_def um_simps)
  moreover have "list_all (\<lambda>e. e = ArmIdle) [ArmIdle, ArmIdle]" by simp
  ultimately show ?thesis using run by blast
qed

text \<open>
  Claim C18: whatever happens to the service from its start on - connections in any order, also
  of a peer already known or of the gateway itself, errors of sessions, sends, timers, stop and
  restart - every registered session belongs to the peer it is registered for, which is not the
  gateway itself, and no peer has two running sessions: one that runs is the registered one.
\<close>

theorem service_sessions_unique:
  fixes evs :: "('q, 'c) svc_event list"
  shows "case svc_run fw wq evs (new_service n) of
     Inl _ \<Rightarrow> True
   | Inr (es, sv) \<Rightarrow>
       (\<forall>p a. getP2PSessionByNodeId p sv = Some a \<longrightarrow>
          p \<noteq> n \<and> (\<exists>ps. map_of (sv_store sv) a = Some ps \<and> pi_p2pID (ps_info ps) = p)) \<and>
       (\<forall>a ps. map_of (sv_store sv) a = Some ps \<and> ps_run ps \<longrightarrow>
          getP2PSessionByNodeId (pi_p2pID (ps_info ps)) sv = Some a)"
proof (cases "svc_run fw wq evs (new_service n)")
  case (Inr r)
  obtain es sv where r: "r = (es, sv)" by fastforce
  have inv: "svc_inv sv" using svc_inv_run [OF svc_inv_new] Inr r by blast
  have id: "sv_nodeID sv = n"
    using svc_run_nodeID [of fw wq evs "new_service n" es sv] Inr r by (simp add: new_service_def)
  have "p \<noteq> n \<and> (\<exists>ps. map_of (sv_store sv) a = Some ps \<and> pi_p2pID (ps_info ps) = p)"
    if "map_of (sv_sessions sv) p = Some a" for p a
    using svc_invD(2,3) [OF inv that] by (auto simp: id ps_view_def)
  moreover have "map_of (sv_sessions sv) (pi_p2pID (ps_info ps)) = Some a"
    if "map_of (sv_store sv) a = Some ps" "ps_run ps" for a ps
    using svc_invD(4) [OF inv, of a "ps_info ps"] that by (simp add: ps_view_def)
  ultimately show ?thesis by (simp add: Inr r getP2PSessionByNodeId_def)
qed simp

lemma example_run:
  "\<exists>es sv. svc_run example_fw list_queue
     [StartService, HostConnected 1 success (example_info ''p1'') (Some (example_session, example_ep))]
     (new_service ''me'' :: (bytes list, nat) service) = Inr (es, sv) \<and> getP2PSessionByNodeId ''p1'' sv = Some 0"
proof -
  let ?sv = "snd (service_start (new_service ''me'' :: (bytes list, nat) service))"
  have sv: "?sv = (new_service ''me'')\<lparr>sv_run := True, sv_timer := True\<rparr>"
    by (simp add: service_start_def service_heartBeat_def new_service_def)
  then have "\<not> isConnected (pi_p2pID (example_info ''p1'')) ?sv" "sv_run ?sv" "sv_next ?sv = 0"
      "pi_p2pID (example_info ''p1'') \<noteq> sv_nodeID ?sv"
    by (simp_all add: isConnected_def new_service_def example_info_def)
  from connect_greets [OF list_queue_fifo refl this(2,1,4), of example_fw 1 example_ep] this(3)
  obtain es sv' where "onConnect example_fw list_queue 1 success (example_info ''p1'') (Some (example_session, example_ep)) ?sv
      = Inr (es, sv')" "getP2PSessionByNodeId ''p1'' sv' = Some 0"
    by (auto simp: example_session_def example_info_def)
  then show ?thesis by (cases "service_start (new_service ''me'' :: (bytes list, nat) service)") simp
qed

theorem service_sessions_unique_witness:
  "\<exists>es sv. svc_run example_fw list_queue
     [StartService, HostConnected 1 success (example_info ''p1'') (Some (example_session, example_ep))]
     (new_service ''me'' :: (bytes list, nat) service) = Inr (es, sv) \<and>
     (\<exists>ps. map_of (sv_store sv) 0 = Some ps \<and> pi_p2pID (ps_info ps) = ''p1'')"
proof -
  obtain es sv where run: "svc_run example_fw list_queue
     [StartService, HostConnected 1 success (example_info ''p1'') (Some (example_session, example_ep))]
     (new_service ''me'' :: (bytes list, nat) service) = Inr (es, sv)" and at: "getP2PSessionByNodeId ''p1'' sv = Some 0"
    using example_run by blast
  with service_sessions_unique [where fw = example_fw and wq = list_queue and n = "''me''" and evs =
      "[StartService, HostConnected 1 success (example_info ''p1'') (Some (example_session, example_ep))]
       :: (bytes list, nat) svc_event list"]
  have "\<exists>ps. map_of (sv_store sv) 0 = Some ps \<and> pi_p2pID (ps_info ps) = ''p1''"
    by (simp del: svc_run.simps)
  with run show ?thesis by blast
qed

text \<open>
  A session of a peer that is not connected, and not this gateway, is adopted: it is
  registered, runs, reads, and the first thing written to its socket is a heartbeat with the
  status sequence, so that the peer asks for the node ids at once.
\<close>

theorem service_connect_greets:
  assumes "fifo_spec wq view" and "view q = []" and "sv_run sv"
    and "\<not> isConnected (pi_p2pID info) sv" and "pi_p2pID info \<noteq> sv_nodeID sv"
  shows "\<exists>idle sv'. onConnect fw wq k success info (Some (create_session (Some True) True q, ep)) sv
      = Inr (map (SessionDo (sv_next sv)) (idle @ [PostDoRead, AsyncWrite (snd (message_encode fw (heartbeat_message fw k)))])
             @ [ArmP2PSessionTimer (sv_next sv) 5000], sv') \<and>
    list_all (\<lambda>e. e = ArmIdle) idle \<and>
    isConnected (pi_p2pID info) sv' \<and> getP2PSessionByNodeId (pi_p2pID info) sv' = Some (sv_next sv)"
  by (rule connect_greets [OF assms])

definition example_service :: "(bytes list, nat) service" where
  "example_service = (new_service ''me'')\<lparr>sv_run := True\<rparr>"

theorem service_connect_greets_witness:
  "\<exists>idle sv'. onConnect example_fw list_queue 7 success (example_info ''p1'')
      (Some (create_session (Some True) True [], example_ep)) example_service
      = Inr (map (SessionDo 0) (idle @ [PostDoRead, AsyncWrite (snd (message_encode example_fw (heartbeat_message example_fw 7)))])
             @ [ArmP2PSessionTimer 0 5000], sv') \<and> isConnected ''p1'' sv'"
  using service_connect_greets [OF list_queue_fifo refl, of example_service "example_info ''p1''" example_fw 7 example_ep]
  by (auto simp: example_service_def new_service_def example_info_def isConnected_def split: option.splits)

text \<open>
  A message for a peer that is not connected is dropped without a word: nothing is
  sent and the callback is never called. Only \<open>asyncSendMessageByP2PNodeID\<close> looks first and
  reports the missing connection.
\<close>

theorem service_send_unconnected:
  "(if isConnected n sv then True
    else asyncSendMessageByNodeID fw wq n m callback t sv = Inr ([], m, sv) \<and>
      asyncSendMessageByP2PNodeID fw wq type n payload t (Some c) sv
        = Inr ([CallP2P c (Some (not_connected_error n)) 0 None], sv))"
  by (auto simp: asyncSendMessageByNodeID_def asyncSendMessageByP2PNodeID_def isConnected_def split: option.split)

end
