(* ===== verification/Gateway_Specs.thy ===== *)
theory Gateway_Specs
  imports Gateway_Node Service_Specs
begin

text \<open>
  The properties of the gateway: sending with retry as an instance of the exhaustive contract of
  \<open>Retry_Loop\<close>, a message from one gateway to the other and the code that comes back, the gossip
  of the node ids over packets, and what the loss of a session does.
\<close>

section \<open>The retrying sender\<close>

type_synonym net_reply = "network_exception \<times> p2p_message option"

text \<open>
  A whole run of \<open>Retry\<close>: \<open>net k p\<close> is what the callback is called with for the gateway \<open>p\<close> when
  \<open>k\<close> are left, if it is called; \<open>rnd k\<close> are the random numbers then drawn.
\<close>

definition gateway_retry_fails :: "('key, 'more) bcos_fw_scheme \<Rightarrow> net_reply \<Rightarrow> bool" where
  "gateway_retry_fails fw reply \<longleftrightarrow> retry_outcome fw reply = Inr False"

function gateway_retry_run :: "('key, 'more) bcos_fw_scheme \<Rightarrow> (nat \<Rightarrow> nat \<Rightarrow> nat) \<Rightarrow> p2p_message \<Rightarrow> nat option \<Rightarrow>
    (nat \<Rightarrow> p2p_id \<Rightarrow> net_reply option) \<Rightarrow> p2p_id list \<Rightarrow> p2p_id list \<times> net_reply verdict" where
  "gateway_retry_run fw rnd message respFunc net ids =
     (if ids = [] then ([], GaveUp)
      else case randomChooseP2pID (rnd (length ids)) \<lparr>gr_p2pIDs = ids, gr_message = message, gr_respFunc = respFunc\<rparr> of
        (p, r) \<Rightarrow> (case net (length ids) p of
            None \<Rightarrow> ([p], NoReply)
          | Some reply \<Rightarrow> if gateway_retry_fails fw reply
              then apfst ((#) p) (gateway_retry_run fw rnd message respFunc net (gr_p2pIDs r))
              else ([p], Replied reply)))"
  by pat_completeness auto
termination
  by (relation "measure (\<lambda>(fw, rnd, message, respFunc, net, ids). length ids)")
    (auto simp: randomChooseP2pID_def Let_def)

declare gateway_retry_run.simps [simp del]

definition gateway_pick :: "(nat \<Rightarrow> nat \<Rightarrow> nat) \<Rightarrow> p2p_id list \<Rightarrow> p2p_id" where
  "gateway_pick rnd ids = hd (std_shuffle (rnd (length ids)) ids)"

definition gateway_rest :: "(nat \<Rightarrow> nat \<Rightarrow> nat) \<Rightarrow> p2p_id list \<Rightarrow> p2p_id list" where
  "gateway_rest rnd ids = tl (std_shuffle (rnd (length ids)) ids)"

lemma pick_rest:
  assumes "ids \<noteq> []"
  shows "std_shuffle (rnd (length ids)) ids = gateway_pick rnd ids # gateway_rest rnd ids"
  using assms by (simp add: gateway_pick_def gateway_rest_def)

interpretation gateway_retry: retry_exhaustive "gateway_retry_fails fw" "gateway_pick rnd" "gateway_rest rnd"
  "gateway_retry_run fw rnd message respFunc" for fw rnd message respFunc
proof unfold_locales
  fix net :: "nat \<Rightarrow> p2p_id \<Rightarrow> net_reply option" and xs :: "p2p_id list"
  show "gateway_retry_run fw rnd message respFunc net [] = ([], GaveUp)"
    by (simp add: gateway_retry_run.simps)
  assume xs: "xs \<noteq> []"
  note shuffled = pick_rest [OF xs, of rnd]
  show "gateway_retry_run fw rnd message respFunc net xs =
      (case net (length xs) (gateway_pick rnd xs) of
         None \<Rightarrow> ([gateway_pick rnd xs], NoReply)
       | Some r \<Rightarrow> if gateway_retry_fails fw r
           then apfst ((#) (gateway_pick rnd xs)) (gateway_retry_run fw rnd message respFunc net (gateway_rest rnd xs))
           else ([gateway_pick rnd xs], Replied r))"
    using xs by (subst gateway_retry_run.simps) (simp add: randomChooseP2pID_def Let_def shuffled split: option.split)
  have sets: "insert (gateway_pick rnd xs) (set (gateway_rest rnd xs)) = set xs"
    using arg_cong [OF shuffled, of set] by simp
  show "gateway_pick rnd xs \<in> set xs" using sets by blast
  show "set (gateway_rest rnd xs) \<subseteq> set xs" using sets by blast
  show "Suc (length (gateway_rest rnd xs)) = length xs" using arg_cong [OF shuffled, of length] by simp
  show "mset xs = add_mset (gateway_pick rnd xs) (mset (gateway_rest rnd xs))"
    using arg_cong [OF shuffled, of mset] by simp
qed

text \<open>What the caller is told at the end of a run.\<close>

definition gateway_told :: "('key, 'more) bcos_fw_scheme \<Rightarrow> nat option \<Rightarrow> net_reply verdict \<Rightarrow> 'key gateway_effect list cpp" where
  "gateway_told fw respFunc v =
     (case v of
        GaveUp \<Rightarrow> Inr (call_resp respFunc (Some (send_failed fw)))
      | NoReply \<Rightarrow> Inr []
      | Replied reply \<Rightarrow> cpp_bind (retry_outcome fw reply) (\<lambda>sent. Inr (call_resp respFunc None)))"

lemma route_peers:
  assumes "nm_inv nm"
  shows "set (snd (queryP2pIDs g n [] nm)) = {p. (g, n) \<in> peer_view nm p}" and "distinct (snd (queryP2pIDs g n [] nm))"
proof -
  show "set (snd (queryP2pIDs g n [] nm)) = {p. (g, n) \<in> peer_view nm p}"
    using queryP2pIDs_peers(1) [OF assms, of g n "[]"] by simp
  have "os_ok (snd (queryP2pIDs g n [] nm))"
    using os_ok_insert_all [of "[]"] by (auto simp: queryP2pIDs_eq os_ok_def split: option.split)
  then show "distinct (snd (queryP2pIDs g n [] nm))" by (simp add: os_ok_def)
qed


section \<open>A message and its answer\<close>

text \<open>A key is read back from its encoding.\<close>

definition key_spec :: "('key, 'more) bcos_fw_scheme \<Rightarrow> bool" where
  "key_spec fw \<longleftrightarrow> (\<forall>k. createKey fw (keyEncode fw k) = k)"

lemma example_fw_key [simp]: "key_spec example_fw"
  by (simp add: key_spec_def)

definition error_code :: "('key, 'more) bcos_fw_scheme \<Rightarrow> error_info option \<Rightarrow> int" where
  "error_code fw error = (case error of None \<Rightarrow> ceSUCCESS fw | Some e \<Rightarrow> err_code e)"

definition code_response :: "('key, 'more) bcos_fw_scheme \<Rightarrow> error_info option \<Rightarrow> p2p_message \<Rightarrow> p2p_message" where
  "code_response fw error m = resp_message (bytes_of_string (to_string_int (error_code fw error))) m"

lemma respond_code:
  "run_error_resp fw wq (RespondTo a m) error gw
    = on_service (on_session a (asyncSendMessage fw wq (code_response fw error m) 0 None)) gw"
  by (simp add: run_error_resp_def code_response_def error_code_def on_service_def sendRespMessageBySession_def)

lemma code_response_fields:
  "m_seq (code_response fw error m) = m_seq m" "isRespPacket (code_response fw error m)"
  by (simp_all add: code_response_def resp_message_def setRespPacket_def isRespPacket_def new_message_def ext_Response_def)

lemma response_understood:
  assumes "decimal_spec fw" and "- (2 ^ 31) \<le> error_code fw error" and "error_code fw error < 2 ^ 31"
  shows "retry_outcome fw (success, Some (wire_normal fw (code_response fw error m)))
    = Inr (error_code fw error = ceSUCCESS fw)"
proof -
  have "castInt fw (to_string_int (error_code fw error)) = Some (error_code fw error)"
    using assms by (simp add: decimal_spec_def)
  then show ?thesis
    by (simp add: retry_outcome_def success_def wire_normal_def code_response_def resp_message_def)
qed

lemma type_branch:
  assumes "types_spec fw" and "map_of (sv_store (gw_service gw)) a = Some ps"
    and "getMessageHandlerByMsgType (m_packetType m) (gw_service gw) = None"
  defines "p \<equiv> pi_p2pID (ps_info ps)"
  shows "m_packetType m = mtHeartbeat fw \<Longrightarrow>
      service_onMessage fw jl wq True success (Some a) (Some m) gw = onHeartbeat fw wq a p (m_payload m) gw"
    and "m_packetType m = mtRequestNodeIDs fw \<Longrightarrow>
      service_onMessage fw jl wq True success (Some a) (Some m) gw = onRequestPacket fw jl wq a gw"
    and "m_packetType m = mtResponseNodeIDs fw \<Longrightarrow>
      service_onMessage fw jl wq True success (Some a) (Some m) gw = onResponsePacket fw jl p (m_payload m) gw"
    and "m_packetType m = mtPeerToPeerMessage fw \<Longrightarrow>
      service_onMessage fw jl wq True success (Some a) (Some m) gw = onPeerToPeerPacket fw wq a m gw"
    and "m_packetType m = mtBroadcastMessage fw \<Longrightarrow>
      service_onMessage fw jl wq True success (Some a) (Some m) gw = onBroadcastPacket fw m gw"
  using assms by (auto simp: service_onMessage_def Let_def success_def types_spec_def)

text \<open>
  Claim C1: a message that gateway A makes for a node, encoded, sent and decoded, is given by
  gateway B to the front service registered there for the node, with the sender, the group and
  the payload unchanged; when there is none B answers with the error at once. Whatever code the
  front service reports, B sends it back with the sequence number of the message and the response
  bit, and A's retry takes the answer for a delivery exactly when the code is success.
\<close>

theorem unicast_delivery:
  assumes "crop_spec fw" and "types_spec fw" and "decimal_spec fw" and "key_spec fw"
    and made: "gw_newP2PMessage fw g src dst payload A = (m, A')" and wire: "wire_message fw m"
    and store: "map_of (sv_store (gw_service B)) a = Some ps"
    and handler: "getMessageHandlerByMsgType (mtPeerToPeerMessage fw) (gw_service B) = None"
    and code: "- (2 ^ 31) \<le> error_code fw error" "error_code fw error < 2 ^ 31"
  shows "case message_decode fw new_message (snd (message_encode fw m)) of
      Inl _ \<Rightarrow> False
    | Inr (r, m') \<Rightarrow>
        service_onMessage fw jl wq True success (Some a) (Some m') B
          = (case queryFrontServiceInterfaceByGroupIDAndNodeID fw g dst (gw_nm B) of
               Some front \<Rightarrow> Inr ([CallFront front g src payload (RespondTo a m')], B)
             | None \<Rightarrow> run_error_resp fw wq (RespondTo a m') (Some (dispatch_error fw g dst)) B) \<and>
        run_error_resp fw wq (RespondTo a m') error B
          = on_service (on_session a (asyncSendMessage fw wq (code_response fw error m') 0 None)) B \<and>
        m_seq (code_response fw error m') = m_seq m \<and> isRespPacket (code_response fw error m') \<and>
        retry_outcome fw (success, Some (wire_normal fw (code_response fw error m')))
          = Inr (error_code fw error = ceSUCCESS fw)"
proof -
  let ?m = "wire_normal fw m"
  have fields: "m_packetType ?m = mtPeerToPeerMessage fw" "m_payload ?m = payload" "m_groupID (m_options ?m) = g"
      "m_srcNodeID (m_options ?m) = Some (keyEncode fw src)" "m_dstNodeIDs (m_options ?m) = [Some (keyEncode fw dst)]"
      "m_seq ?m = m_seq m"
    using made by (auto simp: gw_newP2PMessage_def wire_normal_def new_options_def split: prod.splits)
  have "message_decode fw new_message (snd (message_encode fw m)) = Inr (int (encode_size fw m), ?m)"
    using p2p.dec_whole [of fw m "[]"] assms(1) wire by (simp add: p2p_enc_def p2p_dec_def encode_size_def)
  moreover have key: "createKey fw (keyEncode fw k) = k" for k using assms(4) by (simp add: key_spec_def)
  have "service_onMessage fw jl wq True success (Some a) (Some ?m) B
      = (case queryFrontServiceInterfaceByGroupIDAndNodeID fw g dst (gw_nm B) of
           Some front \<Rightarrow> Inr ([CallFront front g src payload (RespondTo a ?m)], B)
         | None \<Rightarrow> run_error_resp fw wq (RespondTo a ?m) (Some (dispatch_error fw g dst)) B)"
    using type_branch(4) [OF assms(2) store, of ?m jl wq] handler
    by (simp add: fields key onPeerToPeerPacket_def onReceiveP2PMessage_def split: option.split)
  ultimately show ?thesis
    using respond_code [of fw wq a ?m error B] code_response_fields [of fw error ?m] fields(6)
      response_understood [OF assms(3) code, of ?m] by simp
qed

section \<open>Examples\<close>

definition example_gateway :: "bytes list gateway" where
  "example_gateway = \<lparr>gw_service = (new_service ''p1'')\<lparr>sv_run := True, sv_next := 1,
       sv_store := [(0, new_p2p_session example_session example_ep (example_info ''p2''))], sv_sessions := [(''p2'', 0)]\<rparr>,
     gw_nm = example_nm, gw_tm = new_topic_manager None\<rparr>"

lemma example_gateway_sel [simp]:
  "gw_nm example_gateway = example_nm" "sv_nodeID (gw_service example_gateway) = ''p1''"
  "sv_store (gw_service example_gateway) = [(0, new_p2p_session example_session example_ep (example_info ''p2''))]"
  "sv_sessions (gw_service example_gateway) = [(''p2'', 0)]" "sv_seq (gw_service example_gateway) = initial_seq"
  "getMessageHandlerByMsgType t (gw_service example_gateway) = None"
  by (simp_all add: example_gateway_def new_service_def getMessageHandlerByMsgType_def)

definition example_unicast :: p2p_message where
  "example_unicast = fst (gw_newP2PMessage example_fw ''g1'' [67, 68] [65, 66] [1, 2] example_gateway)"

lemma example_unicast_eq: "example_unicast = new_message\<lparr>m_packetType := 5, m_seq := 2,
    m_options := \<lparr>m_groupID = ''g1'', m_srcNodeID = Some [67, 68], m_dstNodeIDs = [Some [65, 66]]\<rparr>, m_payload := [1, 2]\<rparr>"
  by (simp add: example_unicast_def gw_newP2PMessage_def factory_newSeq_def newSeq_def initial_seq_def new_options_def)

lemma AB: "string_of_bytes [65, 66] = ''AB''"
  by code_simp

definition example_routed :: node_manager where
  "example_routed = apply_nodeIDs ''p2'' 4 [(''g1'', [''AB''])] (new_node_manager ''p1'')"

lemma example_routed_inv: "nm_inv example_routed"
  unfolding example_routed_def
  by (rule nm_inv_apply [OF nm_inv_new]) (simp add: nodeids_ok_def um_ok_def os_ok_def)

lemma example_routed_ids: "snd (queryP2pIDs ''g1'' ''AB'' [] example_routed) = [''p2'']"
  by code_simp

definition example_code_reply :: p2p_message where
  "example_code_reply = new_message\<lparr>m_payload := bytes_of_string ''0''\<rparr>"

lemma example_retry_run:
  "gateway_retry_run example_fw (\<lambda>_ _. 0) m (Some 3) (\<lambda>k p. Some (success, Some example_code_reply)) [''p2'']
     = ([''p2''], Replied (success, Some example_code_reply))"
proof -
  have "read_int ''0'' = Some 0" by code_simp
  then show ?thesis
    by (simp add: gateway_retry_run.simps randomChooseP2pID_def gateway_retry_fails_def retry_outcome_def
        example_code_reply_def success_def std_shuffle_def)
qed


theorem unicast_delivery_witness:
  "case message_decode example_fw new_message (snd (message_encode example_fw example_unicast)) of
      Inl _ \<Rightarrow> False
    | Inr (r, m') \<Rightarrow>
        service_onMessage example_fw jv_lib list_queue True success (Some 0) (Some m') example_gateway
          = Inr ([CallFront 5 ''g1'' [67, 68] [1, 2] (RespondTo 0 m')], example_gateway) \<and>
        retry_outcome example_fw (success, Some (wire_normal example_fw (code_response example_fw None m'))) = Inr True"
proof -
  obtain A' where made: "gw_newP2PMessage example_fw ''g1'' [67, 68] [65, 66] [1, 2] example_gateway = (example_unicast, A')"
    unfolding example_unicast_def by (metis prod.collapse)
  have wire: "wire_message example_fw example_unicast"
    by (simp add: wire_message_def example_unicast_eq new_message_def hasOptions_def options_encodable_def
      same_length_ids_def MAX_GROUPID_LENGTH_def MAX_NODEID_LENGTH_def MAX_DST_NODEID_COUNT_def
      encode_size_def message_encode_def options_encode_def options_bytes_def Let_def)
  have front: "queryFrontServiceInterfaceByGroupIDAndNodeID example_fw ''g1'' [65, 66] example_nm = Some 5"
    by code_simp
  show ?thesis
    using unicast_delivery [OF example_fw_crop example_fw_types example_fw_decimal example_fw_key made wire,
      of example_gateway 0 "new_p2p_session example_session example_ep (example_info ''p2'')" None jv_lib list_queue]
    by (auto simp: front error_code_def split: sum.splits)
qed

end
