(* ===== verification/Gateway_World.thy ===== *)
theory Gateway_World
  imports Gateway_Specs
begin

text \<open>
  Two gateways and the bytes between them: the gossip of the node ids packet by packet, what the
  loss of a session does, and where the messages and the broadcasts of a gateway go.
\<close>

section \<open>Packets between the gateways\<close>

text \<open>What the receiver makes of the bytes of a message.\<close>

definition over_wire :: "('key, 'more) bcos_fw_scheme \<Rightarrow> p2p_message \<Rightarrow> p2p_message option" where
  "over_wire fw m = (case message_decode fw new_message (snd (message_encode fw m)) of
     Inl u \<Rightarrow> None | Inr (r, m') \<Rightarrow> if r > 0 then Some m' else None)"

lemma over_wire_normal:
  assumes "crop_spec fw" and "wire_message fw m"
  shows "over_wire fw m = Some (wire_normal fw m)"
  using message_decode_encode [OF assms, of "[]"] encode_size_eq [OF wire_message_encodable [OF assms(2)]]
  by (simp add: over_wire_def)

definition plain_packet :: "u32 \<Rightarrow> u16 \<Rightarrow> bytes \<Rightarrow> p2p_message" where
  "plain_packet seq type payload = new_message\<lparr>m_seq := seq, m_packetType := type, m_payload := payload\<rparr>"

lemma plain_packet_eq:
  "heartbeat_message fw k = plain_packet 0 (mtHeartbeat fw) (be32 k)"
  "sendMessageBySession fw wq type payload a sv = (case factory_newSeq sv of (seq, sv1) \<Rightarrow>
     on_session a (asyncSendMessage fw wq (plain_packet seq type payload) 0 None) sv1)"
  by (simp_all add: heartbeat_message_def plain_packet_def new_message_def sendMessageBySession_def)

lemma plain_packet_wire:
  assumes "type \<noteq> mtPeerToPeerMessage fw" "type \<noteq> mtBroadcastMessage fw" and "length payload < 2 ^ 32 - 14"
  shows "wire_message fw (plain_packet seq type payload)"
  using assms by (simp add: wire_message_def hasOptions_def encode_size_def message_encode_def plain_packet_def
      new_message_def message_header_def)

lemma plain_packet_arrives:
  assumes "crop_spec fw" and "type \<noteq> mtPeerToPeerMessage fw" "type \<noteq> mtBroadcastMessage fw"
    and "length payload < 2 ^ 32 - 14"
  shows "\<exists>m. over_wire fw (plain_packet seq type payload) = Some m \<and> m_packetType m = type \<and> m_payload m = payload"
proof -
  let ?m = "plain_packet seq type payload"
  have "wire_message fw ?m" by (rule plain_packet_wire [OF assms(2-4)])
  from over_wire_normal [OF assms(1) this] show ?thesis by (simp add: wire_normal_def plain_packet_def)
qed

text \<open>
  Session \<open>a\<close> of the gateway is one with the peer \<open>p\<close>, and the packets of the gossip have no
  handler of their own (the gateway registers one for the AMOP packets only).
\<close>

definition gossips_with :: "('key, 'more) bcos_fw_scheme \<Rightarrow> 'q gateway \<Rightarrow> nat \<Rightarrow> p2p_id \<Rightarrow> bool" where
  "gossips_with fw gw a p \<longleftrightarrow>
     (case map_of (sv_store (gw_service gw)) a of None \<Rightarrow> False | Some ps \<Rightarrow> pi_p2pID (ps_info ps) = p) \<and>
     list_all (\<lambda>type. getMessageHandlerByMsgType type (gw_service gw) = None)
       [mtHeartbeat fw, mtRequestNodeIDs fw, mtResponseNodeIDs fw]"

lemma gossip_types:
  assumes "types_spec fw"
  shows "mtHeartbeat fw \<notin> {mtPeerToPeerMessage fw, mtBroadcastMessage fw}"
    and "mtRequestNodeIDs fw \<notin> {mtPeerToPeerMessage fw, mtBroadcastMessage fw}"
    and "mtResponseNodeIDs fw \<notin> {mtPeerToPeerMessage fw, mtBroadcastMessage fw}"
  using assms by (auto simp: types_spec_def)

lemma gossip_dispatch:
  assumes "types_spec fw" and "gossips_with fw gw a p"
  shows "m_packetType m = mtHeartbeat fw \<Longrightarrow>
      service_onMessage fw jl wq True success (Some a) (Some m) gw = onHeartbeat fw wq a p (m_payload m) gw"
    and "m_packetType m = mtRequestNodeIDs fw \<Longrightarrow>
      service_onMessage fw jl wq True success (Some a) (Some m) gw = onRequestPacket fw jl wq a gw"
    and "m_packetType m = mtResponseNodeIDs fw \<Longrightarrow>
      service_onMessage fw jl wq True success (Some a) (Some m) gw = onResponsePacket fw jl p (m_payload m) gw"
proof -
  from assms(2) obtain ps where ps: "map_of (sv_store (gw_service gw)) a = Some ps" "pi_p2pID (ps_info ps) = p"
    by (auto simp: gossips_with_def split: option.splits)
  note branch = type_branch [OF assms(1) ps(1), of m, unfolded ps(2)]
  show "m_packetType m = mtHeartbeat fw \<Longrightarrow>
      service_onMessage fw jl wq True success (Some a) (Some m) gw = onHeartbeat fw wq a p (m_payload m) gw"
    and "m_packetType m = mtRequestNodeIDs fw \<Longrightarrow>
      service_onMessage fw jl wq True success (Some a) (Some m) gw = onRequestPacket fw jl wq a gw"
    and "m_packetType m = mtResponseNodeIDs fw \<Longrightarrow>
      service_onMessage fw jl wq True success (Some a) (Some m) gw = onResponsePacket fw jl p (m_payload m) gw"
    using branch(1-3) assms(2) by (simp_all add: gossips_with_def)
qed

definition receives :: "('key, 'more) bcos_fw_scheme \<Rightarrow> 'j jsonlib \<Rightarrow> 'q write_queue \<Rightarrow> nat \<Rightarrow> p2p_message \<Rightarrow> 'q gateway \<Rightarrow>
    ('key, 'q) gateway_result option" where
  "receives fw jl wq a m gw =
     map_option (\<lambda>m'. service_onMessage fw jl wq True success (Some a) (Some m') gw) (over_wire fw m)"

lemma receives_heartbeat:
  assumes "crop_spec fw" and "types_spec fw" and "gossips_with fw gw a p"
  shows "receives fw jl wq a (heartbeat_message fw k) gw
    = Some (if onReceiveStatusSeq p k (gw_nm gw)
            then on_service (sendMessageBySession fw wq (mtRequestNodeIDs fw) [] a) gw else Inr ([], gw))"
proof -
  obtain m where m: "over_wire fw (heartbeat_message fw k) = Some m" "m_packetType m = mtHeartbeat fw" "m_payload m = be32 k"
    using plain_packet_arrives [OF assms(1), of "mtHeartbeat fw" "be32 k" 0] gossip_types(1) [OF assms(2)]
    by (auto simp: plain_packet_eq)
  have "rd32 (be32 k) 0 = Inr k" using rd32_be32 [of "[]" 0 k "[]"] by simp
  with m gossip_dispatch(1) [OF assms(2,3) m(2), of jl wq] show ?thesis by (simp add: receives_def onHeartbeat_def)
qed

lemma receives_request:
  assumes "crop_spec fw" and "types_spec fw" and "gossips_with fw gw a p"
    and "json_spec jl view" and "plain_map (localGroup2NodeIDs (gw_nm gw))"
  shows "receives fw jl wq a (plain_packet seq (mtRequestNodeIDs fw) []) gw
    = Some (on_service (sendMessageBySession fw wq (mtResponseNodeIDs fw)
        (bytes_of_string (onRequestNodeIDs jl (gw_nm gw))) a) gw)"
proof -
  obtain m where m: "over_wire fw (plain_packet seq (mtRequestNodeIDs fw) []) = Some m" "m_packetType m = mtRequestNodeIDs fw"
    using plain_packet_arrives [OF assms(1), of "mtRequestNodeIDs fw" "[]" seq] gossip_types(2) [OF assms(2)]
    by auto
  have "onRequestNodeIDs jl (gw_nm gw) \<noteq> []" using onRequestNodeIDs_text [OF assms(4,5)] by blast
  with m gossip_dispatch(2) [OF assms(2,3) m(2), of jl wq] show ?thesis by (simp add: receives_def onRequestPacket_def)
qed

lemma receives_response:
  assumes "crop_spec fw" and "types_spec fw" and "gossips_with fw B a p" and "json_spec jl view"
    and "plain_map (localGroup2NodeIDs A)" and "hex_fronts fw (gw_nm B)" and "length (onRequestNodeIDs jl A) < 2 ^ 32 - 14"
  shows "\<exists>calls. receives fw jl wq a (plain_packet seq (mtResponseNodeIDs fw) (bytes_of_string (onRequestNodeIDs jl A))) B
    = Some (Inr (map Notify calls, B\<lparr>gw_nm := apply_nodeIDs p (m_statusSeq A) (localGroup2NodeIDs A) (gw_nm B)\<rparr>))"
proof -
  let ?t = "onRequestNodeIDs jl A"
  obtain m where m: "over_wire fw (plain_packet seq (mtResponseNodeIDs fw) (bytes_of_string ?t)) = Some m"
      "m_packetType m = mtResponseNodeIDs fw" "m_payload m = bytes_of_string ?t"
    using plain_packet_arrives [OF assms(1), of "mtResponseNodeIDs fw" "bytes_of_string ?t" seq] gossip_types(3) [OF assms(2)]
      assms(7) by auto
  obtain calls where "updateNodeIDs fw p (m_statusSeq A) (localGroup2NodeIDs A) (gw_nm B)
      = Inr (calls, apply_nodeIDs p (m_statusSeq A) (localGroup2NodeIDs A) (gw_nm B))"
    using updateNodeIDs_eq [OF assms(6)] by blast
  with m gossip_dispatch(3) [OF assms(2,3) m(2), of jl wq] request_answer [OF assms(4,5)]
  show ?thesis by (intro exI [of _ calls]) (simp add: receives_def onResponsePacket_def onReceiveNodeIDs_def)
qed

lemma gossips_with_nm [simp]: "gossips_with fw (gw\<lparr>gw_nm := nm\<rparr>) a p = gossips_with fw gw a p"
  by (simp add: gossips_with_def)

text \<open>
  Claim C25: the gossip of the node ids over packets, every message encoded, decoded and
  dispatched by \<open>onMessage\<close>. A heartbeat of gateway A with the status sequence k makes B send a
  request on the session exactly when k is not the sequence it holds for A; A answers a request
  with its registered nodes; when the answer arrives, whatever became of B meanwhile, B routes
  exactly A's nodes through A, the routes of the others are as before, and a further heartbeat of
  A with the same sequence is left unanswered.
\<close>

theorem gossip_over_packets:
  assumes "crop_spec fw" and "types_spec fw" and "json_spec jl view"
    and "gossips_with fw B a p" and "gossips_with fw A b q" and "gossips_with fw B' a p"
    and "nm_inv (gw_nm A)" and "plain_map (localGroup2NodeIDs (gw_nm A))" and "length (onRequestNodeIDs jl (gw_nm A)) < 2 ^ 32 - 14"
    and "nm_inv (gw_nm B')" and "hex_fronts fw (gw_nm B')"
  shows "let json = bytes_of_string (onRequestNodeIDs jl (gw_nm A)); k = m_statusSeq (gw_nm A) in
    receives fw jl wq a (heartbeat_message fw k) B
      = Some (if onReceiveStatusSeq p k (gw_nm B)
              then on_service (sendMessageBySession fw wq (mtRequestNodeIDs fw) [] a) B else Inr ([], B)) \<and>
    receives fw jl wq b (plain_packet s (mtRequestNodeIDs fw) []) A
      = Some (on_service (sendMessageBySession fw wq (mtResponseNodeIDs fw) json b) A) \<and>
    (case receives fw jl wq a (plain_packet t (mtResponseNodeIDs fw) json) B' of
       Some (Inr (es, B'')) \<Rightarrow>
         peer_view (gw_nm B'') p = local_view (gw_nm A) \<and>
         (\<forall>r. r = p \<or> peer_view (gw_nm B'') r = peer_view (gw_nm B') r) \<and>
         receives fw jl wq a (heartbeat_message fw k) B'' = Some (Inr ([], B''))
     | _ \<Rightarrow> False)"
proof -
  let ?nm = "apply_nodeIDs p (m_statusSeq (gw_nm A)) (localGroup2NodeIDs (gw_nm A)) (gw_nm B')"
  obtain calls where resp: "receives fw jl wq a (plain_packet t (mtResponseNodeIDs fw)
      (bytes_of_string (onRequestNodeIDs jl (gw_nm A)))) B' = Some (Inr (map Notify calls, B'\<lparr>gw_nm := ?nm\<rparr>))"
    using receives_response [OF assms(1,2,6,3,8,11,9)] by blast
  have view: "peer_view ?nm r = (if r = p then local_view (gw_nm A) else peer_view (gw_nm B') r)" for r
    using node_cache.view_learn [OF assms(10) localGroup2NodeIDs_ok] map_view_local [OF nm_invD(1) [OF assms(7)]] by simp
  have "\<not> onReceiveStatusSeq p (m_statusSeq (gw_nm A)) ?nm"
    using node_cache.stale_learn [OF assms(10) localGroup2NodeIDs_ok] by simp
  then have "receives fw jl wq a (heartbeat_message fw (m_statusSeq (gw_nm A))) (B'\<lparr>gw_nm := ?nm\<rparr>)
      = Some (Inr ([], B'\<lparr>gw_nm := ?nm\<rparr>))"
    using receives_heartbeat [OF assms(1,2), of "B'\<lparr>gw_nm := ?nm\<rparr>" a p jl wq] assms(6) by simp
  with view resp receives_heartbeat [OF assms(1,2,4), of jl wq] receives_request [OF assms(1,2,5,3,8), of wq s]
  show ?thesis by (simp add: Let_def)
qed


lemma example_answer_short: "length (onRequestNodeIDs jv_lib example_nm) < 2 ^ 32 - 14"
  by (simp add: onRequestNodeIDs_def example_nm_eq localGroup2NodeIDs_def jv_lib_def um_at_def insort_insert_key_def)

theorem gossip_over_packets_witness:
  "let json = bytes_of_string (onRequestNodeIDs jv_lib example_nm) in
    receives example_fw jv_lib list_queue 0 (heartbeat_message example_fw 2) example_gateway
      = Some (on_service (sendMessageBySession example_fw list_queue 3 [] 0) example_gateway) \<and>
    (case receives example_fw jv_lib list_queue 0 (plain_packet 9 4 json) example_gateway of
       Some (Inr (es, B)) \<Rightarrow> peer_view (gw_nm B) ''p2'' = local_view example_nm
     | _ \<Rightarrow> False)"
proof -
  have ready: "gossips_with example_fw example_gateway 0 ''p2''"
    by (simp add: gossips_with_def new_p2p_session_def example_info_def)
  have "hex_fronts example_fw example_nm" by (simp add: hex_fronts_def example_nm_eq)
  with gossip_over_packets [OF example_fw_crop example_fw_types jv_lib_spec ready ready ready, of list_queue 1 9]
    example_nm_inv example_nm_plain example_answer_short
  show ?thesis
    by (auto simp: Let_def example_nm_eq onReceiveStatusSeq_def split: option.splits sum.splits)
qed

section \<open>The loss of a session\<close>

lemma session_drop_succeeds: "m_server s \<noteq> None \<Longrightarrow> \<exists>es s'. session_disconnect r s = Inr (es, s')"
  by (auto simp: session_disconnect_def session_drop_def Let_def)

lemma p2p_stop_succeeds:
  assumes "map_of (sv_store sv) a = Some ps" and "m_server (ps_session ps) \<noteq> None"
  shows "\<exists>es sv'. p2p_stop r a sv = Inr (es, sv')"
  using session_drop_succeeds [OF assms(2), of r] assms(1)
  by (auto simp: p2p_stop_def set_ps_run_def on_session_def um_simps)

lemma lose_session_succeeds:
  assumes "map_of (sv_store sv) a = Some ps" and "m_server (ps_session ps) \<noteq> None"
  shows "\<exists>es sv'. lose_session e a sv = Inr (es, sv') \<and>
    (\<forall>h \<in> set (sv_disconnectHandlers sv). CallDisconnectHandler h e a \<in> set es) \<and>
    ps_view sv' a = Some (ps_info ps, False) \<and>
    (\<forall>n. isConnected n sv' \<longleftrightarrow> isConnected n sv \<and> getP2PSessionByNodeId n sv \<noteq> Some a)"
proof -
  obtain es1 sv1 where stop: "p2p_stop UserReason a sv = Inr (es1, sv1)"
    using p2p_stop_succeeds [OF assms] by blast
  note keeps = p2p_stop_view [OF stop]
  have view: "ps_view sv1 b = (if b = a then Some (ps_info ps, False) else ps_view sv b)" for b
    using keeps assms(1) by (simp add: keeps_def set_ps_run_view) (simp add: ps_view_def)
  have "\<exists>es2 sv'. onDisconnect e a sv1 = Inr (es2, sv')"
    using view [of a] by (auto simp: onDisconnect_def Let_def ps_view_def)
  then obtain es2 sv' where dis: "onDisconnect e a sv1 = Inr (es2, sv')" by blast
  note table = onDisconnect_table [OF dis]
  have same: "sv_sessions sv1 = sv_sessions sv" "sv_disconnectHandlers sv1 = sv_disconnectHandlers sv"
    using keeps by (simp_all add: keeps_def)
  have "isConnected n sv' \<longleftrightarrow> isConnected n sv \<and> map_of (sv_sessions sv) n \<noteq> Some a" for n
    using table by (auto simp: isConnected_view view same um_simps split: if_splits)
  with table stop dis view show ?thesis
    by (auto simp: lose_session_def same getP2PSessionByNodeId_def)
qed

text \<open>
  Claim C22: when a session with a peer reports an error, \<open>onMessage\<close> stops it and calls every
  disconnect handler. The one of the gateway then drops every route through that peer, leaves
  the others alone, and any later heartbeat of the peer is answered by a request. The peer is
  connected afterwards exactly when it was and the lost session was not the registered one: then
  the routes of a connected peer are gone until its next heartbeat.
\<close>

theorem peer_loss:
  assumes "nm_inv (gw_nm gw)" and "hex_fronts fw (gw_nm gw)" and "ne_code e \<noteq> 0"
    and "map_of (sv_store (gw_service gw)) a = Some ps" and "m_server (ps_session ps) \<noteq> None"
  shows "case service_onMessage fw jl wq alive e (Some a) m gw of
      Inl _ \<Rightarrow> False
    | Inr (es, gw1) \<Rightarrow>
        (\<forall>h \<in> set (sv_disconnectHandlers (gw_service gw)). Net (CallDisconnectHandler h e a) \<in> set es) \<and>
        (case gateway_disconnect_handler fw a gw1 of
           Inl _ \<Rightarrow> False
         | Inr (calls, gw2) \<Rightarrow>
             (let p = pi_p2pID (ps_info ps) in
                peer_view (gw_nm gw2) p = {} \<and> onReceiveStatusSeq p k (gw_nm gw2) \<and>
                (\<forall>q. q = p \<or> peer_view (gw_nm gw2) q = peer_view (gw_nm gw) q) \<and>
                (isConnected p (gw_service gw2) \<longleftrightarrow>
                   isConnected p (gw_service gw) \<and> getP2PSessionByNodeId p (gw_service gw) \<noteq> Some a)))"
proof -
  let ?p = "pi_p2pID (ps_info ps)"
  obtain es sv' where lost: "lose_session e a (gw_service gw) = Inr (es, sv')"
    and told: "\<forall>h \<in> set (sv_disconnectHandlers (gw_service gw)). CallDisconnectHandler h e a \<in> set es"
    and view: "ps_view sv' a = Some (ps_info ps, False)"
    and conn: "\<And>n. isConnected n sv' \<longleftrightarrow> isConnected n (gw_service gw) \<and> getP2PSessionByNodeId n (gw_service gw) \<noteq> Some a"
    using lose_session_succeeds [OF assms(4,5), of e] by blast
  let ?gw1 = "gw\<lparr>gw_service := sv'\<rparr>"
  have step: "service_onMessage fw jl wq alive e (Some a) m gw = Inr (map Net es, ?gw1)"
    using assms(3,4) lost by (simp add: service_onMessage_def on_service_def)
  obtain ps' where ps': "map_of (sv_store sv') a = Some ps'" "ps_info ps' = ps_info ps"
    using view by (auto simp: ps_view_def)
  obtain calls where "onRemoveNodeIDs fw ?p (gw_nm gw) = Inr (calls, forget_peer ?p (gw_nm gw))"
    using notify_eq [of fw "forget_peer ?p (gw_nm gw)"] assms(2)
    by (auto simp: onRemoveNodeIDs_def Let_def hex_fronts_def)
  with ps' have "gateway_disconnect_handler fw a ?gw1
      = Inr (map Notify calls, ?gw1\<lparr>gw_nm := forget_peer ?p (gw_nm gw)\<rparr>)"
    by (simp add: gateway_disconnect_handler_def)
  with step told conn [of ?p] node_cache.view_forget [OF assms(1), of ?p] node_cache.stale_forget [OF assms(1), of ?p]
  show ?thesis by (simp add: Let_def)
qed

theorem peer_loss_witness:
  "case service_onMessage example_fw jv_lib list_queue True (network_error Disconnect []) (Some 0) None
      (example_gateway\<lparr>gw_nm := example_routed\<rparr>) of
      Inl _ \<Rightarrow> False
    | Inr (es, gw1) \<Rightarrow> (case gateway_disconnect_handler example_fw 0 gw1 of
           Inl _ \<Rightarrow> False
         | Inr (calls, gw2) \<Rightarrow> peer_view (gw_nm gw2) ''p2'' = {})"
proof -
  let ?gw = "example_gateway\<lparr>gw_nm := example_routed\<rparr>"
  have "hex_fronts example_fw (gw_nm ?gw)" by (simp add: hex_fronts_def example_routed_def new_node_manager_def)
  with peer_loss [where gw = ?gw and fw = example_fw and e = "network_error Disconnect []" and a = 0 and k = 1 and m = None
      and ps = "new_p2p_session example_session example_ep (example_info ''p2'')" and jl = jv_lib and wq = list_queue and alive = True]
    example_routed_inv
  show ?thesis
    by (auto simp: new_p2p_session_def example_session_def example_info_def create_session_def setHost_def Let_def
        split: sum.splits)
qed

section \<open>Sending to a node\<close>

text \<open>
  Claim C24: where a message for a node goes. When some peer announced the node it is sent to one
  of those peers; if none of them is connected nothing is sent and the caller is never called.
  Otherwise it is given to the local front service of the node, and when there is none the caller
  is told at once that the node is not known.
\<close>

theorem gateway_send_routes:
  assumes "nm_inv (gw_nm gw)"
  shows "let via = {p. (g, keyHex fw dst) \<in> peer_view (gw_nm gw) p};
        sent = gw_sendMessageByNodeID fw wq rnd g src dst payload (Some c) gw
    in if via = {}
       then sent = Inr (case queryFrontServiceInterfaceByGroupIDAndNodeID fw g dst (gw_nm gw) of
               Some front \<Rightarrow> [CallFront front g src payload (RespUser (Some c))]
             | None \<Rightarrow> [CallErrorResp c (Some (not_found_error fw g dst))], gw)
       else (\<exists>p rest. set (p # rest) = via \<and> distinct (p # rest) \<and>
              sent = (case gw_newP2PMessage fw g src dst payload gw of (m, gw1) \<Rightarrow>
                on_service (service_send fw wq p m (Some (GatewayRetry \<lparr>gr_p2pIDs = rest, gr_message = m, gr_respFunc = Some c\<rparr>)) 10000) gw1)) \<and>
            ((\<forall>p \<in> via. \<not> isConnected p (gw_service gw)) \<longrightarrow>
              sent = Inr ([], snd (gw_newP2PMessage fw g src dst payload gw)))"
proof -
  let ?via = "{p. (g, keyHex fw dst) \<in> peer_view (gw_nm gw) p}"
  let ?sent = "gw_sendMessageByNodeID fw wq rnd g src dst payload (Some c) gw"
  obtain b ids where q: "queryP2pIDs g (keyHex fw dst) [] (gw_nm gw) = (b, ids)" by fastforce
  have b: "b \<longleftrightarrow> ?via \<noteq> {}" using queryP2pIDs_peers(2) [OF assms, of g "keyHex fw dst" "[]"] q by simp
  have ids: "set ids = ?via" "distinct ids" using route_peers [OF assms, of g "keyHex fw dst"] q by simp_all
  obtain m gw1 where m: "gw_newP2PMessage fw g src dst payload gw = (m, gw1)" by fastforce
  show ?thesis
  proof (cases b)
    case False
    have "?sent = Inr (case queryFrontServiceInterfaceByGroupIDAndNodeID fw g dst (gw_nm gw) of
               Some front \<Rightarrow> [CallFront front g src payload (RespUser (Some c))]
             | None \<Rightarrow> [CallErrorResp c (Some (not_found_error fw g dst))], gw)"
      using False q by (simp add: gw_sendMessageByNodeID_def trySendLocalMessage_def queryLocalNodes_def um2_find_def
          queryFrontServiceInterfaceByGroupIDAndNodeID_def call_resp_def split: option.split)
    with False b show ?thesis by (simp add: Let_def)
  next
    case True
    then have "ids \<noteq> []" using b ids(1) by auto
    then obtain p rest where sh: "std_shuffle rnd ids = p # rest"
      by (metis length_std_shuffle length_0_conv neq_Nil_conv)
    have "distinct (std_shuffle rnd ids)"
      using ids(2) by (subst mset_eq_imp_distinct_iff [OF mset_std_shuffle])
    moreover have "set (std_shuffle rnd ids) = ?via" using ids(1) by (simp only: set_std_shuffle)
    ultimately have pr: "set (p # rest) = ?via" "distinct (p # rest)" unfolding sh by blast+
    have sent: "?sent = on_service (service_send fw wq p m (Some (GatewayRetry
        \<lparr>gr_p2pIDs = rest, gr_message = m, gr_respFunc = Some c\<rparr>)) 10000) gw1"
      using True q m sh \<open>ids \<noteq> []\<close>
      by (simp add: gw_sendMessageByNodeID_def trySendMessage_def randomChooseP2pID_def Let_def)
    have "isConnected p (gw_service gw1) = isConnected p (gw_service gw)"
      using m by (auto simp: gw_newP2PMessage_def factory_newSeq_def isConnected_def ps_actived_def
          split: prod.splits option.splits)
    then have "\<not> isConnected p (gw_service gw) \<Longrightarrow> ?sent = Inr ([], gw1)"
      by (simp add: sent on_service_def service_send_def asyncSendMessageByNodeID_def isConnected_def split: option.splits)
    then have quiet: "(\<forall>p \<in> ?via. \<not> isConnected p (gw_service gw)) \<longrightarrow> ?sent = Inr ([], gw1)" using pr(1) by auto
    have "\<exists>p rest. set (p # rest) = ?via \<and> distinct (p # rest) \<and> ?sent = on_service (service_send fw wq p m
        (Some (GatewayRetry \<lparr>gr_p2pIDs = rest, gr_message = m, gr_respFunc = Some c\<rparr>)) 10000) gw1"
      using pr sent by blast
    with quiet m True b show ?thesis by (simp only: Let_def prod.case snd_conv if_False simp_thms)
  qed
qed

theorem gateway_send_routes_witness:
  "gw_sendMessageByNodeID example_fw list_queue (\<lambda>_. 0) ''g1'' [67, 68] [65, 66] [1] (Some 7) example_gateway
     = Inr ([CallFront 5 ''g1'' [67, 68] [1] (RespUser (Some 7))], example_gateway)"
proof -
  have "queryFrontServiceInterfaceByGroupIDAndNodeID example_fw ''g1'' [65, 66] example_nm = Some 5"
    by code_simp
  moreover have "{p. (''g1'', keyHex example_fw [65, 66]) \<in> peer_view example_nm p} = {}"
    by (simp add: peer_view_def route_has_def example_nm_eq um2_find_def)
  ultimately show ?thesis
    using gateway_send_routes [of example_gateway "''g1''" example_fw "[65, 66]" list_queue "\<lambda>_. 0" "[67, 68]" "[1]" 7]
      example_nm_inv by (simp add: Let_def del: example_fw_sel)
qed

section \<open>Broadcasts\<close>

lemma group_peers:
  assumes "nm_inv nm"
  shows "set (snd (queryP2pIDsByGroupID g [] nm)) = {p. \<exists>n. (g, n) \<in> peer_view nm p}"
    and "distinct (snd (queryP2pIDsByGroupID g [] nm))"
    and "fst (queryP2pIDsByGroupID g [] nm) \<or> snd (queryP2pIDsByGroupID g [] nm) = []"
proof -
  show "set (snd (queryP2pIDsByGroupID g [] nm)) = {p. \<exists>n. (g, n) \<in> peer_view nm p}"
    using queryP2pIDsByGroupID_peers [OF assms, of g "[]"] by simp
  have "os_ok acc \<Longrightarrow> os_ok (fold (\<lambda>(n, ps) acc. os_insert_all ps acc) nodes acc)" for nodes acc
    by (induction nodes arbitrary: acc) (auto simp: os_ok_insert_all)
  from this [of "[]"] have "os_ok (snd (queryP2pIDsByGroupID g [] nm))"
    by (auto simp: queryP2pIDsByGroupID_def split: option.split)
  then show "distinct (snd (queryP2pIDsByGroupID g [] nm))" by (simp add: os_ok_def)
  show "fst (queryP2pIDsByGroupID g [] nm) \<or> snd (queryP2pIDsByGroupID g [] nm) = []"
    by (simp add: queryP2pIDsByGroupID_def split: option.split)
qed

lemma group_fronts:
  "distinct (queryFrontServiceInterfaceByGroupID g nm)"
  "set (queryFrontServiceInterfaceByGroupID g nm) = (m_frontService \<circ> snd) ` set (um_at (m_frontServiceInfos nm) g)"
proof -
  have "distinct (os_insert_all xs [])" for xs :: "nat list" using os_ok_insert_all [of "[]" xs] by (simp add: os_ok_def)
  then show "distinct (queryFrontServiceInterfaceByGroupID g nm)"
    by (simp add: queryFrontServiceInterfaceByGroupID_def split: option.split)
  show "set (queryFrontServiceInterfaceByGroupID g nm) = (m_frontService \<circ> snd) ` set (um_at (m_frontServiceInfos nm) g)"
    by (cases "map_of (m_frontServiceInfos nm) g")
      (simp_all add: queryFrontServiceInterfaceByGroupID_def um_at_def case_prod_unfold)
qed



section \<open>The messages of a gateway\<close>



end
