(* ===== verification/Node_Network.thy ===== *)
theory Node_Network
  imports Gossip_Net Gateway_World
begin

text \<open>
  The node managers of any number of gateways as a network of \<open>Gossip_Net\<close>: the packets are those
  \<open>Service::onMessage\<close> handles for the node manager (\<open>libp2p/Service.cpp\<close>), the local operations
  are those of \<open>GatewayNodeManager\<close> and \<open>DynamicGatewayNodeManager\<close>.
\<close>

section \<open>What a gateway makes of a gossip packet\<close>

text \<open>
  The part of \<open>Service::onMessage\<close> the node manager takes part in: the packets sent back, as type
  and payload, and the node manager after; \<open>None\<close> is undefined behaviour.
\<close>

definition gossip_receive :: "('key, 'more) bcos_fw_scheme \<Rightarrow> 'j jsonlib \<Rightarrow> p2pid \<Rightarrow> u16 \<times> bytes \<Rightarrow> node_manager \<Rightarrow>
    ((u16 \<times> bytes) list \<times> node_manager) option" where
  "gossip_receive fw jl p packet nm =
     (case packet of (type, payload) \<Rightarrow>
        if type = mtHeartbeat fw
        then (case rd32 payload 0 of Inl u \<Rightarrow> None
              | Inr k \<Rightarrow> Some (if onReceiveStatusSeq p k nm then [(mtRequestNodeIDs fw, [])] else [], nm))
        else if type = mtRequestNodeIDs fw
        then (let json = onRequestNodeIDs jl nm
              in Some (if json \<noteq> [] then [(mtResponseNodeIDs fw, bytes_of_string json)] else [], nm))
        else if type = mtResponseNodeIDs fw
        then (case onReceiveNodeIDs fw jl p (string_of_bytes payload) nm of Inl u \<Rightarrow> None
              | Inr (calls, nm') \<Rightarrow> Some ([], nm'))
        else Some ([], nm))"

definition node_announce :: "('key, 'more) bcos_fw_scheme \<Rightarrow> node_manager \<Rightarrow> u16 \<times> bytes" where
  "node_announce fw nm = (mtHeartbeat fw, be32 (m_statusSeq nm))"

definition node_answer :: "('key, 'more) bcos_fw_scheme \<Rightarrow> 'j jsonlib \<Rightarrow> node_manager \<Rightarrow> u16 \<times> bytes" where
  "node_answer fw jl nm = (mtResponseNodeIDs fw, bytes_of_string (onRequestNodeIDs jl nm))"

fun send_packets :: "('key, 'more) bcos_fw_scheme \<Rightarrow> 'q write_queue \<Rightarrow> nat \<Rightarrow> (u16 \<times> bytes) list \<Rightarrow> 'q gateway \<Rightarrow>
    ('key, 'q) gateway_result" where
  "send_packets fw wq a [] gw = Inr ([], gw)"
| "send_packets fw wq a ((type, payload) # packets) gw =
     sv_bind (on_service (sendMessageBySession fw wq type payload a) gw) (send_packets fw wq a packets)"

text \<open>
  \<open>gossip_receive\<close> is what \<open>onMessage\<close> does: it sends those packets on the session, notifies the
  front services and leaves that node manager.
\<close>

lemma gw_nm_same: "gw\<lparr>gw_nm := gw_nm gw\<rparr> = gw"
  by (cases gw) simp

lemma sv_bind_done: "sv_bind x (\<lambda>gw. Inr ([], gw)) = x"
  by (cases x) auto

lemma send_one: "send_packets fw wq a [(type, payload)] = on_service (sendMessageBySession fw wq type payload a)"
proof -
  have "send_packets fw wq a [] = (\<lambda>gw. Inr ([], gw))" by (rule ext) simp
  then show ?thesis by (intro ext) (simp add: sv_bind_done)
qed

lemma sv_bind_start: "sv_bind (Inr ([], gw)) f = f gw"
  by (cases "f gw") auto

lemma gossip_receive_onMessage:
  assumes "types_spec fw" and "gossips_with fw gw a p"
    and "m_packetType m \<in> {mtHeartbeat fw, mtRequestNodeIDs fw, mtResponseNodeIDs fw}"
    and "gossip_receive fw jl p (m_packetType m, m_payload m) (gw_nm gw) = Some (outs, nm)"
  shows "\<exists>calls. service_onMessage fw jl wq True success (Some a) (Some m) gw
    = sv_bind (Inr (map Notify calls, gw\<lparr>gw_nm := nm\<rparr>)) (send_packets fw wq a outs)"
proof -
  have types: "mtHeartbeat fw \<noteq> mtRequestNodeIDs fw" "mtHeartbeat fw \<noteq> mtResponseNodeIDs fw"
      "mtRequestNodeIDs fw \<noteq> mtResponseNodeIDs fw" using assms(1) by (auto simp: types_spec_def)
  note dispatch = gossip_dispatch [OF assms(1,2), where jl = jl and wq = wq]
  consider "m_packetType m = mtHeartbeat fw" | "m_packetType m = mtRequestNodeIDs fw" | "m_packetType m = mtResponseNodeIDs fw"
    using assms(3) by blast
  then show ?thesis
  proof cases
    case 1
    with assms(4) dispatch(1) [OF 1] show ?thesis
      by (intro exI [of _ "[]"]) (auto simp: gossip_receive_def onHeartbeat_def gw_nm_same send_one sv_bind_start
          simp del: sv_bind_simps send_packets.simps(2) split: sum.splits if_splits)
  next
    case 2
    with assms(4) types dispatch(2) [OF 2] show ?thesis
      by (intro exI [of _ "[]"]) (auto simp: gossip_receive_def onRequestPacket_def gw_nm_same send_one sv_bind_start Let_def
          simp del: sv_bind_simps send_packets.simps(2) split: if_splits)
  next
    case 3
    with assms(4) types dispatch(3) [OF 3] show ?thesis
      by (auto simp: gossip_receive_def onResponsePacket_def split: sum.splits)
  qed
qed

section \<open>The local part of a node manager\<close>

definition node_own :: "node_manager \<Rightarrow> u32 \<times> (groupid \<times> (nodeid \<times> front_service_info) list) list" where
  "node_own nm = (m_statusSeq nm, m_frontServiceInfos nm)"

definition good_id :: "('key, 'more) bcos_fw_scheme \<Rightarrow> groupid \<Rightarrow> nodeid \<Rightarrow> bool" where
  "good_id fw g n \<longleftrightarrow> plain_string g \<and> plain_string n \<and> fromHexString fw n \<noteq> None"

text \<open>
  A registered node has the hex text of its key for an id, and ids and group names are texts that
  need no escapes in JSON.
\<close>

fun node_op_ok :: "('key, 'more) bcos_fw_scheme \<Rightarrow> 'key local_op \<Rightarrow> bool" where
  "node_op_ok fw (Register g n front) = good_id fw g (keyHex fw n)"
| "node_op_ok fw (GroupStarted mk g nodes) = list_all (\<lambda>ni. good_id fw g (ni_nodeID ni)) nodes"
| "node_op_ok fw _ = True"

definition node_net_inv :: "('key, 'more) bcos_fw_scheme \<Rightarrow> 'j jsonlib \<Rightarrow> ('j \<Rightarrow> jdoc) \<Rightarrow> node_manager \<Rightarrow> bool" where
  "node_net_inv fw jl view nm \<longleftrightarrow> types_spec fw \<and> json_spec jl view \<and> nm_inv nm \<and>
     (\<forall>g n. registered nm g n \<longrightarrow> good_id fw g n)"

lemma registered_own: "m_frontServiceInfos nm' = m_frontServiceInfos nm \<Longrightarrow> registered nm' g n = registered nm g n"
  by (simp add: registered_def)

lemma registered_add_group:
  "registered (snd (add_group_nodes mk g nodes u nm)) h n \<Longrightarrow>
   registered nm h n \<or> (h = g \<and> (\<exists>ni \<in> set nodes. n = ni_nodeID ni))"
proof (induction mk g nodes u nm rule: add_group_nodes.induct)
  case (2 mk g ni rest u nm)
  then show ?case by (auto simp: registered_def increaseSeq_def um2_find_put split: if_splits)
qed simp

lemma registered_step:
  assumes "nm_inv nm" and "registered (local_step fw op nm) g n"
  shows "registered nm g n \<or> (node_op_ok fw op \<longrightarrow> good_id fw g n)"
proof (cases op)
  case (Refresh tars now st)
  then show ?thesis using assms(2) find_drop_unreachable [OF nm_invD(1) [OF assms(1)], of tars g n]
    by (auto simp: registered_def refresh_fronts_def Let_def increaseSeq_def split: if_splits option.splits)
next
  case (GroupStarted mk h nodes)
  then show ?thesis using assms(2) registered_add_group [of mk h nodes False nm g n] by (auto simp: list_all_iff)
qed (use assms(2) in \<open>auto simp: registered_def registerFrontService_eq unregisterFrontService_eq um2_find_put
  um2_find_erase split: if_splits\<close>)

lemma net_inv_step: "node_net_inv fw jl view nm \<Longrightarrow> node_op_ok fw op \<Longrightarrow> node_net_inv fw jl view (local_step fw op nm)"
  using registered_step [of nm fw op] nm_inv_local_step [of nm fw op] by (auto simp: node_net_inv_def)

lemma node_inv_new: "types_spec fw \<Longrightarrow> json_spec jl view \<Longrightarrow> node_net_inv fw jl view (new_node_manager p)"
  using nm_inv_new [of p] by (simp add: node_net_inv_def registered_def) (simp add: new_node_manager_def)

text \<open>What the invariant gives the JSON answer and the notifications.\<close>

lemma net_inv_hex: "node_net_inv fw jl view nm \<Longrightarrow> hex_fronts fw nm"
  using um2_find_mem [OF nm_invD(1), of nm]
  by (fastforce simp: node_net_inv_def hex_fronts_def list_all_iff registered_def good_id_def)

lemma fold_group_nonempty:
  "list_all (\<lambda>(g, ns). ns \<noteq> []) m \<Longrightarrow>
   list_all (\<lambda>(g, ns). ns \<noteq> []) (fold (\<lambda>(n, fi) m. um_put g (os_insert n (um_at m g)) m) infos m)"
proof (induction infos arbitrary: m)
  case (Cons nf infos)
  obtain n fi where nf: "nf = (n, fi)" by fastforce
  have "os_insert n (um_at m g) \<noteq> []" using set_os_insert [of n "um_at m g"] by fastforce
  moreover have "(h, ns) \<in> set (um_put g (os_insert n (um_at m g)) m) \<Longrightarrow>
      (h, ns) = (g, os_insert n (um_at m g)) \<or> (h, ns) \<in> set m" for h ns
    using set_update_subset [of g "os_insert n (um_at m g)" m] by blast
  moreover have "(h, ns) \<in> set m \<Longrightarrow> ns \<noteq> []" for h ns using Cons.prems by (auto simp: list_all_iff)
  ultimately have "(h, ns) \<in> set (um_put g (os_insert n (um_at m g)) m) \<Longrightarrow> ns \<noteq> []" for h ns
    by (metis prod.inject)
  then have "list_all (\<lambda>(g, ns). ns \<noteq> []) (um_put g (os_insert n (um_at m g)) m)"
    unfolding list_all_iff by fast
  with Cons.IH show ?case by (simp add: nf)
qed simp

lemma local_nonempty: "list_all (\<lambda>(g, ns). ns \<noteq> []) (localGroup2NodeIDs nm)"
proof -
  have "list_all (\<lambda>(g, ns). ns \<noteq> []) m \<Longrightarrow>
      list_all (\<lambda>(g, ns). ns \<noteq> []) (fold (\<lambda>(g, infos) m. fold (\<lambda>(n, fi) m. um_put g (os_insert n (um_at m g)) m) infos m) fs m)"
    for fs :: "(groupid \<times> (nodeid \<times> front_service_info) list) list" and m
    by (induction fs arbitrary: m) (auto simp: fold_group_nonempty)
  then show ?thesis by (simp add: localGroup2NodeIDs_def)
qed

lemma net_inv_plain:
  assumes "node_net_inv fw jl view nm"
  shows "plain_map (localGroup2NodeIDs nm)"
proof -
  have "plain_string g \<and> list_all plain_string ns" if "(g, ns) \<in> set (localGroup2NodeIDs nm)" for g ns
  proof -
    have "map_of (localGroup2NodeIDs nm) g = Some ns"
      using that localGroup2NodeIDs_ok [of nm] by (simp add: nodeids_ok_def um_mem_iff)
    then have "good_id fw g n" if "n \<in> set ns" for n
      using that assms listed_local [OF nm_invD(1), of nm g n] by (auto simp: node_net_inv_def listed_def um_at_def)
    moreover have "ns \<noteq> []" using local_nonempty [of nm] that by (auto simp: list_all_iff)
    ultimately show ?thesis by (cases ns) (auto simp: good_id_def list_all_iff)
  qed
  then show ?thesis by (auto simp: plain_map_def list_all_iff)
qed

section \<open>The network of the node managers\<close>

lemma own_add_group:
  "node_own nm = node_own nm' \<Longrightarrow>
   node_own (snd (add_group_nodes mk g nodes u nm)) = node_own (snd (add_group_nodes mk g nodes u nm'))"
proof (induction mk g nodes u nm arbitrary: nm' rule: add_group_nodes.induct)
  case (2 mk g ni rest u nm)
  have same: "m_frontServiceInfos nm' = m_frontServiceInfos nm" using "2.prems" by (simp add: node_own_def)
  let ?add = "\<lambda>nm. increaseSeq (nm\<lparr>m_frontServiceInfos := um2_put g (ni_nodeID ni) (mk (ni_serviceName ni)) (m_frontServiceInfos nm)\<rparr>)"
  have new: "node_own (?add nm) = node_own (?add nm')" using "2.prems" by (simp add: node_own_def increaseSeq_def)
  consider "um2_find (m_frontServiceInfos nm) g (ni_nodeID ni) \<noteq> None"
    | "um2_find (m_frontServiceInfos nm) g (ni_nodeID ni) = None" "ni_serviceName ni = []"
    | "um2_find (m_frontServiceInfos nm) g (ni_nodeID ni) = None" "ni_serviceName ni \<noteq> []" by blast
  then show ?case
  proof cases
    case 1
    with "2.IH"(1) [OF 1 "2.prems"] show ?thesis by (simp add: same)
  next
    case 2
    with "2.IH"(2) [OF _ _ "2.prems"] show ?thesis by (simp add: same)
  next
    case 3
    with "2.IH"(3) [OF _ _ new] show ?thesis by (simp add: same)
  qed
qed simp

lemma own_local_step:
  assumes "node_own nm = node_own nm'"
  shows "node_own (local_step fw op nm) = node_own (local_step fw op nm')"
proof (cases op)
  case (GroupStarted mk g nodes)
  then show ?thesis using own_add_group [OF assms] by simp
qed (use assms in \<open>auto simp: node_own_def registerFrontService_eq unregisterFrontService_eq refresh_fronts_def Let_def
  increaseSeq_def\<close>)

lemma add_group_cache:
  "m_p2pID2Seq (snd (add_group_nodes mk g nodes u nm)) = m_p2pID2Seq nm \<and>
   m_peerGatewayNodes (snd (add_group_nodes mk g nodes u nm)) = m_peerGatewayNodes nm"
  by (induction mk g nodes u nm rule: add_group_nodes.induct) (simp_all add: increaseSeq_def)

lemma local_step_cache:
  "m_p2pID2Seq (local_step fw op nm) = m_p2pID2Seq nm" "m_peerGatewayNodes (local_step fw op nm) = m_peerGatewayNodes nm"
  by (cases op; simp add: registerFrontService_eq unregisterFrontService_eq refresh_fronts_def Let_def increaseSeq_def
      add_group_cache)+

lemma own_learn_forget:
  "node_own (apply_nodeIDs p k m nm) = node_own nm" "node_own (forget_peer p nm) = node_own nm"
  by (simp_all add: node_own_def)

lemma net_inv_own: "node_net_inv fw jl view nm \<Longrightarrow> nm_inv nm' \<Longrightarrow> node_own nm' = node_own nm \<Longrightarrow> node_net_inv fw jl view nm'"
  by (simp add: node_net_inv_def node_own_def registered_def)

lemma own_local: "node_own nm = node_own nm' \<Longrightarrow> localGroup2NodeIDs nm = localGroup2NodeIDs nm' \<and>
    m_statusSeq nm = m_statusSeq nm' \<and> local_view nm = local_view nm'"
  by (simp add: node_own_def localGroup2NodeIDs_def local_view_def registered_def)

lemma gossip_types_distinct:
  "types_spec fw \<Longrightarrow> mtHeartbeat fw \<noteq> mtRequestNodeIDs fw \<and> mtHeartbeat fw \<noteq> mtResponseNodeIDs fw \<and>
     mtRequestNodeIDs fw \<noteq> mtHeartbeat fw \<and> mtResponseNodeIDs fw \<noteq> mtHeartbeat fw \<and>
     mtResponseNodeIDs fw \<noteq> mtRequestNodeIDs fw"
  by (auto simp: types_spec_def)

lemma receive_announce: "gossip_receive fw jl p (node_announce fw nm') nm
    = Some (if onReceiveStatusSeq p (m_statusSeq nm') nm then [(mtRequestNodeIDs fw, [])] else [], nm)"
  using rd32_be32 [of "[]" 0 "m_statusSeq nm'" "[]"] by (simp add: gossip_receive_def node_announce_def)

lemma receive_ask:
  assumes "node_net_inv fw jl view nm"
  shows "gossip_receive fw jl p (mtRequestNodeIDs fw, []) nm = Some ([node_answer fw jl nm], nm)"
proof -
  have "types_spec fw" "json_spec jl view" using assms by (simp_all add: node_net_inv_def)
  moreover have "onRequestNodeIDs jl nm \<noteq> []"
    using onRequestNodeIDs_text [OF \<open>json_spec jl view\<close> net_inv_plain [OF assms]] by blast
  ultimately show ?thesis by (simp add: gossip_receive_def node_answer_def gossip_types_distinct)
qed

lemma receive_answer:
  assumes "node_net_inv fw jl view nm" and "node_net_inv fw jl view nm'"
  shows "gossip_receive fw jl p (node_answer fw jl nm') nm
    = Some ([], apply_nodeIDs p (m_statusSeq nm') (localGroup2NodeIDs nm') nm)"
proof -
  have spec: "types_spec fw" "json_spec jl view" using assms(1) by (simp_all add: node_net_inv_def)
  obtain calls where "updateNodeIDs fw p (m_statusSeq nm') (localGroup2NodeIDs nm') nm
      = Inr (calls, apply_nodeIDs p (m_statusSeq nm') (localGroup2NodeIDs nm') nm)"
    using updateNodeIDs_eq [OF net_inv_hex [OF assms(1)]] by blast
  with request_answer [OF spec(2) net_inv_plain [OF assms(2)]] show ?thesis
    by (simp add: gossip_receive_def node_answer_def gossip_types_distinct [OF spec(1)] onReceiveNodeIDs_def)
qed

interpretation node_net: gossip_protocol "local_step fw" m_statusSeq local_view seq_cost "node_net_inv fw jl view" nodeids_ok
  apply_nodeIDs onReceiveStatusSeq peer_view map_view forget_peer "{}" "node_op_ok fw" node_own localGroup2NodeIDs
  "node_announce fw" "(mtRequestNodeIDs fw, [])" "node_answer fw jl" "gossip_receive fw jl" for fw jl view
proof (unfold_locales, goal_cases)
  case (1 s v p n)
  then have "nm_inv (apply_nodeIDs p n v s)" by (intro nm_inv_apply) (simp_all add: node_net_inv_def)
  then show ?case by (rule net_inv_own [OF 1(1) _ own_learn_forget(1)])
next
  case (2 s v q k p n)
  then show ?case using node_cache.stale_learn [of s v] by (simp add: node_net_inv_def)
next
  case (3 s v p n q)
  then show ?case using node_cache.view_learn [of s v] by (simp add: node_net_inv_def)
next
  case (4 s p)
  then have "nm_inv (forget_peer p s)" by (intro nm_inv_forget) (simp add: node_net_inv_def)
  then show ?case by (rule net_inv_own [OF 4 _ own_learn_forget(2)])
next
  case (5 s q k p)
  then show ?case using node_cache.stale_forget [of s] by (simp add: node_net_inv_def)
next
  case (6 s p q)
  then show ?case using node_cache.view_forget [of s] by (simp add: node_net_inv_def)
next
  case (7 s op)
  then show ?case by (rule net_inv_step)
next
  case (8 q k op s)
  then show ?case by (simp add: onReceiveStatusSeq_def local_step_cache)
next
  case (9 op s q)
  then show ?case by (simp add: peer_view_def local_step_cache)
next
  case (10 s s' op)
  then show ?case by (rule own_local_step)
next
  case (17 s)
  show ?case by (rule localGroup2NodeIDs_ok)
next
  case (18 s)
  then show ?case using map_view_local [OF nm_invD(1), of s] by (simp add: node_net_inv_def)
next
  case (19 s s' p)
  show ?case by (rule receive_announce)
next
  case (20 s p)
  then show ?case by (rule receive_ask)
next
  case (21 s s' p)
  then show ?case by (rule receive_answer)
next
  case (15 s s')
  then show ?case using own_local [of s s'] by (simp add: node_announce_def)
next
  case (16 s s')
  then show ?case using own_local [of s s'] by (simp add: node_answer_def onRequestNodeIDs_def)
next
  case (13 s s')
  then show ?case using own_local by blast
next
  case (14 s s')
  then show ?case using own_local by blast
qed (simp_all only: own_learn_forget)

section \<open>Properties\<close>

type_synonym 'key node_network = "(p2pid, node_manager, u16 \<times> bytes, 'key local_op) gossip_net"

abbreviation node_steps :: "('key, 'more) bcos_fw_scheme \<Rightarrow> 'j jsonlib \<Rightarrow> 'key node_network \<Rightarrow> 'key node_network \<Rightarrow> bool" where
  "node_steps fw jl \<equiv> gossip_steps (local_step fw) (node_op_ok fw) (node_announce fw) (gossip_receive fw jl) forget_peer"

lemma node_net_ok:
  fixes fw :: "('key, 'more) bcos_fw_scheme" and jl :: "'j jsonlib"
  assumes "types_spec fw" and "json_spec jl view" and "node_steps fw jl (gossip_start new_node_manager) n"
  shows "node_net.net_ok TYPE('more) TYPE('j) fw jl view new_node_manager n"
proof (rule node_net.net_ok_steps [OF assms(3)])
  show inv: "node_net_inv fw jl view (new_node_manager p)" for p by (rule node_inv_new [OF assms(1,2)])
  have "onReceiveStatusSeq q k (new_node_manager p)" for p q k by (simp add: onReceiveStatusSeq_def new_node_manager_def)
  with inv show "node_net.net_ok TYPE('more) TYPE('j) fw jl view new_node_manager (gossip_start new_node_manager)"
    by (rule node_net.net_ok_start)
qed

text \<open>
  Claim C5: a network of any number of gateways, in which nodes are registered, removed, refreshed
  and started anywhere, heartbeats are sent at any time, packets are delayed, overtake each other
  or are lost, and connections break: in every reachable state, whenever the sequence number that
  gateway p holds for gateway q is the one q has now, p routes through q exactly the nodes
  registered at q now. (Each gateway changes its table less than 2^32 times.)
\<close>

theorem network_in_step:
  assumes "types_spec fw" and "json_spec jl view" and "node_steps fw jl (gossip_start new_node_manager) n"
    and "sum_list (map seq_cost (gn_history n q)) < 2 ^ 32"
    and "\<not> onReceiveStatusSeq q (m_statusSeq (gn_state n q)) (gn_state n p)"
  shows "peer_view (gn_state n p) q = local_view (gn_state n q)"
  by (rule node_net.net_in_step [OF node_net_ok [OF assms(1-3)] assms(4,5)])


text \<open>A network where one gateway has registered a node and nothing has been said yet.\<close>

definition example_network :: "bytes node_network" where
  "example_network = (gossip_start new_node_manager)\<lparr>
     gn_state := new_node_manager(''p1'' := local_step example_fw (Register ''g1'' [65, 66] 5) (new_node_manager ''p1'')),
     gn_history := (\<lambda>_. [])(''p1'' := [Register ''g1'' [65, 66] 5])\<rparr>"

lemma example_network_reach: "node_steps example_fw jv_lib (gossip_start new_node_manager) example_network"
proof -
  have "keyHex example_fw [65, 66] = ''AB''"
    by (simp add: string_of_bytes_def char_of_byte_def char_of_def bit_0)
  then have "node_op_ok example_fw (Register ''g1'' [65, 66] 5)"
    by (simp add: good_id_def plain_string_def)
  then show ?thesis
    using gossip_local [where op_ok = "node_op_ok example_fw" and op = "Register ''g1'' [65, 66] 5"
        and n = "gossip_start new_node_manager" and p = "''p1''" and lstep = "local_step example_fw"
        and announce = "node_announce example_fw" and recv = "gossip_receive example_fw jv_lib" and forget = forget_peer]
    by (intro gossip_steps_one) (simp add: gossip_start_def example_network_def)
qed

lemma example_network_small: "sum_list (map seq_cost (gn_history example_network q)) < 2 ^ 32"
  by (simp add: example_network_def)


theorem network_in_step_witness:
  "\<exists>n. node_steps example_fw jv_lib (gossip_start new_node_manager) n \<and> gn_history n ''p1'' \<noteq> [] \<and>
     peer_view (gn_state n ''p2'') ''p1'' = local_view (gn_state n ''p1'')"
proof -
  have inv: "node_net_inv example_fw jv_lib jv_view (new_node_manager p)" for p
    by (rule node_inv_new [OF example_fw_types jv_lib_spec])
  note ok = node_net_ok [OF example_fw_types jv_lib_spec example_network_reach]
  let ?n = "node_net.synced ''p2'' ''p1'' example_network"
  note synced = node_net.synced_facts [OF ok example_network_small, where q = "''p1''" and p = "''p2''"]
  have steps: "node_steps example_fw jv_lib (gossip_start new_node_manager) ?n"
    by (rule gossip_steps_trans [OF node_net.steps_synced [OF ok] example_network_reach])
  have "\<not> onReceiveStatusSeq ''p1'' (m_statusSeq (gn_state ?n ''p1'')) (gn_state ?n ''p2'')"
    by (simp add: node_net.synced_def onReceiveStatusSeq_def um_simps)
  then have "peer_view (gn_state ?n ''p2'') ''p1'' = local_view (gn_state ?n ''p1'')"
    using network_in_step [OF example_fw_types jv_lib_spec steps] example_network_small by (simp add: synced(2))
  with steps show ?thesis by (intro exI [of _ ?n]) (simp add: synced(2), simp add: example_network_def)
qed

end
