(* ===== verification/Session_Link.thy ===== *)
theory Session_Link
  imports Session_World
begin

text \<open>
  Two sessions and the connection between them: what one session's \<open>asyncSendMessage\<close> accepts
  (\<open>libnetwork/Session.cpp\<close>: \<open>asyncSendMessage\<close>, \<open>send\<close>, \<open>write\<close>, \<open>onWrite\<close>) against what the other
  hands to its callbacks and its handler (\<open>doRead\<close>, \<open>onMessage\<close>). The bytes given to the socket
  arrive in any chunks; both sessions may do anything else meanwhile, fail or be dropped.
\<close>

section \<open>The connection and its steps\<close>

record 'q link =
  lk_sender :: "'q world"
  lk_receiver :: "'q world"
  lk_taken :: nat \<comment> \<open>bytes of the sender's socket the receiver has been given\<close>
  lk_sent :: "p2p_message list" \<comment> \<open>messages the sender accepted, in order\<close>
  lk_got :: "p2p_message list" \<comment> \<open>messages the receiver handed on, in order\<close>

text \<open>The message a job of the receiver carries, without an error, to a callback or to the handler.\<close>

fun handed :: "session_job \<Rightarrow> p2p_message list" where
  "handed (JResponse e c m) = (if ne_code e = 0 then [m] else [])"
| "handed (JHandler e m) = (if ne_code e = 0 then [m] else [])"
| "handed _ = []"

definition handed_by :: "session_effect list \<Rightarrow> p2p_message list" where
  "handed_by es = concat (map handed (jobs_of es))"

definition initial_link :: "'q \<Rightarrow> 'q link" where
  "initial_link q0 = \<lparr>lk_sender = initial_world True q0, lk_receiver = initial_world True q0, lk_taken = 0,
     lk_sent = [], lk_got = []\<rparr>"

text \<open>
  \<open>link_receiver\<close> is every step of the receiving session but a completed read, which is
  \<open>link_deliver\<close> or \<open>link_read_failed\<close>: a step is taken as if no read were outstanding.
\<close>

inductive link_step :: "('key, 'more) bcos_fw_scheme \<Rightarrow> 'q write_queue \<Rightarrow> 'q link \<Rightarrow> 'q link \<Rightarrow> bool"
  for fw wq where
  link_send:
    "cb = None \<or> m_seq m \<notin> fst ` set (w_registered (lk_sender l)) \<Longrightarrow> wire_message fw m \<Longrightarrow>
     asyncSendMessage fw wq m t cb (w_session (lk_sender l)) = Inr r \<Longrightarrow>
     link_step fw wq l (l\<lparr>lk_sender := apply_result r (sending fw m cb (lk_sender l)),
       lk_sent := lk_sent l @ (if actived (w_session (lk_sender l)) then [m] else [])\<rparr>)"
| link_sender:
    "sess_step fw wq (lk_sender l) w \<Longrightarrow> w_accepted w = w_accepted (lk_sender l) \<Longrightarrow>
     link_step fw wq l (l\<lparr>lk_sender := w\<rparr>)"
| link_deliver:
    "w_reading (lk_receiver l) \<Longrightarrow>
     drop (lk_taken l) (concat (w_wire (lk_sender l))) = chunk @ later \<Longrightarrow>
     session_onRead fw False chunk (w_session (lk_receiver l)) = Inr r \<Longrightarrow>
     link_step fw wq l (l\<lparr>lk_receiver := apply_result r ((lk_receiver l)\<lparr>w_reading := False\<rparr>),
       lk_taken := lk_taken l + length chunk, lk_got := lk_got l @ handed_by (fst r)\<rparr>)"
| link_read_failed:
    "w_reading (lk_receiver l) \<Longrightarrow> session_onRead fw True [] (w_session (lk_receiver l)) = Inr r \<Longrightarrow>
     link_step fw wq l (l\<lparr>lk_receiver := apply_result r ((lk_receiver l)\<lparr>w_reading := False\<rparr>)\<rparr>)"
| link_receiver:
    "sess_step fw wq ((lk_receiver l)\<lparr>w_reading := False\<rparr>) w \<Longrightarrow>
     link_step fw wq l (l\<lparr>lk_receiver := w\<lparr>w_reading := w_reading w \<or> w_reading (lk_receiver l)\<rparr>\<rparr>)"

inductive link_steps :: "('key, 'more) bcos_fw_scheme \<Rightarrow> 'q write_queue \<Rightarrow> 'q link \<Rightarrow> 'q link \<Rightarrow> bool"
  for fw wq where
  steps_refl: "link_steps fw wq l l"
| steps_step: "link_steps fw wq l l' \<Longrightarrow> link_step fw wq l' l'' \<Longrightarrow> link_steps fw wq l l''"

lemma link_steps_trans: "link_steps fw wq l' l'' \<Longrightarrow> link_steps fw wq l l' \<Longrightarrow> link_steps fw wq l l''"
  by (induction rule: link_steps.induct) (auto intro: steps_step)

lemma link_steps_one: "link_step fw wq l l' \<Longrightarrow> link_steps fw wq l l'"
  by (rule steps_step [OF steps_refl])

section \<open>What the steps leave alone\<close>

text \<open>A session is open for messages: its read handler still passes them on.\<close>

definition open_session :: "'q session \<Rightarrow> bool" where
  "open_session s \<longleftrightarrow> m_actived s \<and> m_server s = Some True"

definition read_side :: "'q session \<Rightarrow> 'q session \<Rightarrow> bool" where
  "read_side s s' \<longleftrightarrow> m_data s' = m_data s \<and> m_messageHandler s' = m_messageHandler s \<and>
     (open_session s' \<longrightarrow> open_session s)"

lemma read_side_refl [simp]: "read_side s s"
  by (simp add: read_side_def)

lemma read_side_trans: "read_side s s' \<Longrightarrow> read_side s' s'' \<Longrightarrow> read_side s s''"
  by (simp add: read_side_def)

text \<open>The read side does not depend on the fields of the write side.\<close>

lemma read_side_fields [simp]:
  "read_side (s\<lparr>m_writing := b\<rparr>) s' = read_side s s'"
  "read_side (s\<lparr>m_writeQueue := q\<rparr>) s' = read_side s s'"
  "read_side (s\<lparr>m_writing := b, m_writeQueue := q\<rparr>) s' = read_side s s'"
  "read_side (addSeqCallback seq rc s) s' = read_side s s'"
  by (simp_all add: read_side_def open_session_def addSeqCallback_def)

lemma read_side_drop: "session_drop r s = Inr (es, s') \<Longrightarrow> read_side s s'"
  by (auto simp: session_drop_def read_side_def open_session_def Let_def split: if_splits)

lemma read_side_write: "session_write wq s = Inr (es, s') \<Longrightarrow> read_side s s'"
  by (auto simp: session_write_def read_side_def open_session_def actived_def Let_def split: if_splits)

lemma read_side_send: "session_send wq b s = Inr (es, s') \<Longrightarrow> read_side s s'"
  by (auto simp: session_send_def split: if_splits dest: read_side_write)

lemma read_side_asyncSend: "asyncSendMessage fw wq m t cb s = Inr (es, s') \<Longrightarrow> read_side s s'"
  by (auto simp: asyncSendMessage_def cpp_bind_eq_Inr split: if_splits option.splits dest: read_side_send)

lemma read_side_onWrite: "session_onWrite wq ec s = Inr (es, s') \<Longrightarrow> read_side s s'"
  by (auto simp: session_onWrite_def Let_def cpp_bind_eq_Inr split: if_splits dest: read_side_write read_side_drop)

lemma read_side_doRead: "session_doRead s = Inr (es, s') \<Longrightarrow> read_side s s'"
  using read_side_drop [of TCPError s es s'] by (auto simp: session_doRead_def split: if_splits)

lemma read_side_onIdle: "session_onIdle aborted s = Inr (es, s') \<Longrightarrow> read_side s s'"
  using read_side_drop [of IdleWaitTimeout s es s'] by (auto simp: session_onIdle_def split: if_splits)

lemma read_side_job: "read_side s (snd (run_job j s))"
  by (cases j) (simp_all add: read_side_def open_session_def removeSeqCallback_def)

lemma read_side_step:
  assumes "sess_step fw wq w w'" and "\<not> w_reading w"
  shows "read_side (w_session w) (w_session w')"
  using assms
proof (cases rule: sess_step.cases)
  case (step_send cb m t r)
  then show ?thesis using read_side_asyncSend [of fw wq m t cb "w_session w" "fst r" "snd r"] by simp
next
  case (step_written b rest ec r)
  then show ?thesis using read_side_onWrite [of wq ec "w_session w" "fst r" "snd r"] by simp
next
  case (step_doRead r)
  then show ?thesis using read_side_doRead [of "w_session w" "fst r" "snd r"] by simp
next
  case (step_job i call s')
  then show ?thesis using read_side_job [of "w_session w" "w_jobs w ! i"] by simp
next
  case (step_disconnect reason r)
  then show ?thesis
    using read_side_drop [of reason "w_session w" "fst r" "snd r"] by (simp add: session_disconnect_def)
next
  case (step_idle aborted r)
  then show ?thesis using read_side_onIdle [of aborted "w_session w" "fst r" "snd r"] by simp
qed (auto simp: read_side_def open_session_def)

section \<open>One read of the receiver\<close>

lemma success_code [simp]: "ne_code success = 0"
  by (simp add: success_def network_error_def)

lemma handed_by_simps [simp]:
  "handed_by [] = []" "handed_by (es @ es') = handed_by es @ handed_by es'"
  "handed_by (e # es) = (case e of Enqueue j \<Rightarrow> handed j | _ \<Rightarrow> []) @ handed_by es"
  by (auto simp: handed_by_def split: session_effect.split)

lemma handed_by_idle [simp]: "handed_by (updateIdleTimer s) = []"
  by (simp add: updateIdleTimer_def)

lemma handed_by_drop: "session_drop r s = Inr (es, s') \<Longrightarrow> handed_by es = []"
proof -
  have "handed_by (drop_callbacks server e cbs) = []" for server e cbs
    by (induction cbs) (auto simp: drop_callbacks_def)
  then show "session_drop r s = Inr (es, s') \<Longrightarrow> handed_by es = []"
    by (auto simp: session_drop_def Let_def split: if_splits)
qed

lemma handed_by_doRead: "session_doRead s = Inr (es, s') \<Longrightarrow> handed_by es = []"
  by (auto simp: session_doRead_def split: if_splits dest: handed_by_drop)

lemma handed_by_onMessage:
  "m_messageHandler s \<Longrightarrow> handed_by (session_onMessage success m s) = (if open_session s then [m] else [])"
  by (auto simp: session_onMessage_def open_session_def split: option.split bool.split)

lemma handed_by_messages:
  "m_messageHandler s \<Longrightarrow> handed_by (fold (\<lambda>m es. es @ session_onMessage success m s) ms es)
     = handed_by es @ (if open_session s then ms else [])"
  by (induction ms arbitrary: es) (auto simp: handed_by_onMessage)

lemma onRead_eq:
  assumes ok: "crop_spec fw" "list_all (wire_message fw) todo"
    and stream: "m_data s @ chunk @ later = concat (map (p2p_enc fw) todo)"
  shows "\<exists>seen rest left. todo = seen @ rest \<and> m_data s @ chunk = concat (map (p2p_enc fw) seen) @ left \<and>
    framed_codec.pending (p2p_enc fw) left rest \<and>
    session_onRead fw False chunk s = eff_bind (Inr (fold (\<lambda>m es. es @ session_onMessage success m s)
      (map (wire_normal fw) seen) (updateIdleTimer s), s\<lparr>m_data := left\<rparr>)) session_doRead"
proof -
  have all_ok: "list_all (\<lambda>m. crop_spec fw \<and> wire_message fw m) todo"
    using ok by (auto simp: list_all_iff)
  obtain seen rest left where split: "todo = seen @ rest" "m_data s @ chunk = concat (map (p2p_enc fw) seen) @ left"
      "framed_codec.pending (p2p_enc fw) left rest"
    using p2p.split_stream [OF all_ok, of "m_data s @ chunk" later] stream by auto
  have seen: "list_all (\<lambda>m. crop_spec fw \<and> wire_message fw m) seen"
    and rest: "list_all (\<lambda>m. crop_spec fw \<and> wire_message fw m) rest" using all_ok split(1) by simp_all
  have "session_onRead fw False chunk s = eff_bind (Inr (fold (\<lambda>m es. es @ session_onMessage success m s)
      (map (wire_normal fw) seen) (updateIdleTimer s), s\<lparr>m_data := left\<rparr>)) session_doRead"
    unfolding session_onRead_def split(2) by (simp add: p2p.loop_many [OF seen] p2p.loop_pending [OF rest split(3)])
  with split show ?thesis by blast
qed

lemma onRead_stream:
  assumes ok: "crop_spec fw" "list_all (wire_message fw) todo" and handler: "m_messageHandler s"
    and stream: "m_data s @ chunk @ later = concat (map (p2p_enc fw) todo)"
    and res: "session_onRead fw False chunk s = Inr (es, s')"
  shows "\<exists>seen rest. todo = seen @ rest \<and> m_data s @ chunk = concat (map (p2p_enc fw) seen) @ m_data s' \<and>
    framed_codec.pending (p2p_enc fw) (m_data s') rest \<and>
    handed_by es = (if open_session s then map (wire_normal fw) seen else []) \<and>
    m_messageHandler s' \<and> (open_session s' \<longrightarrow> open_session s)"
proof -
  obtain seen rest left where split: "todo = seen @ rest" "m_data s @ chunk = concat (map (p2p_enc fw) seen) @ left"
      "framed_codec.pending (p2p_enc fw) left rest"
    and run: "session_onRead fw False chunk s = eff_bind (Inr (fold (\<lambda>m es. es @ session_onMessage success m s)
      (map (wire_normal fw) seen) (updateIdleTimer s), s\<lparr>m_data := left\<rparr>)) session_doRead"
    using onRead_eq [OF ok stream] by blast
  let ?es = "fold (\<lambda>m es. es @ session_onMessage success m s) (map (wire_normal fw) seen) (updateIdleTimer s)"
  obtain es2 where read: "session_doRead (s\<lparr>m_data := left\<rparr>) = Inr (es2, s')" and es: "es = ?es @ es2"
    using res unfolding run by (auto simp: cpp_bind_eq_Inr)
  have "handed_by es = (if open_session s then map (wire_normal fw) seen else [])"
    using handed_by_messages [OF handler] handed_by_doRead [OF read] by (simp add: es)
  with read_side_doRead [OF read] split handler show ?thesis
    by (auto simp: read_side_def open_session_def)
qed

lemma onRead_succeeds:
  assumes "crop_spec fw" "list_all (wire_message fw) todo" and act: "actived s"
    and "m_data s @ chunk @ later = concat (map (p2p_enc fw) todo)"
  shows "\<exists>es s'. session_onRead fw False chunk s = Inr (es, s') \<and> open_session s'"
  using onRead_eq [OF assms(1,2,4)] act by (auto simp: session_doRead_def actived_def open_session_def)

section \<open>The invariant of the connection\<close>

definition stream_ok :: "('key, 'more) bcos_fw_scheme \<Rightarrow> bytes list \<Rightarrow> nat \<Rightarrow> p2p_message list \<Rightarrow> p2p_message list \<Rightarrow>
    'q session \<Rightarrow> bool" where
  "stream_ok fw wire taken sent got s \<longleftrightarrow> m_messageHandler s \<and> taken \<le> length (concat wire) \<and>
     (\<exists>seen todo. sent = seen @ todo \<and> take taken (concat wire) = concat (map (p2p_enc fw) seen) @ m_data s \<and>
        framed_codec.pending (p2p_enc fw) (m_data s) todo \<and>
        (\<exists>k. got = map (wire_normal fw) (take k seen)) \<and> (open_session s \<longrightarrow> got = map (wire_normal fw) seen))"

definition link_ok :: "('key, 'more) bcos_fw_scheme \<Rightarrow> ('q \<Rightarrow> bytes list) \<Rightarrow> 'q link \<Rightarrow> bool" where
  "link_ok fw view l \<longleftrightarrow> list_all (wire_message fw) (lk_sent l) \<and>
     w_accepted (lk_sender l) = map (p2p_enc fw) (lk_sent l) \<and> world_write_ok view (lk_sender l) \<and>
     stream_ok fw (w_wire (lk_sender l)) (lk_taken l) (lk_sent l) (lk_got l) (w_session (lk_receiver l))"

lemma pending_more:
  assumes "framed_codec.pending (p2p_enc fw) data todo" and "crop_spec fw" and "list_all (wire_message fw) ms"
  shows "framed_codec.pending (p2p_enc fw) data (todo @ ms)"
  using assms p2p.enc_nonempty [of fw] by (cases todo; cases ms) (auto simp: p2p.pending_def)

lemma stream_ok_read_side: "stream_ok fw wire k sent got s \<Longrightarrow> read_side s s' \<Longrightarrow> stream_ok fw wire k sent got s'"
  by (auto simp: stream_ok_def read_side_def)

lemma stream_ok_more:
  assumes "stream_ok fw wire k sent got s" and "crop_spec fw" and "list_all (wire_message fw) ms"
  shows "stream_ok fw (wire @ wire') k (sent @ ms) got s"
proof -
  obtain seen todo n where seen: "sent = seen @ todo" "take k (concat wire) = concat (map (p2p_enc fw) seen) @ m_data s"
      "framed_codec.pending (p2p_enc fw) (m_data s) todo" "got = map (wire_normal fw) (take n seen)"
      "open_session s \<longrightarrow> got = map (wire_normal fw) seen" and k: "m_messageHandler s" "k \<le> length (concat wire)"
    using assms(1) by (auto simp: stream_ok_def)
  have "take k (concat (wire @ wire')) = concat (map (p2p_enc fw) seen) @ m_data s" using seen(2) k(2) by simp
  moreover have "sent @ ms = seen @ todo @ ms" using seen(1) by simp
  moreover note pending_more [OF seen(3) assms(2,3)]
  moreover have "k \<le> length (concat (wire @ wire'))" using k(2) by simp
  ultimately show ?thesis unfolding stream_ok_def using seen(4,5) k(1) by blast
qed

lemma stream_left:
  assumes ok: "stream_ok fw wire k sent got s" and total: "concat (map (p2p_enc fw) sent) = concat wire @ unwritten"
    and chunk: "drop k (concat wire) = chunk @ later"
  shows "\<exists>seen todo n. sent = seen @ todo \<and> take k (concat wire) = concat (map (p2p_enc fw) seen) @ m_data s \<and>
    got = map (wire_normal fw) (take n seen) \<and> (open_session s \<longrightarrow> got = map (wire_normal fw) seen) \<and>
    m_data s @ chunk @ later @ unwritten = concat (map (p2p_enc fw) todo)"
proof -
  obtain seen todo n where seen: "sent = seen @ todo" "take k (concat wire) = concat (map (p2p_enc fw) seen) @ m_data s"
      "got = map (wire_normal fw) (take n seen)" "open_session s \<longrightarrow> got = map (wire_normal fw) seen"
    using ok by (auto simp: stream_ok_def)
  have "concat wire = take k (concat wire) @ chunk @ later" using chunk by (metis append_take_drop_id)
  then have "concat (map (p2p_enc fw) seen) @ concat (map (p2p_enc fw) todo)
      = concat (map (p2p_enc fw) seen) @ m_data s @ chunk @ later @ unwritten"
    using total seen(1,2) by (metis append.assoc concat_append map_append)
  with seen show ?thesis by (intro exI [of _ seen] exI [of _ todo] exI [of _ n]) simp
qed

lemma stream_ok_deliver:
  assumes ok: "stream_ok fw wire k sent got s" and fw: "crop_spec fw" "list_all (wire_message fw) sent"
    and total: "concat (map (p2p_enc fw) sent) = concat wire @ unwritten"
    and chunk: "drop k (concat wire) = chunk @ later" and res: "session_onRead fw False chunk s = Inr (es, s')"
  shows "stream_ok fw wire (k + length chunk) sent (got @ handed_by es) s'"
proof -
  obtain seen todo n where seen: "sent = seen @ todo" "take k (concat wire) = concat (map (p2p_enc fw) seen) @ m_data s"
      "got = map (wire_normal fw) (take n seen)" "open_session s \<longrightarrow> got = map (wire_normal fw) seen"
    and stream: "m_data s @ chunk @ later @ unwritten = concat (map (p2p_enc fw) todo)"
    using stream_left [OF ok total chunk] by blast
  have handler: "m_messageHandler s" and k: "k \<le> length (concat wire)" using ok by (simp_all add: stream_ok_def)
  have wire: "concat wire = take k (concat wire) @ chunk @ later" using chunk by (metis append_take_drop_id)
  have "list_all (wire_message fw) todo" using fw(2) seen(1) by simp
  from onRead_stream [OF fw(1) this handler stream res] obtain got2 rest
    where new: "todo = got2 @ rest" "m_data s @ chunk = concat (map (p2p_enc fw) got2) @ m_data s'"
      "framed_codec.pending (p2p_enc fw) (m_data s') rest"
      "handed_by es = (if open_session s then map (wire_normal fw) got2 else [])"
      "m_messageHandler s'" "open_session s' \<longrightarrow> open_session s" by blast
  have "take (k + length chunk) (concat wire) = take k (concat wire) @ chunk"
    using k wire by (metis append_eq_conv_conj length_append length_take min.absorb2 append.assoc)
  then have "take (k + length chunk) (concat wire) = concat (map (p2p_enc fw) (seen @ got2)) @ m_data s'"
    using seen(2) new(2) by simp
  moreover have "k + length chunk \<le> length (concat wire)"
    using chunk k by (metis add_le_cancel_left length_append length_drop le_add1 le_add_diff_inverse)
  moreover have "\<exists>j. got @ handed_by es = map (wire_normal fw) (take j (seen @ got2))"
  proof (cases "open_session s")
    case True
    with seen(4) new(4) show ?thesis by (intro exI [of _ "length (seen @ got2)"]) simp
  next
    case False
    with seen(3) new(4) show ?thesis by (intro exI [of _ "min n (length seen)"]) (simp add: min_def)
  qed
  moreover have "open_session s' \<longrightarrow> got @ handed_by es = map (wire_normal fw) (seen @ got2)"
    using seen(4) new(4,6) by auto
  ultimately show ?thesis
    unfolding stream_ok_def using seen(1) new(1,3,5) by (metis append.assoc)
qed

lemma link_ok_write: "link_ok fw view l \<Longrightarrow> world_write_ok view (lk_sender l)"
  unfolding link_ok_def by blast

lemma link_ok_stream:
  "link_ok fw view l \<Longrightarrow> stream_ok fw (w_wire (lk_sender l)) (lk_taken l) (lk_sent l) (lk_got l) (w_session (lk_receiver l))"
  unfolding link_ok_def by blast

lemma link_ok_sent: "link_ok fw view l \<Longrightarrow> list_all (wire_message fw) (lk_sent l)"
  unfolding link_ok_def by blast

lemma link_ok_receiver:
  "link_ok fw view l \<Longrightarrow> stream_ok fw (w_wire (lk_sender l)) (lk_taken l') (lk_sent l) (lk_got l') (w_session (lk_receiver l')) \<Longrightarrow>
   lk_sender l' = lk_sender l \<Longrightarrow> lk_sent l' = lk_sent l \<Longrightarrow> link_ok fw view l'"
  unfolding link_ok_def by auto

lemma wire_grows:
  assumes "sess_step fw wq w w'"
  shows "\<exists>bs. w_wire w' = w_wire w @ bs"
  using assms by (cases rule: sess_step.cases) (auto simp: sending_def)

lemma read_only_receiver: "session_onRead fw True [] s = Inr (es, s') \<Longrightarrow> read_side s s'"
  by (auto simp: session_onRead_def dest: read_side_drop)

lemma link_ok_step:
  assumes fifo: "fifo_spec wq view" and crop: "crop_spec fw" and ok: "link_ok fw view l" and step: "link_step fw wq l l'"
  shows "link_ok fw view l'"
  using step
proof (cases rule: link_step.cases)
  case (link_send cb m r)
  have sess: "sess_step fw wq (lk_sender l) (lk_sender l')" unfolding link_send(1) using step_send [OF link_send(2,4)] by simp
  obtain bs where grows: "w_wire (lk_sender l') = w_wire (lk_sender l) @ bs" using wire_grows [OF sess] by blast
  have old: "world_write_ok view (lk_sender l)" by (rule link_ok_write [OF ok])
  have wok: "world_write_ok view (lk_sender l')"
    unfolding link_send(1) using write_ok_asyncSend [OF fifo old link_send(4)] by simp
  let ?new = "if actived (w_session (lk_sender l)) then [m] else []"
  have "list_all (wire_message fw) ?new" using link_send(3) by simp
  with ok wok grows stream_ok_more [OF _ crop, of _ _ _ _ _ ?new bs] show ?thesis
    unfolding link_ok_def by (auto simp: link_send(1) sending_def p2p_enc_def)
next
  case (link_sender w)
  obtain bs where "w_wire w = w_wire (lk_sender l) @ bs" using wire_grows [OF link_sender(2)] by blast
  moreover have "world_write_ok view w" by (rule write_ok_step [OF fifo link_ok_write [OF ok] link_sender(2)])
  ultimately show ?thesis
    using ok stream_ok_more [OF _ crop, of _ _ _ _ _ "[]" bs] link_sender(3)
    unfolding link_ok_def by (auto simp: link_sender(1))
next
  case (link_deliver chunk later r)
  have "concat (map (p2p_enc fw) (lk_sent l)) = concat (w_wire (lk_sender l)) @ concat (view (m_writeQueue (w_session (lk_sender l))))"
    using ok by (metis concat_append link_ok_def write_ok_def)
  from stream_ok_deliver [OF link_ok_stream [OF ok] crop link_ok_sent [OF ok] this link_deliver(3),
      where es = "fst r" and s' = "snd r"] link_deliver(4)
  show ?thesis by (intro link_ok_receiver [OF ok]) (simp_all add: link_deliver(1))
next
  case (link_read_failed r)
  then show ?thesis
    using stream_ok_read_side [OF link_ok_stream [OF ok] read_only_receiver [of fw _ "fst r" "snd r"]]
    by (intro link_ok_receiver [OF ok]) simp_all
next
  case (link_receiver w)
  then show ?thesis
    using stream_ok_read_side [OF link_ok_stream [OF ok], of "w_session w"] read_side_step [OF link_receiver(2)]
    by (intro link_ok_receiver [OF ok]) simp_all
qed

section \<open>Draining the connection\<close>

text \<open>The sender's queue empties: every completed write starts the next one.\<close>

lemma written_step:
  assumes fifo: "fifo_spec wq view" and ok: "world_write_ok view w" and act: "actived (w_session w)"
    and more: "view (m_writeQueue (w_session w)) \<noteq> []"
  shows "\<exists>w'. sess_step fw wq w w' \<and> actived (w_session w') \<and> w_accepted w' = w_accepted w \<and>
    w_calls w' = w_calls w \<and> view (m_writeQueue (w_session w')) = tl (view (m_writeQueue (w_session w)))"
proof -
  let ?s = "w_session w"
  obtain b where b: "w_flight w = [b]" and writing: "m_writing ?s"
    using ok act more by (auto simp: write_ok_def neq_Nil_conv)
  have q: "\<not> wq_empty wq (m_writeQueue ?s)" "view (wq_pop wq (m_writeQueue ?s)) = tl (view (m_writeQueue ?s))"
    using fifo more by (simp_all add: fifo_spec_def)
  let ?s' = "?s\<lparr>m_writing := True, m_writeQueue := wq_pop wq (m_writeQueue ?s)\<rparr>"
  obtain es where "session_onWrite wq False ?s = Inr (es, ?s')"
    using act writing q(1) by (auto simp: session_onWrite_def session_write_def actived_def Let_def)
  from step_written [OF b this, of fw] act q(2) show ?thesis
    by (intro exI [of _ "apply_result (es, ?s') (w\<lparr>w_flight := []\<rparr>)"]) (simp add: actived_def)
qed

lemma drain_sender:
  assumes fifo: "fifo_spec wq view" and crop: "crop_spec fw"
  shows "link_ok fw view l \<Longrightarrow> actived (w_session (lk_sender l)) \<Longrightarrow> \<exists>l'. link_steps fw wq l l' \<and>
    lk_sent l' = lk_sent l \<and> lk_receiver l' = lk_receiver l \<and> actived (w_session (lk_sender l')) \<and>
    view (m_writeQueue (w_session (lk_sender l'))) = []"
proof (induction "length (view (m_writeQueue (w_session (lk_sender l))))" arbitrary: l)
  case 0
  then show ?case by (intro exI [of _ l]) (simp add: steps_refl)
next
  case (Suc n)
  have "world_write_ok view (lk_sender l)" by (rule link_ok_write [OF Suc.prems(1)])
  moreover have "view (m_writeQueue (w_session (lk_sender l))) \<noteq> []" using Suc.hyps(2) by auto
  ultimately obtain w where w: "sess_step fw wq (lk_sender l) w" "actived (w_session w)" "w_accepted w = w_accepted (lk_sender l)"
      "view (m_writeQueue (w_session w)) = tl (view (m_writeQueue (w_session (lk_sender l))))"
    using written_step [OF fifo _ Suc.prems(2)] by blast
  let ?l = "l\<lparr>lk_sender := w\<rparr>"
  have step: "link_step fw wq l ?l" by (rule link_step.link_sender [OF w(1,3)])
  have "n = length (view (m_writeQueue (w_session (lk_sender ?l))))" using Suc.hyps(2) w(4) by simp
  from Suc.hyps(1) [OF this link_ok_step [OF fifo crop Suc.prems(1) step]] w(2) obtain l'
    where "link_steps fw wq ?l l'" "lk_sent l' = lk_sent l" "lk_receiver l' = lk_receiver l"
      "actived (w_session (lk_sender l'))" "view (m_writeQueue (w_session (lk_sender l'))) = []" by auto
  with link_steps_trans [OF _ link_steps_one [OF step]] show ?case by blast
qed

text \<open>The receiver asks for bytes and is given all that were written.\<close>

lemma read_rest:
  assumes act: "actived (w_session (lk_receiver l))"
  shows "\<exists>l'. link_steps fw wq l l' \<and> lk_sender l' = lk_sender l \<and> lk_sent l' = lk_sent l \<and>
    lk_got l' = lk_got l \<and> lk_taken l' = lk_taken l \<and> w_session (lk_receiver l') = w_session (lk_receiver l) \<and>
    w_reading (lk_receiver l')"
proof -
  let ?w = "(lk_receiver l)\<lparr>w_reading := False\<rparr>"
  have "session_doRead (w_session ?w) = Inr ([AsyncReadSome], w_session ?w)"
    using act by (simp add: session_doRead_def actived_def)
  from link_receiver [OF step_doRead [OF this]]
  have "link_step fw wq l (l\<lparr>lk_receiver := (apply_result ([AsyncReadSome], w_session ?w) ?w)
      \<lparr>w_reading := w_reading (apply_result ([AsyncReadSome], w_session ?w) ?w) \<or> w_reading (lk_receiver l)\<rparr>\<rparr>)" .
  from link_steps_one [OF this] show ?thesis
    by (rule_tac exI, intro conjI, assumption) (simp_all add: apply_result_def)
qed

lemma link_ok_steps:
  assumes "fifo_spec wq view" and "crop_spec fw"
  shows "link_steps fw wq l l' \<Longrightarrow> link_ok fw view l \<Longrightarrow> link_ok fw view l'"
  by (induction rule: link_steps.induct) (auto intro: link_ok_step [OF assms])

lemma link_ok_initial:
  assumes "fifo_spec wq view" and "view q0 = []"
  shows "link_ok fw view (initial_link q0)"
proof -
  have "world_write_ok view (initial_world True q0)" by (rule write_ok_reach [OF assms reach_init])
  moreover have "m_messageHandler (w_session (initial_world True q0))" "m_data (w_session (initial_world True q0)) = []"
      "w_accepted (initial_world True q0) = []"
    by (simp_all add: initial_world_def session_start_def create_session_def setHost_def Let_def)
  ultimately show ?thesis
    by (simp add: link_ok_def stream_ok_def initial_link_def p2p.pending_def)
qed

text \<open>When the receiver has been given everything, everything has been handed on.\<close>

lemma all_taken:
  assumes crop: "crop_spec fw" and ok: "link_ok fw view l" and "open_session (w_session (lk_receiver l))"
    and "view (m_writeQueue (w_session (lk_sender l))) = []"
    and "lk_taken l = length (concat (w_wire (lk_sender l)))"
  shows "lk_got l = map (wire_normal fw) (lk_sent l)"
proof -
  obtain seen todo where seen: "lk_sent l = seen @ todo"
      "concat (w_wire (lk_sender l)) = concat (map (p2p_enc fw) seen) @ m_data (w_session (lk_receiver l))"
      "framed_codec.pending (p2p_enc fw) (m_data (w_session (lk_receiver l))) todo" "lk_got l = map (wire_normal fw) seen"
    using ok assms(3,5) by (auto simp: link_ok_def stream_ok_def)
  have "concat (map (p2p_enc fw) (lk_sent l)) = concat (w_wire (lk_sender l))"
    using ok assms(4) by (metis append_Nil2 link_ok_def write_ok_def)
  then have "m_data (w_session (lk_receiver l)) = concat (map (p2p_enc fw) todo)" using seen(1,2) by simp
  moreover have "list_all (wire_message fw) todo" using ok seen(1) by (simp add: link_ok_def)
  ultimately have "todo = []" using p2p.pending_all [of fw todo] seen(3) crop by (simp add: list_all_iff)
  with seen(1,4) show ?thesis by simp
qed

section \<open>Properties\<close>


definition link_sent_one :: "bytes list link" where
  "link_sent_one = (initial_link [])\<lparr>lk_sender := world_sent, lk_sent := [example_message]\<rparr>"

lemma link_sent_one_reach: "link_steps example_fw list_queue (initial_link []) link_sent_one"
proof -
  let ?w = "initial_world True ([] :: bytes list)"
  obtain r where r: "asyncSendMessage example_fw list_queue example_message 0 (Some 42) (w_session ?w) = Inr r"
    by (simp add: initial_world_def asyncSendMessage_def session_eval apply_result_def)
  have "actived (w_session ?w)" by (simp add: initial_world_def session_eval apply_result_def)
  moreover have "m_seq example_message \<notin> fst ` set (w_registered ?w)" by (simp add: initial_world_def Let_def)
  ultimately have "link_step example_fw list_queue (initial_link []) link_sent_one"
    using link_send [of "Some 42" example_message "initial_link []" example_fw list_queue 0 r] r example_message_wire
    by (simp add: initial_link_def link_sent_one_def world_sent_def)
  then show ?thesis by (rule link_steps_one)
qed


end
