(* ===== verification/Session_Network.thy ===== *)
theory Session_Network
  imports Node_Network Session_Link
begin

text \<open>
  Any number of gateways whose node managers gossip over real sessions: the packets are messages of
  \<open>P2PMessage\<close>, sent with \<open>Session::asyncSendMessage\<close>, cut into chunks on the connection, reassembled
  by \<open>doRead\<close>, queued as jobs of the thread pool and only then given to \<open>Service::onMessage\<close>. The
  network of \<open>Node_Network\<close>, where packets just travel, is an abstraction of this one: every run here
  is matched by a run there, so what is proved of it holds here.
\<close>

section \<open>Gateways and their sessions\<close>

text \<open>
  \<open>sn_world n p q\<close> is p's end of its session with q; \<open>sn_taken\<close>, \<open>sn_sent\<close> and \<open>sn_got\<close> at \<open>p q\<close> are
  those of the direction from p to q, as in \<open>link\<close>. \<open>sn_late n p q\<close> are jobs of earlier sessions of p
  with q that the thread pool has not run yet.
\<close>

record ('q, 'key) session_net =
  sn_nm :: "p2pid \<Rightarrow> node_manager"
  sn_world :: "p2pid \<Rightarrow> p2pid \<Rightarrow> 'q world"
  sn_taken :: "p2pid \<Rightarrow> p2pid \<Rightarrow> nat"
  sn_sent :: "p2pid \<Rightarrow> p2pid \<Rightarrow> p2p_message list"
  sn_got :: "p2pid \<Rightarrow> p2pid \<Rightarrow> p2p_message list"
  sn_late :: "p2pid \<Rightarrow> p2pid \<Rightarrow> session_job list"
  sn_history :: "p2pid \<Rightarrow> 'key local_op list"

definition upd2 :: "'a \<Rightarrow> 'b \<Rightarrow> 'c \<Rightarrow> ('a \<Rightarrow> 'b \<Rightarrow> 'c) \<Rightarrow> 'a \<Rightarrow> 'b \<Rightarrow> 'c" where
  "upd2 p q x f = f(p := (f p)(q := x))"

lemma upd2_apply [simp]: "upd2 p q x f a b = (if a = p \<and> b = q then x else f a b)"
  by (simp add: upd2_def)

text \<open>The direction from p to q of their connection.\<close>

definition net_link :: "('q, 'key) session_net \<Rightarrow> p2pid \<Rightarrow> p2pid \<Rightarrow> 'q link" where
  "net_link n p q = \<lparr>lk_sender = sn_world n p q, lk_receiver = sn_world n q p, lk_taken = sn_taken n p q,
     lk_sent = sn_sent n p q, lk_got = sn_got n p q\<rparr>"

definition sn_start :: "'q \<Rightarrow> ('q, 'key) session_net" where
  "sn_start q0 = \<lparr>sn_nm = new_node_manager, sn_world = (\<lambda>_ _. initial_world True q0), sn_taken = (\<lambda>_ _. 0),
     sn_sent = (\<lambda>_ _. []), sn_got = (\<lambda>_ _. []), sn_late = (\<lambda>_ _. []), sn_history = (\<lambda>_. [])\<rparr>"

section \<open>The steps\<close>

text \<open>\<open>asyncSendMessage\<close> of message \<open>m\<close> on p's session with q.\<close>

definition transmit :: "('key, 'more) bcos_fw_scheme \<Rightarrow> 'q write_queue \<Rightarrow> p2pid \<Rightarrow> p2pid \<Rightarrow> p2p_message \<Rightarrow> u32 \<Rightarrow>
    callback option \<Rightarrow> ('q, 'key) session_net \<Rightarrow> ('q, 'key) session_net cpp" where
  "transmit fw wq p q m t cb n =
     (let w = sn_world n p q
      in cpp_bind (asyncSendMessage fw wq m t cb (w_session w)) (\<lambda>r.
           Inr (n\<lparr>sn_world := upd2 p q (apply_result r (sending fw m cb w)) (sn_world n),
                  sn_sent := upd2 p q (sn_sent n p q @ (if actived (w_session w) then [m] else [])) (sn_sent n)\<rparr>)))"

text \<open>
  The packets a handler sends back (there is one at most), with the number \<open>k\<close> the factory gives.
\<close>

fun transmit_all :: "('key, 'more) bcos_fw_scheme \<Rightarrow> 'q write_queue \<Rightarrow> p2pid \<Rightarrow> p2pid \<Rightarrow> u32 \<Rightarrow> (u16 \<times> bytes) list \<Rightarrow>
    ('q, 'key) session_net \<Rightarrow> ('q, 'key) session_net cpp" where
  "transmit_all fw wq p q k [] n = Inr n"
| "transmit_all fw wq p q k ((type, payload) # outs) n =
     cpp_bind (transmit fw wq p q (plain_packet k type payload) 0 None n) (transmit_all fw wq p q k outs)"

text \<open>
  What a call made by a job of q's session with p does to q's node manager: \<open>gossip_receive\<close> for a
  message that arrived, nothing for a callback or the report of an error (what the loss of the
  session does to the routes is \<open>sn_forget\<close>).
\<close>

definition call_handler :: "('key, 'more) bcos_fw_scheme \<Rightarrow> 'j jsonlib \<Rightarrow> p2pid \<Rightarrow> session_call \<Rightarrow> node_manager \<Rightarrow>
    ((u16 \<times> bytes) list \<times> node_manager) option" where
  "call_handler fw jl p call nm =
     (case call of CallHandler e (Some m) \<Rightarrow>
        if ne_code e = 0 then gossip_receive fw jl p (m_packetType m, m_payload m) nm else Some ([], nm)
      | _ \<Rightarrow> Some ([], nm))"

definition gossip_packet :: "('key, 'more) bcos_fw_scheme \<Rightarrow> u16 \<Rightarrow> bool" where
  "gossip_packet fw type \<longleftrightarrow> type \<in> {mtHeartbeat fw, mtRequestNodeIDs fw, mtResponseNodeIDs fw}"

definition fits :: "u16 \<times> bytes \<Rightarrow> bool" where
  "fits packet \<longleftrightarrow> length (snd packet) < 2 ^ 32 - 14"

definition with_job :: "nat \<Rightarrow> session_call \<Rightarrow> 'q session \<Rightarrow> 'q world \<Rightarrow> 'q world" where
  "with_job i call s w = w\<lparr>w_session := s, w_calls := w_calls w @ [call],
     w_jobs := take i (w_jobs w) @ drop (Suc i) (w_jobs w)\<rparr>"

definition still_reading :: "bool \<Rightarrow> 'q world \<Rightarrow> 'q world" where
  "still_reading b w = w\<lparr>w_reading := w_reading w \<or> b\<rparr>"

text \<open>
  A heartbeat carries no number of its own. A session may take any step but a read, a send or a job,
  which are steps here: it is taken as if no read were outstanding. A new connection replaces one
  that is down at both ends.
\<close>

inductive sn_step :: "('key, 'more) bcos_fw_scheme \<Rightarrow> 'j jsonlib \<Rightarrow> 'q write_queue \<Rightarrow> 'q \<Rightarrow> ('q, 'key) session_net \<Rightarrow>
    ('q, 'key) session_net \<Rightarrow> bool"
  for fw jl wq q0 where
  sn_local:
    "node_op_ok fw op \<Longrightarrow>
     sn_step fw jl wq q0 n (n\<lparr>sn_nm := (sn_nm n)(p := local_step fw op (sn_nm n p)),
       sn_history := (sn_history n)(p := sn_history n p @ [op])\<rparr>)"
| sn_heartbeat:
    "p \<noteq> q \<Longrightarrow> transmit fw wq p q (heartbeat_message fw (m_statusSeq (sn_nm n p))) 0 None n = Inr n' \<Longrightarrow>
     sn_step fw jl wq q0 n n'"
| sn_other_message:
    "p \<noteq> q \<Longrightarrow> \<not> gossip_packet fw (m_packetType m) \<Longrightarrow> wire_message fw m \<Longrightarrow>
     cb = None \<or> m_seq m \<notin> fst ` set (w_registered (sn_world n p q)) \<Longrightarrow>
     transmit fw wq p q m t cb n = Inr n' \<Longrightarrow> sn_step fw jl wq q0 n n'"
| sn_session:
    "p \<noteq> q \<Longrightarrow> sess_step fw wq ((sn_world n p q)\<lparr>w_reading := False\<rparr>) w \<Longrightarrow>
     w_accepted w = w_accepted (sn_world n p q) \<Longrightarrow> w_calls w = w_calls (sn_world n p q) \<Longrightarrow>
     sn_step fw jl wq q0 n
       (n\<lparr>sn_world := upd2 p q (still_reading (w_reading (sn_world n p q)) w) (sn_world n)\<rparr>)"
| sn_deliver:
    "p \<noteq> q \<Longrightarrow> w_reading (sn_world n q p) \<Longrightarrow>
     drop (sn_taken n p q) (concat (w_wire (sn_world n p q))) = chunk @ later \<Longrightarrow>
     session_onRead fw False chunk (w_session (sn_world n q p)) = Inr r \<Longrightarrow>
     sn_step fw jl wq q0 n
       (n\<lparr>sn_world := upd2 q p (apply_result r ((sn_world n q p)\<lparr>w_reading := False\<rparr>)) (sn_world n),
          sn_taken := upd2 p q (sn_taken n p q + length chunk) (sn_taken n),
          sn_got := upd2 p q (sn_got n p q @ handed_by (fst r)) (sn_got n)\<rparr>)"
| sn_read_failed:
    "p \<noteq> q \<Longrightarrow> w_reading (sn_world n q p) \<Longrightarrow> session_onRead fw True [] (w_session (sn_world n q p)) = Inr r \<Longrightarrow>
     sn_step fw jl wq q0 n
       (n\<lparr>sn_world := upd2 q p (apply_result r ((sn_world n q p)\<lparr>w_reading := False\<rparr>)) (sn_world n)\<rparr>)"
| sn_job:
    "p \<noteq> q \<Longrightarrow> i < length (w_jobs (sn_world n q p)) \<Longrightarrow>
     run_job (w_jobs (sn_world n q p) ! i) (w_session (sn_world n q p)) = (call, s') \<Longrightarrow>
     call_handler fw jl p call (sn_nm n q) = Some (outs, nm) \<Longrightarrow> list_all fits outs \<Longrightarrow>
     transmit_all fw wq q p k outs
       (n\<lparr>sn_world := upd2 q p (with_job i call s' (sn_world n q p)) (sn_world n), sn_nm := (sn_nm n)(q := nm)\<rparr>) = Inr n' \<Longrightarrow>
     sn_step fw jl wq q0 n n'"
| sn_late_job:
    "p \<noteq> q \<Longrightarrow> i < length (sn_late n q p) \<Longrightarrow> run_job (sn_late n q p ! i) (s :: 'q session) = (call, s') \<Longrightarrow>
     call_handler fw jl p call (sn_nm n q) = Some (outs, nm) \<Longrightarrow>
     sn_step fw jl wq q0 n
       (n\<lparr>sn_late := upd2 q p (take i (sn_late n q p) @ drop (Suc i) (sn_late n q p)) (sn_late n),
          sn_nm := (sn_nm n)(q := nm)\<rparr>)"
| sn_connect:
    "p \<noteq> q \<Longrightarrow> \<not> actived (w_session (sn_world n p q)) \<Longrightarrow> \<not> actived (w_session (sn_world n q p)) \<Longrightarrow>
     sn_step fw jl wq q0 n
       (n\<lparr>sn_late := upd2 p q (sn_late n p q @ w_jobs (sn_world n p q)) (upd2 q p (sn_late n q p @ w_jobs (sn_world n q p)) (sn_late n)),
          sn_world := upd2 p q (initial_world True q0) (upd2 q p (initial_world True q0) (sn_world n)),
          sn_taken := upd2 p q 0 (upd2 q p 0 (sn_taken n)), sn_sent := upd2 p q [] (upd2 q p [] (sn_sent n)),
          sn_got := upd2 p q [] (upd2 q p [] (sn_got n))\<rparr>)"
| sn_forget:
    "sn_step fw jl wq q0 n (n\<lparr>sn_nm := (sn_nm n)(p := forget_peer q (sn_nm n p))\<rparr>)"

inductive sn_steps :: "('key, 'more) bcos_fw_scheme \<Rightarrow> 'j jsonlib \<Rightarrow> 'q write_queue \<Rightarrow> 'q \<Rightarrow> ('q, 'key) session_net \<Rightarrow>
    ('q, 'key) session_net \<Rightarrow> bool"
  for fw jl wq q0 where
  sn_refl: "sn_steps fw jl wq q0 n n"
| sn_more: "sn_steps fw jl wq q0 n n' \<Longrightarrow> sn_step fw jl wq q0 n' n'' \<Longrightarrow> sn_steps fw jl wq q0 n n''"

lemma sn_steps_trans: "sn_steps fw jl wq q0 n' n'' \<Longrightarrow> sn_steps fw jl wq q0 n n' \<Longrightarrow> sn_steps fw jl wq q0 n n''"
  by (induction rule: sn_steps.induct) (auto intro: sn_more)

lemma sn_steps_one: "sn_step fw jl wq q0 n n' \<Longrightarrow> sn_steps fw jl wq q0 n n'"
  by (rule sn_more [OF sn_refl])

section \<open>Every direction is a connection of \<open>Session_Link\<close>\<close>

lemma net_link_simps [simp]:
  "lk_sender (net_link n p q) = sn_world n p q" "lk_receiver (net_link n p q) = sn_world n q p"
  "lk_taken (net_link n p q) = sn_taken n p q" "lk_sent (net_link n p q) = sn_sent n p q"
  "lk_got (net_link n p q) = sn_got n p q"
  by (simp_all add: net_link_def)

text \<open>A step that does not read is one whatever read is outstanding.\<close>

lemma still_reading_simps [simp]:
  "still_reading b (w\<lparr>w_session := s\<rparr>) = (still_reading b w)\<lparr>w_session := s\<rparr>"
  "w_session (still_reading b w) = w_session w" "w_jobs (still_reading b w) = w_jobs w"
  "w_accepted (still_reading b w) = w_accepted w" "w_calls (still_reading b w) = w_calls w"
  "w_wire (still_reading b w) = w_wire w"
  "w_reading (still_reading b w) = (w_reading w \<or> b)"
  by (simp_all add: still_reading_def)

lemma still_reading_True: "w_reading w \<Longrightarrow> still_reading b w = w"
  by (cases w) (simp add: still_reading_def)

lemma still_reading_same: "still_reading (w_reading w) (w\<lparr>w_reading := False\<rparr>) = w"
  by (cases w) (simp add: still_reading_def)

lemma apply_effects_reads: "w_reading w \<Longrightarrow> w_reading (fold apply_effect es w)"
proof (induction es arbitrary: w)
  case (Cons e es)
  then have "w_reading (apply_effect e w)" by (cases e) simp_all
  with Cons.IH show ?case by simp
qed simp

lemma apply_effects_reading:
  "still_reading (w_reading w) (fold apply_effect es (w\<lparr>w_reading := False\<rparr>)) = fold apply_effect es w"
proof (induction es arbitrary: w)
  case Nil
  show ?case by (simp add: still_reading_same)
next
  case (Cons e es)
  show ?case
  proof (cases "e = AsyncReadSome")
    case True
    then show ?thesis by (simp add: still_reading_True apply_effects_reads)
  next
    case False
    then have "apply_effect e (w\<lparr>w_reading := False\<rparr>) = (apply_effect e w)\<lparr>w_reading := False\<rparr>"
        "w_reading (apply_effect e w) = w_reading w" by (cases e; simp)+
    with Cons.IH [of "apply_effect e w"] show ?thesis by simp
  qed
qed

lemma apply_result_reading: "still_reading (w_reading w) (apply_result r (w\<lparr>w_reading := False\<rparr>)) = apply_result r w"
  by (simp add: apply_result_def apply_effects_reading)

lemma reading_swap:
  "w\<lparr>w_reading := b, w_flight := fl\<rparr> = w\<lparr>w_flight := fl, w_reading := b\<rparr>"
  "w\<lparr>w_reading := b, w_timers := ts\<rparr> = w\<lparr>w_timers := ts, w_reading := b\<rparr>"
  "w\<lparr>w_reading := b, w_accepted := a, w_registered := cbs\<rparr> = w\<lparr>w_accepted := a, w_registered := cbs, w_reading := b\<rparr>"
  by simp_all

lemma sending_reading:
  "sending fw m cb (w\<lparr>w_reading := b\<rparr>) = (sending fw m cb w)\<lparr>w_reading := b\<rparr>"
  "w_reading (sending fw m cb w) = w_reading w"
proof -
  show "sending fw m cb (w\<lparr>w_reading := b\<rparr>) = (sending fw m cb w)\<lparr>w_reading := b\<rparr>"
    by (cases "actived (w_session w)"; cases cb) (simp_all add: sending_def reading_swap(3))
qed (simp add: sending_def)

lemma sess_step_reading:
  assumes "sess_step fw wq (w\<lparr>w_reading := False\<rparr>) w'"
  shows "sess_step fw wq w (still_reading (w_reading w) w')"
  using assms
proof (cases rule: sess_step.cases)
  case (step_send cb m t r)
  then show ?thesis using apply_result_reading [of "sending fw m cb w" r] sess_step.step_send [of cb m w fw wq t r]
    by (simp add: sending_reading)
next
  case (step_written b rest ec r)
  then show ?thesis using apply_result_reading [of "w\<lparr>w_flight := rest\<rparr>" r] sess_step.step_written [of w b rest wq ec r fw]
    by (simp add: reading_swap)
next
  case (step_doRead r)
  then show ?thesis using apply_result_reading [of w r] sess_step.step_doRead [of w r fw wq] by simp
next
  case (step_timer seq)
  then show ?thesis
    using apply_result_reading [of "w\<lparr>w_timers := removeAll seq (w_timers w)\<rparr>" "(session_onTimeout False seq (w_session w), w_session w)"]
      sess_step.step_timer [of seq w fw wq] by (simp add: reading_swap)
next
  case (step_job i call s')
  then have "still_reading (w_reading w) w' = w\<lparr>w_session := s', w_calls := w_calls w @ [call],
      w_jobs := take i (w_jobs w) @ drop (Suc i) (w_jobs w)\<rparr>"
    by (cases w) (simp add: still_reading_def)
  with step_job sess_step.step_job [of i w call s' fw wq] show ?thesis by simp
next
  case (step_disconnect reason r)
  then show ?thesis using apply_result_reading [of w r] sess_step.step_disconnect [of reason w r fw wq] by simp
next
  case (step_idle aborted r)
  then show ?thesis using apply_result_reading [of w r] sess_step.step_idle [of aborted w r fw wq] by simp
next
  case step_network_down
  then have "still_reading (w_reading w) w' = w\<lparr>w_session := (w_session w)\<lparr>m_server := Some False\<rparr>\<rparr>"
    by (cases w) (simp add: still_reading_def)
  with sess_step.step_network_down [of fw wq w] show ?thesis by simp
next
  case step_socket_closed
  then have "still_reading (w_reading w) w' = w\<lparr>w_session := (w_session w)\<lparr>m_socketConnected := False\<rparr>\<rparr>"
    by (cases w) (simp add: still_reading_def)
  with sess_step.step_socket_closed [of fw wq w] show ?thesis by simp
qed simp


lemma upd2_other: "(a, b) \<noteq> (p, q) \<Longrightarrow> upd2 p q x f a b = f a b"
  by auto

lemma net_link_other:
  assumes "(a, b) \<noteq> (p, q)" and "(a, b) \<noteq> (q, p)"
    and "sn_world n' = upd2 p q w (sn_world n)" and "sn_sent n' a b = sn_sent n a b"
    and "sn_taken n' a b = sn_taken n a b" and "sn_got n' a b = sn_got n a b"
  shows "net_link n' a b = net_link n a b"
proof -
  have "(b, a) \<noteq> (p, q)" using assms(2) by blast
  then show ?thesis by (simp add: net_link_def assms(3-6) upd2_other [OF assms(1)] upd2_other del: upd2_apply)
qed

lemma links_at:
  assumes "link_step fw wq (net_link n p q) (net_link n' p q)" and "link_step fw wq (net_link n q p) (net_link n' q p)"
    and "(a, b) \<noteq> (p, q) \<Longrightarrow> (a, b) \<noteq> (q, p) \<Longrightarrow> net_link n' a b = net_link n a b"
  shows "link_steps fw wq (net_link n a b) (net_link n' a b)"
proof -
  consider "a = p" "b = q" | "a = q" "b = p" | "(a, b) \<noteq> (p, q)" "(a, b) \<noteq> (q, p)" by auto
  then show ?thesis
    by cases (simp_all add: link_steps_one assms(1,2) assms(3) steps_refl)
qed

text \<open>A send, on the direction it goes and on the other.\<close>

lemma transmit_Inr:
  assumes "transmit fw wq p q m t cb n = Inr n'"
  obtains r where "asyncSendMessage fw wq m t cb (w_session (sn_world n p q)) = Inr r"
    and "n' = n\<lparr>sn_world := upd2 p q (apply_result r (sending fw m cb (sn_world n p q))) (sn_world n),
       sn_sent := upd2 p q (sn_sent n p q @ (if actived (w_session (sn_world n p q)) then [m] else [])) (sn_sent n)\<rparr>"
  using assms by (auto simp: transmit_def Let_def cpp_bind_eq_Inr)

lemma transmit_links:
  assumes run: "transmit fw wq p q m t cb n = Inr n'" and "p \<noteq> q" and wire: "wire_message fw m"
    and fresh: "cb = None \<or> m_seq m \<notin> fst ` set (w_registered (sn_world n p q))" and "a \<noteq> b"
  shows "link_steps fw wq (net_link n a b) (net_link n' a b)"
proof -
  obtain r where r: "asyncSendMessage fw wq m t cb (w_session (sn_world n p q)) = Inr r"
    and n': "n' = n\<lparr>sn_world := upd2 p q (apply_result r (sending fw m cb (sn_world n p q))) (sn_world n),
       sn_sent := upd2 p q (sn_sent n p q @ (if actived (w_session (sn_world n p q)) then [m] else [])) (sn_sent n)\<rparr>"
    using run by (rule transmit_Inr)
  let ?w = "sn_world n p q"
  have forth: "link_step fw wq (net_link n p q) (net_link n' p q)"
  proof -
    have "net_link n' p q = (net_link n p q)\<lparr>lk_sender := apply_result r (sending fw m cb ?w),
        lk_sent := sn_sent n p q @ (if actived (w_session ?w) then [m] else [])\<rparr>"
      using \<open>p \<noteq> q\<close> by (simp add: net_link_def n')
    then show ?thesis using link_send [of cb m "net_link n p q" fw wq t r] fresh wire r by simp
  qed
  have reverse: "link_step fw wq (net_link n q p) (net_link n' q p)"
  proof -
    let ?w' = "apply_result r (sending fw m cb (?w\<lparr>w_reading := False\<rparr>))"
    have "sess_step fw wq (?w\<lparr>w_reading := False\<rparr>) ?w'"
      using sess_step.step_send [of cb m "?w\<lparr>w_reading := False\<rparr>" fw wq t r] fresh r by simp
    moreover have "still_reading (w_reading ?w) ?w' = apply_result r (sending fw m cb ?w)"
      using apply_result_reading [of "sending fw m cb ?w" r] by (simp add: sending_reading)
    then have "net_link n' q p = (net_link n q p)\<lparr>lk_receiver := ?w'\<lparr>w_reading := w_reading ?w' \<or> w_reading ?w\<rparr>\<rparr>"
      using \<open>p \<noteq> q\<close> by (simp add: net_link_def n' still_reading_def)
    ultimately show ?thesis using link_receiver [of fw wq "net_link n q p" ?w'] by simp
  qed
  have "net_link n' a b = net_link n a b" if "(a, b) \<noteq> (p, q)" "(a, b) \<noteq> (q, p)"
    by (rule net_link_other [OF that]) (simp_all add: n' upd2_other [OF that(1)] del: upd2_apply)
  then show ?thesis by (rule links_at [OF forth reverse])
qed

lemma transmit_all_links:
  assumes "transmit_all fw wq p q k outs n = Inr n'" and "p \<noteq> q" and "list_all fits outs" and "a \<noteq> b"
    and "list_all (\<lambda>out. fst out \<noteq> mtPeerToPeerMessage fw \<and> fst out \<noteq> mtBroadcastMessage fw) outs"
  shows "link_steps fw wq (net_link n a b) (net_link n' a b)"
  using assms
proof (induction outs arbitrary: n)
  case Nil
  then show ?case by (simp add: steps_refl)
next
  case (Cons out outs)
  obtain type payload where out: "out = (type, payload)" by fastforce
  obtain n1 where n1: "transmit fw wq p q (plain_packet k type payload) 0 None n = Inr n1" "transmit_all fw wq p q k outs n1 = Inr n'"
    using Cons.prems(1) by (auto simp: out cpp_bind_eq_Inr)
  have "wire_message fw (plain_packet k type payload)"
    using Cons.prems(3,5) by (intro plain_packet_wire) (simp_all add: out fits_def)
  from transmit_links [OF n1(1) Cons.prems(2) this _ Cons.prems(4)]
  show ?case using Cons.IH [OF n1(2) Cons.prems(2) _ Cons.prems(4)] Cons.prems(3,5) by (auto intro: link_steps_trans)
qed

text \<open>A step of one session, on the direction it sends and on the one it receives.\<close>

lemma session_links:
  assumes step: "sess_step fw wq ((sn_world n p q)\<lparr>w_reading := False\<rparr>) w" and acc: "w_accepted w = w_accepted (sn_world n p q)"
    and n': "sn_world n' = upd2 p q (still_reading (w_reading (sn_world n p q)) w) (sn_world n)"
      "sn_taken n' = sn_taken n" "sn_sent n' = sn_sent n" "sn_got n' = sn_got n" and "p \<noteq> q"
  shows "link_steps fw wq (net_link n a b) (net_link n' a b)"
proof -
  let ?w = "sn_world n p q"
  have forth: "link_step fw wq (net_link n p q) (net_link n' p q)"
  proof -
    have "net_link n' p q = (net_link n p q)\<lparr>lk_sender := still_reading (w_reading ?w) w\<rparr>"
      using \<open>p \<noteq> q\<close> by (simp add: net_link_def n')
    then show ?thesis
      using link_sender [of fw wq "net_link n p q" "still_reading (w_reading ?w) w"] sess_step_reading [OF step] acc by simp
  qed
  have reverse: "link_step fw wq (net_link n q p) (net_link n' q p)"
  proof -
    have "net_link n' q p = (net_link n q p)\<lparr>lk_receiver := w\<lparr>w_reading := w_reading w \<or> w_reading ?w\<rparr>\<rparr>"
      using \<open>p \<noteq> q\<close> by (simp add: net_link_def n' still_reading_def)
    then show ?thesis using link_receiver [of fw wq "net_link n q p" w] step by simp
  qed
  have "net_link n' a b = net_link n a b" if "(a, b) \<noteq> (p, q)" "(a, b) \<noteq> (q, p)"
    by (rule net_link_other [OF that]) (simp_all add: n' upd2_other [OF that(1)] del: upd2_apply)
  then show ?thesis by (rule links_at [OF forth reverse])
qed

lemma job_step:
  assumes "i < length (w_jobs w)" and "run_job (w_jobs w ! i) (w_session w) = (call, s')"
  shows "sess_step fw wq (w\<lparr>w_reading := False\<rparr>) ((with_job i call s' w)\<lparr>w_reading := False\<rparr>)"
    and "still_reading (w_reading w) ((with_job i call s' w)\<lparr>w_reading := False\<rparr>) = with_job i call s' w"
proof -
  show "sess_step fw wq (w\<lparr>w_reading := False\<rparr>) ((with_job i call s' w)\<lparr>w_reading := False\<rparr>)"
    using sess_step.step_job [of i "w\<lparr>w_reading := False\<rparr>" call s' fw wq] assms by (cases w) (simp add: with_job_def)
  show "still_reading (w_reading w) ((with_job i call s' w)\<lparr>w_reading := False\<rparr>) = with_job i call s' w"
    by (cases w) (simp add: still_reading_def with_job_def)
qed

text \<open>A read of q from p, on the direction from p and on the one from q.\<close>

lemma read_links:
  assumes "p \<noteq> q" and forth: "link_step fw wq (net_link n p q) (net_link n' p q)"
    and reading: "w_reading (sn_world n q p)" and read: "session_onRead fw ec chunk (w_session (sn_world n q p)) = Inr r"
    and n': "sn_world n' = upd2 q p (apply_result r ((sn_world n q p)\<lparr>w_reading := False\<rparr>)) (sn_world n)"
      "sn_sent n' = sn_sent n" "\<And>a b. (a, b) \<noteq> (p, q) \<Longrightarrow> sn_taken n' a b = sn_taken n a b \<and> sn_got n' a b = sn_got n a b"
  shows "link_steps fw wq (net_link n a b) (net_link n' a b)"
proof -
  have reverse: "link_step fw wq (net_link n q p) (net_link n' q p)"
  proof -
    have "net_link n' q p = (net_link n q p)\<lparr>lk_sender := apply_result r ((sn_world n q p)\<lparr>w_reading := False\<rparr>)\<rparr>"
      using \<open>p \<noteq> q\<close> n'(3) [of q p] by (simp add: net_link_def n'(1,2))
    then show ?thesis
      using link_sender [of fw wq "net_link n q p" "apply_result r ((sn_world n q p)\<lparr>w_reading := False\<rparr>)"]
        sess_step.step_read [OF _ read] reading by simp
  qed
  have "net_link n' a b = net_link n a b" if "(a, b) \<noteq> (p, q)" "(a, b) \<noteq> (q, p)"
    using that n'(3) [OF that(1)] by (intro net_link_other [OF that(2,1) n'(1)]) (simp_all add: n'(2))
  then show ?thesis by (rule links_at [OF forth reverse])
qed


text \<open>A packet the node manager sends back is one of the gossip.\<close>

lemma gossip_types_not_sent:
  assumes "types_spec fw" and "gossip_packet fw type"
  shows "type \<noteq> mtPeerToPeerMessage fw" and "type \<noteq> mtBroadcastMessage fw"
  using gossip_types [OF assms(1)] assms(2) by (auto simp: gossip_packet_def)

lemma call_handler_outs:
  "call_handler fw jl p call nm = Some (outs, nm') \<Longrightarrow> list_all (\<lambda>out. gossip_packet fw (fst out)) outs"
  by (auto simp: call_handler_def gossip_receive_def gossip_packet_def Let_def
      split: session_call.splits option.splits if_splits sum.splits)

lemma heartbeat_wire: "types_spec fw \<Longrightarrow> wire_message fw (heartbeat_message fw k)"
  using plain_packet_wire [of "mtHeartbeat fw" fw "be32 k" 0] gossip_types(1) [of fw] by (simp add: plain_packet_eq)

text \<open>In every step each direction makes steps of \<open>Session_Link\<close>, or is a new connection.\<close>

lemma sn_step_links:
  assumes types: "types_spec fw" and step: "sn_step fw jl wq q0 n n'" and "a \<noteq> b"
  shows "link_steps fw wq (net_link n a b) (net_link n' a b) \<or> net_link n' a b = initial_link q0"
  using step
proof (cases rule: sn_step.cases)
  case (sn_local op p)
  then have "net_link n' a b = net_link n a b" by (simp add: net_link_def)
  then show ?thesis by (simp add: steps_refl)
next
  case (sn_heartbeat p q)
  from transmit_links [OF sn_heartbeat(2,1) heartbeat_wire [OF types] _ \<open>a \<noteq> b\<close>] show ?thesis by blast
next
  case (sn_other_message p q m cb t)
  from transmit_links [OF sn_other_message(5,1,3,4) \<open>a \<noteq> b\<close>] show ?thesis by blast
next
  case (sn_session p q w)
  have "link_steps fw wq (net_link n a b) (net_link n' a b)"
    by (rule session_links [OF sn_session(3,4) _ _ _ _ sn_session(2)]) (simp_all add: sn_session(1))
  then show ?thesis ..
next
  case (sn_deliver p q chunk later r)
  have forth: "link_step fw wq (net_link n p q) (net_link n' p q)"
  proof -
    have "net_link n' p q = (net_link n p q)\<lparr>lk_receiver := apply_result r ((sn_world n q p)\<lparr>w_reading := False\<rparr>),
        lk_taken := sn_taken n p q + length chunk, lk_got := sn_got n p q @ handed_by (fst r)\<rparr>"
      using sn_deliver(2) by (simp add: net_link_def sn_deliver(1))
    then show ?thesis using link_deliver [of "net_link n p q" chunk later fw r wq] sn_deliver(3-5) by simp
  qed
  have "link_steps fw wq (net_link n a b) (net_link n' a b)"
    by (rule read_links [OF sn_deliver(2) forth sn_deliver(3,5)]) (auto simp: sn_deliver(1))
  then show ?thesis ..
next
  case (sn_read_failed p q r)
  have forth: "link_step fw wq (net_link n p q) (net_link n' p q)"
  proof -
    have "net_link n' p q = (net_link n p q)\<lparr>lk_receiver := apply_result r ((sn_world n q p)\<lparr>w_reading := False\<rparr>)\<rparr>"
      using sn_read_failed(2) by (simp add: net_link_def sn_read_failed(1))
    then show ?thesis using link_read_failed [of "net_link n p q" fw r wq] sn_read_failed(3,4) by simp
  qed
  have "link_steps fw wq (net_link n a b) (net_link n' a b)"
    by (rule read_links [OF sn_read_failed(2) forth sn_read_failed(3,4)]) (auto simp: sn_read_failed(1))
  then show ?thesis ..
next
  case (sn_job p q i call s' outs nm k)
  let ?w = "with_job i call s' (sn_world n q p)"
  let ?n = "n\<lparr>sn_world := upd2 q p ?w (sn_world n), sn_nm := (sn_nm n)(q := nm)\<rparr>"
  note job = job_step [OF sn_job(2,3)]
  have acc: "w_accepted (?w\<lparr>w_reading := False\<rparr>) = w_accepted (sn_world n q p)" by (simp add: with_job_def)
  have "link_steps fw wq (net_link n a b) (net_link ?n a b)"
    by (rule session_links [OF job(1) acc]) (use sn_job(1) job(2) in auto)
  moreover have "list_all (\<lambda>out. fst out \<noteq> mtPeerToPeerMessage fw \<and> fst out \<noteq> mtBroadcastMessage fw) outs"
    using call_handler_outs [OF sn_job(4)] gossip_types_not_sent [OF types] by (auto simp: list_all_iff)
  then have "link_steps fw wq (net_link ?n a b) (net_link n' a b)"
    using transmit_all_links [OF sn_job(6) _ sn_job(5) \<open>a \<noteq> b\<close>] sn_job(1) by blast
  ultimately show ?thesis using link_steps_trans by blast
next
  case (sn_late_job p q i s call s' outs nm)
  then have "net_link n' a b = net_link n a b" by (simp add: net_link_def)
  then show ?thesis by (simp add: steps_refl)
next
  case (sn_connect p q)
  show ?thesis
  proof (cases "(a, b) = (p, q) \<or> (a, b) = (q, p)")
    case True
    then have "net_link n' a b = initial_link q0" using sn_connect(2) by (auto simp: net_link_def initial_link_def sn_connect(1))
    then show ?thesis ..
  next
    case False
    then have "(a, b) \<noteq> (p, q)" "(a, b) \<noteq> (q, p)" "(b, a) \<noteq> (p, q)" "(b, a) \<noteq> (q, p)" by blast+
    note other = this [THEN upd2_other]
    have "net_link n' a b = net_link n a b" by (simp add: net_link_def sn_connect(1) other del: upd2_apply)
    then show ?thesis by (simp add: steps_refl)
  qed
next
  case (sn_forget p q)
  then have "net_link n' a b = net_link n a b" by (simp add: net_link_def)
  then show ?thesis by (simp add: steps_refl)
qed

definition links_ok :: "('key, 'more) bcos_fw_scheme \<Rightarrow> ('q \<Rightarrow> bytes list) \<Rightarrow> ('q, 'k) session_net \<Rightarrow> bool" where
  "links_ok fw view n \<longleftrightarrow> (\<forall>p q. p \<noteq> q \<longrightarrow> link_ok fw view (net_link n p q))"

lemma links_ok_step:
  assumes "fifo_spec wq view" and "view q0 = []" and "crop_spec fw" and "types_spec fw"
    and "links_ok fw view n" and "sn_step fw jl wq q0 n n'"
  shows "links_ok fw view n'"
  using sn_step_links [OF assms(4,6)] link_ok_steps [OF assms(1,3)] link_ok_initial [OF assms(1,2), of fw] assms(5)
  unfolding links_ok_def by metis


section \<open>Packets that may still arrive\<close>

text \<open>
  Of the messages p sent to q on their connection or an earlier one, those whose gossip packets q's
  node manager may still be given: not yet handed on, or in a job that has not run.
\<close>

definition packet_of :: "p2p_message \<Rightarrow> u16 \<times> bytes" where
  "packet_of m = (m_packetType m, m_payload m)"

definition tracked :: "('key, 'more) bcos_fw_scheme \<Rightarrow> p2p_message list \<Rightarrow> (u16 \<times> bytes) multiset" where
  "tracked fw ms = filter_mset (\<lambda>pk. gossip_packet fw (fst pk)) (image_mset packet_of (mset ms))"

definition in_jobs :: "session_job list \<Rightarrow> p2p_message list" where
  "in_jobs jobs = concat (map handed jobs)"

definition waiting :: "('key, 'more) bcos_fw_scheme \<Rightarrow> ('q, 'k) session_net \<Rightarrow> p2pid \<Rightarrow> p2pid \<Rightarrow> (u16 \<times> bytes) multiset" where
  "waiting fw n p q = tracked fw (drop (length (sn_got n p q)) (sn_sent n p q)) +
     tracked fw (in_jobs (w_jobs (sn_world n q p))) + tracked fw (in_jobs (sn_late n q p))"

lemma tracked_simps [simp]:
  "tracked fw [] = {#}" "tracked fw (ms @ ms') = tracked fw ms + tracked fw ms'"
  "tracked fw (map (wire_normal fw) ms) = tracked fw ms"
proof -
  have "packet_of (wire_normal fw m) = packet_of m" for m by (simp add: packet_of_def wire_normal_def)
  then show "tracked fw (map (wire_normal fw) ms) = tracked fw ms" by (simp add: tracked_def multiset.map_comp comp_def)
qed (simp_all add: tracked_def)

lemma tracked_one: "tracked fw [m] = (if gossip_packet fw (m_packetType m) then {#packet_of m#} else {#})"
  by (simp add: tracked_def packet_of_def)

lemma in_jobs_simps [simp]: "in_jobs [] = []" "in_jobs (js @ js') = in_jobs js @ in_jobs js'" "in_jobs (j # js) = handed j @ in_jobs js"
  by (simp_all add: in_jobs_def)

lemma in_jobs_effects: "in_jobs (jobs_of es) = handed_by es"
  by (simp add: in_jobs_def handed_by_def)

lemma in_jobs_run:
  assumes "i < length js"
  shows "tracked fw (in_jobs js) = tracked fw (handed (js ! i)) + tracked fw (in_jobs (take i js @ drop (Suc i) js))"
proof -
  have "in_jobs js = in_jobs (take i js) @ handed (js ! i) @ in_jobs (drop (Suc i) js)"
    using arg_cong [OF id_take_nth_drop [OF assms], of in_jobs] by simp
  then show ?thesis by simp
qed

text \<open>No operation but a read makes a job with a message.\<close>

lemma handed_by_write: "session_write wq s = Inr (es, s') \<Longrightarrow> handed_by es = []"
  by (auto simp: session_write_def Let_def split: if_splits dest: handed_by_drop)

lemma handed_by_asyncSend: "asyncSendMessage fw wq m t cb s = Inr (es, s') \<Longrightarrow> handed_by es = []"
  by (auto simp: asyncSendMessage_def cpp_bind_eq_Inr session_send_def split: if_splits option.splits dest: handed_by_write)

lemma handed_by_onWrite: "session_onWrite wq ec s = Inr (es, s') \<Longrightarrow> handed_by es = []"
  by (auto simp: session_onWrite_def Let_def cpp_bind_eq_Inr split: if_splits dest: handed_by_write handed_by_drop)

lemma handed_by_idle_timer: "session_onIdle aborted s = Inr (es, s') \<Longrightarrow> handed_by es = []"
  by (auto simp: session_onIdle_def split: if_splits dest: handed_by_drop)

lemma handed_by_timeout: "handed_by (session_onTimeout e seq s) = []"
  by (simp add: session_onTimeout_def split: option.split)

lemma quiet_jobs:
  assumes "sess_step fw wq w w'" and "\<not> w_reading w" and "w_calls w' = w_calls w"
  shows "in_jobs (w_jobs w') = in_jobs (w_jobs w)"
  using assms
proof (cases rule: sess_step.cases)
  case (step_send cb m t r)
  then show ?thesis
    using handed_by_asyncSend [of fw wq m t cb "w_session w" "fst r" "snd r"] by (simp add: in_jobs_effects sending_def)
next
  case (step_written b rest ec r)
  then show ?thesis using handed_by_onWrite [of wq ec "w_session w" "fst r" "snd r"] by (simp add: in_jobs_effects)
next
  case (step_doRead r)
  then show ?thesis using handed_by_doRead [of "w_session w" "fst r" "snd r"] by (simp add: in_jobs_effects)
next
  case (step_timer seq)
  then show ?thesis by (simp add: in_jobs_effects handed_by_timeout)
next
  case (step_disconnect reason r)
  then show ?thesis using handed_by_drop [of reason "w_session w" "fst r" "snd r"] by (simp add: in_jobs_effects session_disconnect_def)
next
  case (step_idle aborted r)
  then show ?thesis using handed_by_idle_timer [of aborted "w_session w" "fst r" "snd r"] by (simp add: in_jobs_effects)
qed simp_all

lemma transmit_waiting:
  assumes "transmit fw wq p q m t cb n = Inr n'"
  shows "waiting fw n' a b \<subseteq># waiting fw n a b + (if (a, b) = (p, q) then tracked fw [m] else {#})"
    and "sn_nm n' = sn_nm n" and "sn_history n' = sn_history n"
proof -
  obtain r where r: "asyncSendMessage fw wq m t cb (w_session (sn_world n p q)) = Inr r"
    and n': "n' = n\<lparr>sn_world := upd2 p q (apply_result r (sending fw m cb (sn_world n p q))) (sn_world n),
       sn_sent := upd2 p q (sn_sent n p q @ (if actived (w_session (sn_world n p q)) then [m] else [])) (sn_sent n)\<rparr>"
    using assms by (rule transmit_Inr)
  show "sn_nm n' = sn_nm n" and "sn_history n' = sn_history n" by (simp_all add: n')
  have "in_jobs (w_jobs (apply_result r (sending fw m cb (sn_world n p q)))) = in_jobs (w_jobs (sn_world n p q))"
    using handed_by_asyncSend [of fw wq m t cb "w_session (sn_world n p q)" "fst r" "snd r"] r
    by (simp add: in_jobs_effects sending_def)
  then have jobs: "in_jobs (w_jobs (sn_world n' b a)) = in_jobs (w_jobs (sn_world n b a))" by (simp add: n')
  have sent: "tracked fw (drop (length (sn_got n' a b)) (sn_sent n' a b)) \<subseteq>#
      tracked fw (drop (length (sn_got n a b)) (sn_sent n a b)) + (if (a, b) = (p, q) then tracked fw [m] else {#})"
    by (cases "length (sn_got n p q) \<le> length (sn_sent n p q)") (simp_all add: n' tracked_one)
  show "waiting fw n' a b \<subseteq># waiting fw n a b + (if (a, b) = (p, q) then tracked fw [m] else {#})"
    using sent unfolding waiting_def jobs by (simp add: n' ac_simps)
qed

end
