(* ===== verification/Session_Gossip.thy ===== *)
theory Session_Gossip
  imports Session_Network
begin

text \<open>
  The gossip of node ids over sessions: the network of sessions refines the network of packets, so
  equal sequence numbers mean equal tables there too; and it can get in step over any two sessions
  that are active.
\<close>

section \<open>The network of packets as the abstraction\<close>

definition on_wire :: "'key node_network \<Rightarrow> p2pid \<Rightarrow> p2pid \<Rightarrow> (u16 \<times> bytes) multiset" where
  "on_wire a p q = image_mset (\<lambda>x. snd (snd x)) (filter_mset (\<lambda>x. fst x = p \<and> fst (snd x) = q) (mset (gn_wire a)))"

text \<open>Every packet that may still arrive over the sessions is on the abstract wire.\<close>

definition covers :: "('key, 'more) bcos_fw_scheme \<Rightarrow> ('q, 'key) session_net \<Rightarrow> 'key node_network \<Rightarrow> bool" where
  "covers fw n a \<longleftrightarrow> gn_state a = sn_nm n \<and> gn_history a = sn_history n \<and>
     (\<forall>p q. p \<noteq> q \<longrightarrow> waiting fw n p q \<subseteq># on_wire a p q)"

lemma coversI:
  assumes "gn_state a = sn_nm n" and "gn_history a = sn_history n"
    and "\<And>p q. p \<noteq> q \<Longrightarrow> waiting fw n p q \<subseteq># on_wire a p q"
  shows "covers fw n a"
  using assms by (simp add: covers_def)

lemma on_wire_simps [simp]:
  "on_wire (a\<lparr>gn_wire := w @ map (\<lambda>out. (p, q, out)) outs\<rparr>) p' q'
     = on_wire (a\<lparr>gn_wire := w\<rparr>) p' q' + (if (p', q') = (p, q) then mset outs else {#})"
  "on_wire (a\<lparr>gn_wire := w @ [(p, q, m)]\<rparr>) p' q' = on_wire (a\<lparr>gn_wire := w\<rparr>) p' q' + (if (p', q') = (p, q) then {#m#} else {#})"
  "on_wire (a\<lparr>gn_state := s, gn_wire := w\<rparr>) p' q' = on_wire (a\<lparr>gn_wire := w\<rparr>) p' q'"
  "on_wire (a\<lparr>gn_state := s, gn_history := h\<rparr>) p' q' = on_wire a p' q'"
  "on_wire (a\<lparr>gn_state := s\<rparr>) p' q' = on_wire a p' q'"
proof -
  have "image_mset (\<lambda>x. snd (snd x)) (filter_mset (\<lambda>x. fst x = p' \<and> fst (snd x) = q') (image_mset (\<lambda>out. (p, q, out)) (mset outs)))
      = (if (p', q') = (p, q) then mset outs else {#})" for outs
    by (induction outs) auto
  note here = this
  show "on_wire (a\<lparr>gn_wire := w @ map (\<lambda>out. (p, q, out)) outs\<rparr>) p' q'
     = on_wire (a\<lparr>gn_wire := w\<rparr>) p' q' + (if (p', q') = (p, q) then mset outs else {#})"
    by (simp add: on_wire_def here)
qed (auto simp: on_wire_def)

lemma on_wire_remove:
  assumes "gn_wire a = before @ (p, q, m) # after"
  shows "on_wire a p' q' = on_wire (a\<lparr>gn_wire := before @ after\<rparr>) p' q' + (if (p', q') = (p, q) then {#m#} else {#})"
  using assms by (auto simp: on_wire_def)

lemma on_wire_split:
  assumes "m \<in># on_wire a p q"
  obtains before after where "gn_wire a = before @ (p, q, m) # after"
proof -
  have "(p, q, m) \<in> set (gn_wire a)" using assms by (auto simp: on_wire_def)
  then show thesis using that by (meson split_list)
qed

section \<open>What a step leaves waiting\<close>

lemma transmit_all_waiting:
  assumes "transmit_all fw wq p q k outs n = Inr n'"
  shows "waiting fw n' a b \<subseteq># waiting fw n a b + (if (a, b) = (p, q) then mset outs else {#})"
    and "sn_nm n' = sn_nm n" and "sn_history n' = sn_history n"
proof -
  have "waiting fw n' a b \<subseteq># waiting fw n a b + (if (a, b) = (p, q) then mset outs else {#}) \<and>
      sn_nm n' = sn_nm n \<and> sn_history n' = sn_history n"
    using assms
  proof (induction outs arbitrary: n)
    case (Cons out outs)
    obtain type payload where out: "out = (type, payload)" by fastforce
    obtain n1 where n1: "transmit fw wq p q (plain_packet k type payload) 0 None n = Inr n1" "transmit_all fw wq p q k outs n1 = Inr n'"
      using Cons.prems by (auto simp: out cpp_bind_eq_Inr)
    have "tracked fw [plain_packet k type payload] \<subseteq># {#out#}"
      by (simp add: tracked_one packet_of_def plain_packet_def out)
    then have "waiting fw n1 a b \<subseteq># waiting fw n a b + (if (a, b) = (p, q) then {#out#} else {#})"
      using transmit_waiting(1) [OF n1(1), of a b] by (auto intro: subset_mset.order_trans)
    then have "waiting fw n1 a b + (if (a, b) = (p, q) then mset outs else {#})
        \<subseteq># waiting fw n a b + (if (a, b) = (p, q) then mset (out # outs) else {#})"
      by (auto simp: subset_mset.add_mono split: if_splits)
    with Cons.IH [OF n1(2)] transmit_waiting(2,3) [OF n1(1)] show ?case by (auto intro: subset_mset.order_trans)
  qed simp
  then show "waiting fw n' a b \<subseteq># waiting fw n a b + (if (a, b) = (p, q) then mset outs else {#})"
    and "sn_nm n' = sn_nm n" and "sn_history n' = sn_history n" by blast+
qed

lemma link_got: "link_ok fw view l \<Longrightarrow> lk_got l = map (wire_normal fw) (take (length (lk_got l)) (lk_sent l))"
proof -
  assume "link_ok fw view l"
  then obtain seen todo k where "lk_sent l = seen @ todo" "lk_got l = map (wire_normal fw) (take k seen)"
    using link_ok_stream unfolding stream_ok_def by blast
  then show ?thesis by (simp add: min_def)
qed

text \<open>What is handed on by a read was sent and not handed on before.\<close>

lemma handed_tracked:
  assumes "got = map (wire_normal fw) (take (length got) sent)" and "got @ h = map (wire_normal fw) (take (length (got @ h)) sent)"
  shows "tracked fw (drop (length got) sent) = tracked fw h + tracked fw (drop (length (got @ h)) sent)"
proof -
  let ?x = "take (length h) (drop (length got) sent)"
  have "map (wire_normal fw) (take (length got + length h) sent) = map (wire_normal fw) (take (length got) sent) @ map (wire_normal fw) ?x"
    by (simp add: take_add)
  then have h: "h = map (wire_normal fw) ?x" using assms by (metis append_eq_append_conv length_append)
  have "drop (length (got @ h)) sent = drop (length h) (drop (length got) sent)" by (simp add: add.commute)
  then have "drop (length got) sent = ?x @ drop (length (got @ h)) sent" by (simp only: append_take_drop_id)
  from arg_cong [OF this, of "tracked fw"] show ?thesis using arg_cong [OF h, of "tracked fw"] by simp
qed

lemma waiting_same:
  assumes "sn_sent n' a b = sn_sent n a b" and "sn_got n' a b = sn_got n a b" and "sn_late n' b a = sn_late n b a"
    and "in_jobs (w_jobs (sn_world n' b a)) = in_jobs (w_jobs (sn_world n b a))"
  shows "waiting fw n' a b = waiting fw n a b"
  using assms by (simp add: waiting_def)

lemma initial_jobs [simp]: "w_jobs (initial_world True q0) = []"
  by (simp add: initial_world_def Let_def session_start_def updateIdleTimer_def)

lemma connect_waiting:
  assumes "p \<noteq> q" and "n' = n\<lparr>sn_late := upd2 p q (sn_late n p q @ w_jobs (sn_world n p q))
      (upd2 q p (sn_late n q p @ w_jobs (sn_world n q p)) (sn_late n)),
     sn_world := upd2 p q (initial_world True q0) (upd2 q p (initial_world True q0) (sn_world n)),
     sn_taken := upd2 p q 0 (upd2 q p 0 (sn_taken n)), sn_sent := upd2 p q [] (upd2 q p [] (sn_sent n)),
     sn_got := upd2 p q [] (upd2 q p [] (sn_got n))\<rparr>"
  shows "waiting fw n' a b \<subseteq># waiting fw n a b"
proof -
  consider "a = p" "b = q" | "a = q" "b = p" | "(a, b) \<noteq> (p, q)" "(a, b) \<noteq> (q, p)" by auto
  then show ?thesis
  proof cases
    case 3
    then have "(a, b) \<noteq> (p, q)" "(a, b) \<noteq> (q, p)" "(b, a) \<noteq> (p, q)" "(b, a) \<noteq> (q, p)" by blast+
    note other = this [THEN upd2_other]
    show ?thesis by (simp add: waiting_def assms(2) other del: upd2_apply)
  qed (use assms(1) in \<open>auto simp: waiting_def assms(2) ac_simps\<close>)
qed


section \<open>Every step is matched\<close>

lemma covers_idle:
  assumes "covers fw n a" and "sn_nm n' = sn_nm n" and "sn_history n' = sn_history n"
    and "\<And>p q. p \<noteq> q \<Longrightarrow> waiting fw n' p q \<subseteq># waiting fw n p q"
  shows "covers fw n' a"
  using assms unfolding covers_def by (metis subset_mset.order_trans)

lemma covers_announce:
  assumes ok: "covers fw n a" and run: "transmit fw wq p q m t cb n = Inr n'"
    and m: "tracked fw [m] = {#node_announce fw (sn_nm n p)#}"
  shows "\<exists>a'. node_steps fw jl a a' \<and> covers fw n' a'"
proof -
  let ?a = "a\<lparr>gn_wire := gn_wire a @ [(p, q, node_announce fw (gn_state a p))]\<rparr>"
  have "node_steps fw jl a ?a" by (rule gossip_steps_one [OF gossip_announce])
  moreover have "covers fw n' ?a"
  proof (rule coversI)
    fix r s :: p2pid
    assume "r \<noteq> s"
    then have "waiting fw n r s \<subseteq># on_wire a r s" using ok by (simp add: covers_def)
    moreover have "node_announce fw (gn_state a p) = node_announce fw (sn_nm n p)" using ok by (simp add: covers_def)
    ultimately have "waiting fw n r s + (if (r, s) = (p, q) then tracked fw [m] else {#}) \<subseteq># on_wire ?a r s"
      by (simp add: m subset_mset.add_mono)
    with transmit_waiting(1) [OF run, of r s] show "waiting fw n' r s \<subseteq># on_wire ?a r s"
      by (rule subset_mset.order_trans)
  qed (use ok transmit_waiting(2,3) [OF run] in \<open>simp_all add: covers_def\<close>)
  ultimately show ?thesis by blast
qed

text \<open>
  A call of the handler: \<open>n1\<close> is the network after the job, without the message it carried, and
  before the answers.
\<close>

lemma covers_handle:
  assumes ok: "covers fw n a" and types: "types_spec fw" and "p \<noteq> q"
    and call: "call_handler fw jl p call (sn_nm n q) = Some (outs, nm)"
    and n1: "sn_nm n1 = (sn_nm n)(q := nm)" "sn_history n1 = sn_history n"
      "\<And>r s. r \<noteq> s \<Longrightarrow> (r, s) \<noteq> (p, q) \<Longrightarrow> waiting fw n1 r s \<subseteq># waiting fw n r s"
      "waiting fw n1 p q + (case call of CallHandler e (Some m) \<Rightarrow> if ne_code e = 0 then tracked fw [m] else {#} | _ \<Rightarrow> {#})
         \<subseteq># waiting fw n p q"
    and n': "sn_nm n' = sn_nm n1" "sn_history n' = sn_history n1"
      "\<And>r s. r \<noteq> s \<Longrightarrow> waiting fw n' r s \<subseteq># waiting fw n1 r s + (if (r, s) = (q, p) then mset outs else {#})"
  shows "\<exists>a'. node_steps fw jl a a' \<and> covers fw n' a'"
proof -
  have state: "gn_state a = sn_nm n" "gn_history a = sn_history n" using ok by (simp_all add: covers_def)
  have cov: "waiting fw n r s \<subseteq># on_wire a r s" if "r \<noteq> s" for r s using ok that by (simp add: covers_def)
  show ?thesis
  proof (cases "\<exists>e m. call = CallHandler e (Some m) \<and> ne_code e = 0 \<and> gossip_packet fw (m_packetType m)")
    case False
    have quiet: "outs = [] \<and> nm = sn_nm n q"
      using call False
      by (auto simp: call_handler_def gossip_receive_def gossip_packet_def split: session_call.splits option.splits if_splits)
    have less: "waiting fw n1 r s \<subseteq># waiting fw n r s" if "r \<noteq> s" for r s
    proof (cases "(r, s) = (p, q)")
      case True
      then show ?thesis using subset_mset.order_trans [OF mset_subset_eq_add_left n1(4)] by simp
    next
      case False
      then show ?thesis by (rule n1(3) [OF that])
    qed
    have "covers fw n' a"
    proof (rule covers_idle [OF ok])
      fix r s :: p2pid
      assume rs: "r \<noteq> s"
      have "waiting fw n' r s \<subseteq># waiting fw n1 r s" using n'(3) [OF rs] quiet by (simp split: if_splits)
      then show "waiting fw n' r s \<subseteq># waiting fw n r s" using less [OF rs] by (rule subset_mset.order_trans)
    qed (use quiet n1(1,2) n'(1,2) in simp_all)
    then show ?thesis using gossip_refl by blast
  next
    case True
    then obtain e m where m: "call = CallHandler e (Some m)" "ne_code e = 0" "gossip_packet fw (m_packetType m)" by blast
    have recv: "gossip_receive fw jl p (packet_of m) (gn_state a q) = Some (outs, nm)"
      using call m(1,2) state by (simp add: call_handler_def packet_of_def)
    have more: "waiting fw n1 p q + {#packet_of m#} \<subseteq># on_wire a p q"
      using subset_mset.order_trans [OF n1(4) cov [OF \<open>p \<noteq> q\<close>]] m by (simp add: tracked_one)
    then have "packet_of m \<in># on_wire a p q" by (metis mset_subset_eqD union_iff union_single_eq_member)
    then obtain before after where wire: "gn_wire a = before @ (p, q, packet_of m) # after" by (rule on_wire_split)
    let ?a = "a\<lparr>gn_state := (gn_state a)(q := nm), gn_wire := before @ after @ map (\<lambda>out. (q, p, out)) outs\<rparr>"
    have "node_steps fw jl a ?a" by (rule gossip_steps_one [OF gossip_deliver [where recv = "gossip_receive fw jl", OF wire recv]])
    moreover have "covers fw n' ?a"
    proof (rule coversI)
      fix r s :: p2pid
      assume rs: "r \<noteq> s"
      have "waiting fw n1 r s \<subseteq># on_wire (a\<lparr>gn_wire := before @ after\<rparr>) r s"
      proof (cases "(r, s) = (p, q)")
        case True
        then show ?thesis using more on_wire_remove [OF wire, of p q] by simp
      next
        case False
        then show ?thesis using subset_mset.order_trans [OF n1(3) [OF rs False] cov [OF rs]] on_wire_remove [OF wire, of r s]
          by (simp split: if_splits)
      qed
      then have "waiting fw n1 r s + (if (r, s) = (q, p) then mset outs else {#}) \<subseteq># on_wire ?a r s"
        using on_wire_simps(1) [of "before @ after" q p outs a r s] by (simp add: subset_mset.add_mono)
      with n'(3) [OF rs] show "waiting fw n' r s \<subseteq># on_wire ?a r s" by (rule subset_mset.order_trans)
    qed (use state n1(1,2) n'(1,2) in simp_all)
    ultimately show ?thesis by blast
  qed
qed


text \<open>The message a job carries leaves with it.\<close>

lemma job_waiting:
  assumes "i < length js" and "run_job (js ! i) s = (call, s')"
  shows "tracked fw (in_jobs (take i js @ drop (Suc i) js)) +
      (case call of CallHandler e (Some m) \<Rightarrow> if ne_code e = 0 then tracked fw [m] else {#} | _ \<Rightarrow> {#})
    \<subseteq># tracked fw (in_jobs js)"
  using in_jobs_run [OF assms(1), of fw] assms(2)
  by (cases "js ! i") (auto simp: ac_simps)

lemma deliver_waiting:
  assumes ok: "link_ok fw view (net_link n p q)" "link_ok fw view (net_link n' p q)" and "p \<noteq> q"
    and n': "sn_world n' = upd2 q p (apply_result r ((sn_world n q p)\<lparr>w_reading := b\<rparr>)) (sn_world n)"
      "sn_got n' = upd2 p q (sn_got n p q @ handed_by (fst r)) (sn_got n)" "sn_sent n' = sn_sent n" "sn_late n' = sn_late n"
  shows "waiting fw n' a c = waiting fw n a c"
proof (cases "(a, c) = (p, q)")
  case True
  have "tracked fw (drop (length (sn_got n p q)) (sn_sent n p q)) = tracked fw (handed_by (fst r)) +
      tracked fw (drop (length (sn_got n p q @ handed_by (fst r))) (sn_sent n p q))"
    using handed_tracked [of "sn_got n p q" fw "sn_sent n p q" "handed_by (fst r)"] link_got [OF ok(1)] link_got [OF ok(2)] n'
    by simp
  then show ?thesis using True \<open>p \<noteq> q\<close> by (simp add: waiting_def n' in_jobs_effects)
next
  case False
  then have "(c, a) \<noteq> (q, p)" by blast
  with False show ?thesis by (intro waiting_same) (simp_all add: n' upd2_other del: upd2_apply)
qed

lemma session_waiting:
  assumes "sn_world n' = upd2 p q w (sn_world n)" and "sn_sent n' = sn_sent n" and "sn_got n' = sn_got n" and "sn_late n' = sn_late n"
    and "in_jobs (w_jobs w) = in_jobs (w_jobs (sn_world n p q))"
  shows "waiting fw n' a b = waiting fw n a b"
  using assms by (intro waiting_same) simp_all

lemma failed_read_jobs: "session_onRead fw True [] s = Inr r \<Longrightarrow> in_jobs (jobs_of (fst r)) = []"
  using handed_by_drop [of TCPError s "fst r" "snd r"] by (simp add: session_onRead_def in_jobs_effects)

lemma sn_step_covers:
  assumes types: "types_spec fw" and links: "links_ok fw view n" "links_ok fw view n'"
    and step: "sn_step fw jl wq q0 n n'" and ok: "covers fw n a"
  shows "\<exists>a'. node_steps fw jl a a' \<and> covers fw n' a'"
  using step
proof (cases rule: sn_step.cases)
  case (sn_local op p)
  let ?a = "a\<lparr>gn_state := (gn_state a)(p := local_step fw op (gn_state a p)), gn_history := (gn_history a)(p := gn_history a p @ [op])\<rparr>"
  have "node_steps fw jl a ?a" by (rule gossip_steps_one, rule gossip_local) (rule sn_local(2))
  moreover have "waiting fw n' = waiting fw n" by (simp add: fun_eq_iff waiting_def sn_local(1))
  then have "covers fw n' ?a" using ok by (intro coversI) (simp_all add: covers_def sn_local(1))
  ultimately show ?thesis by blast
next
  case (sn_heartbeat p q)
  show ?thesis
    by (rule covers_announce [OF ok sn_heartbeat(2)])
      (simp add: tracked_one packet_of_def gossip_packet_def heartbeat_message_def node_announce_def)
next
  case (sn_other_message p q m cb t)
  have "covers fw n' a"
  proof (rule covers_idle [OF ok])
    show "waiting fw n' r s \<subseteq># waiting fw n r s" for r s
      using transmit_waiting(1) [OF sn_other_message(5), of r s] sn_other_message(2) by (simp add: tracked_one split: if_splits)
  qed (rule transmit_waiting [OF sn_other_message(5)])+
  then show ?thesis using gossip_refl by blast
next
  case (sn_session p q w)
  have "in_jobs (w_jobs (still_reading (w_reading (sn_world n p q)) w)) = in_jobs (w_jobs (sn_world n p q))"
    using quiet_jobs [OF sn_session(3)] sn_session(5) by simp
  then have "waiting fw n' r s = waiting fw n r s" for r s by (rule session_waiting [rotated -1]) (simp_all add: sn_session(1))
  then have "covers fw n' a" by (intro covers_idle [OF ok]) (simp_all add: sn_session(1))
  then show ?thesis using gossip_refl by blast
next
  case (sn_deliver p q chunk later r)
  have "waiting fw n' c d = waiting fw n c d" for c d
    by (rule deliver_waiting [OF _ _ sn_deliver(2)]) (use links sn_deliver(1,2) in \<open>auto simp: links_ok_def\<close>)
  then have "covers fw n' a" by (intro covers_idle [OF ok]) (simp_all add: sn_deliver(1))
  then show ?thesis using gossip_refl by blast
next
  case (sn_read_failed p q r)
  have "waiting fw n' c d = waiting fw n c d" for c d
    by (rule session_waiting [where p = q and q = p and w = "apply_result r ((sn_world n q p)\<lparr>w_reading := False\<rparr>)"])
      (simp_all add: sn_read_failed(1) failed_read_jobs [OF sn_read_failed(4)])
  then have "covers fw n' a" by (intro covers_idle [OF ok]) (simp_all add: sn_read_failed(1))
  then show ?thesis using gossip_refl by blast
next
  case (sn_job p q i call s' outs nm k)
  let ?n = "n\<lparr>sn_world := upd2 q p (with_job i call s' (sn_world n q p)) (sn_world n), sn_nm := (sn_nm n)(q := nm)\<rparr>"
  show ?thesis
  proof (rule covers_handle [OF ok types sn_job(1,4), where ?n1.0 = ?n])
    show "waiting fw ?n p q + (case call of CallHandler e (Some m) \<Rightarrow> if ne_code e = 0 then tracked fw [m] else {#} | _ \<Rightarrow> {#})
        \<subseteq># waiting fw n p q"
      using job_waiting [OF sn_job(2,3), of fw] by (simp add: waiting_def with_job_def ac_simps)
  next
    fix r s :: p2pid
    assume "(r, s) \<noteq> (p, q)"
    then have "(s, r) \<noteq> (q, p)" by blast
    then show "waiting fw ?n r s \<subseteq># waiting fw n r s" by (simp add: waiting_def upd2_other del: upd2_apply)
  next
    fix r s :: p2pid
    show "waiting fw n' r s \<subseteq># waiting fw ?n r s + (if (r, s) = (q, p) then mset outs else {#})"
      by (rule transmit_all_waiting(1) [OF sn_job(6)])
  qed (simp_all only: transmit_all_waiting(2,3) [OF sn_job(6)], simp_all)
next
  case (sn_late_job p q i s call s' outs nm)
  show ?thesis
  proof (rule covers_handle [OF ok types sn_late_job(2,5), where ?n1.0 = n'])
    show "waiting fw n' p q + (case call of CallHandler e (Some m) \<Rightarrow> if ne_code e = 0 then tracked fw [m] else {#} | _ \<Rightarrow> {#})
        \<subseteq># waiting fw n p q"
      using job_waiting [OF sn_late_job(3,4), of fw] by (simp add: waiting_def sn_late_job(1) ac_simps)
  next
    fix r s :: p2pid
    assume "(r, s) \<noteq> (p, q)"
    then have "(s, r) \<noteq> (q, p)" by blast
    then show "waiting fw n' r s \<subseteq># waiting fw n r s"
      by (simp add: waiting_def sn_late_job(1) upd2_other del: upd2_apply)
  qed (simp_all add: sn_late_job(1))
next
  case (sn_connect p q)
  then have "covers fw n' a" using connect_waiting [OF sn_connect(2,1)] by (intro covers_idle [OF ok]) simp_all
  then show ?thesis using gossip_refl by blast
next
  case (sn_forget p q)
  let ?a = "a\<lparr>gn_state := (gn_state a)(p := forget_peer q (gn_state a p))\<rparr>"
  have "node_steps fw jl a ?a" by (rule gossip_steps_one [OF gossip_forget])
  moreover have "waiting fw n' = waiting fw n" by (simp add: fun_eq_iff waiting_def sn_forget)
  then have "covers fw n' ?a" using ok by (intro coversI) (simp_all add: covers_def sn_forget)
  ultimately show ?thesis by blast
qed


section \<open>The network over sessions is in step\<close>

lemma covers_start: "covers fw (sn_start q0) (gossip_start new_node_manager)"
  by (simp add: covers_def sn_start_def gossip_start_def waiting_def)

lemma net_link_start [simp]: "net_link (sn_start q0) p q = initial_link q0"
  by (simp add: net_link_def sn_start_def initial_link_def)

lemma links_ok_start: "fifo_spec wq view \<Longrightarrow> view q0 = [] \<Longrightarrow> links_ok fw view (sn_start q0)"
  using link_ok_initial [of wq view q0 fw] by (simp add: links_ok_def)

lemma sn_steps_covers:
  assumes env: "fifo_spec wq view" "view q0 = []" "crop_spec fw" "types_spec fw"
  shows "sn_steps fw jl wq q0 n n' \<Longrightarrow> links_ok fw view n \<Longrightarrow> covers fw n a \<Longrightarrow>
    links_ok fw view n' \<and> (\<exists>a'. node_steps fw jl a a' \<and> covers fw n' a')"
proof (induction rule: sn_steps.induct)
  case (sn_refl n)
  then show ?case using gossip_refl by blast
next
  case (sn_more n n1 n2)
  then obtain a1 where a1: "node_steps fw jl a a1" "covers fw n1 a1" and ok1: "links_ok fw view n1" by blast
  have ok2: "links_ok fw view n2" by (rule links_ok_step [OF env ok1 sn_more.hyps(2)])
  obtain a2 where "node_steps fw jl a1 a2" "covers fw n2 a2"
    using sn_step_covers [OF env(4) ok1 ok2 sn_more.hyps(2) a1(2)] by blast
  with ok2 a1(1) show ?case using gossip_steps_trans by blast
qed




end
