(* ===== verification/Session_Sync.thy ===== *)
theory Session_Sync
  imports Session_Gossip
begin

text \<open>
  From every reachable state of the network of sessions, two gateways whose sessions are active can
  get in step: the heartbeat, the request and the answer are each written out, read, handed to the
  thread pool and handled, behind whatever else is still on its way.
\<close>

section \<open>A message to the handler at the other end\<close>

text \<open>Message \<open>m\<close> is the last p sent to q, is not handed on yet, and both sessions are active.\<close>

definition just_sent :: "('q, 'k) session_net \<Rightarrow> p2pid \<Rightarrow> p2pid \<Rightarrow> p2p_message \<Rightarrow> bool" where
  "just_sent n p q m \<longleftrightarrow> actived (w_session (sn_world n p q)) \<and> actived (w_session (sn_world n q p)) \<and>
     (\<exists>ms. sn_sent n p q = ms @ [m] \<and> length (sn_got n p q) \<le> length ms)"

definition both_active :: "('q, 'k) session_net \<Rightarrow> p2pid \<Rightarrow> p2pid \<Rightarrow> bool" where
  "both_active n p q \<longleftrightarrow> actived (w_session (sn_world n p q)) \<and> actived (w_session (sn_world n q p))"

lemma links_ok_steps:
  assumes "fifo_spec wq view" and "view q0 = []" and "crop_spec fw" and "types_spec fw"
  shows "sn_steps fw jl wq q0 n n' \<Longrightarrow> links_ok fw view n \<Longrightarrow> links_ok fw view n'"
  by (induction rule: sn_steps.induct) (auto intro: links_ok_step [OF assms])

lemma got_at_most: "links_ok fw view n \<Longrightarrow> p \<noteq> q \<Longrightarrow> length (sn_got n p q) \<le> length (sn_sent n p q)"
  using arg_cong [OF link_got [of fw view "net_link n p q"], of length] by (simp add: links_ok_def)

lemma send_active:
  assumes "actived s"
  shows "\<exists>es s'. asyncSendMessage fw wq m t None s = Inr (es, s') \<and> actived s'"
  using assms by (auto simp: asyncSendMessage_def session_send_def session_write_def actived_def Let_def)

lemma transmit_active:
  assumes ok: "links_ok fw view n" and "p \<noteq> q" and act: "both_active n p q"
  shows "\<exists>n'. transmit fw wq p q m t None n = Inr n' \<and> just_sent n' p q m"
proof -
  obtain es s' where r: "asyncSendMessage fw wq m t None (w_session (sn_world n p q)) = Inr (es, s')" "actived s'"
    using send_active act unfolding both_active_def by blast
  then show ?thesis
    using act got_at_most [OF ok \<open>p \<noteq> q\<close>] \<open>p \<noteq> q\<close> by (simp add: transmit_def Let_def just_sent_def both_active_def)
qed

text \<open>The queue of p's session is written out.\<close>

lemma net_drain:
  assumes env: "fifo_spec wq view" "view q0 = []" "crop_spec fw" "types_spec fw" and "p \<noteq> q"
  shows "links_ok fw view n \<Longrightarrow> actived (w_session (sn_world n p q)) \<Longrightarrow>
    \<exists>w. sn_steps fw jl wq q0 n (n\<lparr>sn_world := upd2 p q w (sn_world n)\<rparr>) \<and> actived (w_session w) \<and>
      view (m_writeQueue (w_session w)) = []"
proof (induction "length (view (m_writeQueue (w_session (sn_world n p q))))" arbitrary: n)
  case 0
  have "n\<lparr>sn_world := upd2 p q (sn_world n p q) (sn_world n)\<rparr> = n" by (cases n) (simp add: upd2_def)
  moreover have "view (m_writeQueue (w_session (sn_world n p q))) = []" using 0(1) by simp
  ultimately show ?case using 0(3) sn_refl by metis
next
  case (Suc k)
  let ?w = "sn_world n p q"
  have "world_write_ok view (?w\<lparr>w_reading := False\<rparr>)"
    using link_ok_write [of fw view "net_link n p q"] Suc.prems(1) \<open>p \<noteq> q\<close> by (simp add: links_ok_def)
  moreover have "view (m_writeQueue (w_session ?w)) \<noteq> []" using Suc.hyps(2) by auto
  ultimately obtain w where w: "sess_step fw wq (?w\<lparr>w_reading := False\<rparr>) w" "actived (w_session w)"
      "w_accepted w = w_accepted ?w" "w_calls w = w_calls ?w"
      "view (m_writeQueue (w_session w)) = tl (view (m_writeQueue (w_session ?w)))"
    using written_step [OF env(1), of "?w\<lparr>w_reading := False\<rparr>" fw] Suc.prems(2) by auto
  let ?n = "n\<lparr>sn_world := upd2 p q (still_reading (w_reading ?w) w) (sn_world n)\<rparr>"
  have step: "sn_step fw jl wq q0 n ?n" by (rule sn_session [OF \<open>p \<noteq> q\<close> w(1,3,4)])
  have "k = length (view (m_writeQueue (w_session (sn_world ?n p q))))" using Suc.hyps(2) w(5) by simp
  from Suc.hyps(1) [OF this links_ok_step [OF env Suc.prems(1) step]] w(2)
  obtain w' where "sn_steps fw jl wq q0 ?n (?n\<lparr>sn_world := upd2 p q w' (sn_world ?n)\<rparr>)" "actived (w_session w')"
      "view (m_writeQueue (w_session w')) = []" by auto
  moreover have "?n\<lparr>sn_world := upd2 p q w' (sn_world ?n)\<rparr> = n\<lparr>sn_world := upd2 p q w' (sn_world n)\<rparr>" by (simp add: upd2_def)
  ultimately show ?case using sn_steps_trans [OF _ sn_steps_one [OF step]] by metis
qed

text \<open>q reads all that was written; the last job is that of the last message.\<close>

lemma read_last:
  assumes crop: "crop_spec fw" and ok: "link_ok fw view l" and act: "actived (w_session (lk_receiver l))"
    and empty: "view (m_writeQueue (w_session (lk_sender l))) = []"
    and sent: "lk_sent l = ms @ [m]" "length (lk_got l) \<le> length ms" and plain: "\<not> isRespPacket m"
  shows "\<exists>es s'. session_onRead fw False (drop (lk_taken l) (concat (w_wire (lk_sender l)))) (w_session (lk_receiver l)) = Inr (es, s') \<and>
    actived s' \<and> (\<exists>js. jobs_of es = js @ [JHandler success (wire_normal fw m)])"
proof -
  let ?s = "w_session (lk_receiver l)" and ?chunk = "drop (lk_taken l) (concat (w_wire (lk_sender l)))"
  have opened: "open_session ?s" and handler: "m_messageHandler ?s"
    using act ok by (simp_all add: actived_def open_session_def link_ok_def stream_ok_def)
  have "concat (map (p2p_enc fw) (lk_sent l)) = concat (w_wire (lk_sender l)) @ []"
    using ok empty by (metis append_Nil2 link_ok_def write_ok_def)
  from stream_left [OF link_ok_stream [OF ok] this, of ?chunk "[]"] opened obtain seen todo
    where seen: "lk_sent l = seen @ todo" "lk_got l = map (wire_normal fw) seen"
      and stream: "m_data ?s @ ?chunk @ [] = concat (map (p2p_enc fw) todo)" by auto
  have todo: "list_all (wire_message fw) todo" using link_ok_sent [OF ok] seen(1) by simp
  obtain seen2 rest left where read: "todo = seen2 @ rest" "m_data ?s @ ?chunk = concat (map (p2p_enc fw) seen2) @ left"
      "framed_codec.pending (p2p_enc fw) left rest"
      "session_onRead fw False ?chunk ?s = eff_bind (Inr (fold (\<lambda>m es. es @ session_onMessage success m ?s)
        (map (wire_normal fw) seen2) (updateIdleTimer ?s), ?s\<lparr>m_data := left\<rparr>)) session_doRead"
    using onRead_eq [OF crop todo stream] by blast
  have "left = concat (map (p2p_enc fw) rest)" using read(1,2) stream by simp
  then have "rest = []" using p2p.pending_all [of fw rest] read(1,3) todo crop by (simp add: list_all_iff)
  moreover have "todo \<noteq> []" using seen sent by auto
  ultimately obtain ms2 where seen2: "seen2 = ms2 @ [m]" using seen(1) sent(1) read(1) by (cases seen2 rule: rev_cases) auto
  have "session_onMessage success (wire_normal fw m) ?s = [Enqueue (JHandler success (wire_normal fw m))]"
    using opened handler plain by (simp add: session_onMessage_def open_session_def isRespPacket_def wire_normal_def split: option.split)
  then show ?thesis
    unfolding read(4) seen2 using act by (simp add: session_doRead_def actived_def)
qed


section \<open>A packet and the answer to it\<close>

lemma world_twice: "n\<lparr>sn_world := w, sn_world := w'\<rparr> = n\<lparr>sn_world := w'\<rparr>"
  by simp

text \<open>The last job of q's session with p is run.\<close>

lemma handle_last:
  assumes "p \<noteq> q" and act: "both_active n p q" and ok: "links_ok fw view n"
    and env: "fifo_spec wq view" "view q0 = []" "crop_spec fw" "types_spec fw"
    and jobs: "w_jobs (sn_world n q p) = js @ [JHandler success (wire_normal fw m)]"
    and recv: "gossip_receive fw jl p (packet_of m) (sn_nm n q) = Some (outs, nm)"
  shows "outs = [] \<Longrightarrow> \<exists>n'. sn_steps fw jl wq q0 n n' \<and> sn_nm n' = (sn_nm n)(q := nm) \<and> sn_history n' = sn_history n \<and>
      both_active n' p q"
    and "outs = [out] \<Longrightarrow> fits out \<Longrightarrow> \<exists>n' k. sn_steps fw jl wq q0 n n' \<and> sn_nm n' = (sn_nm n)(q := nm) \<and> sn_history n' = sn_history n \<and>
      just_sent n' q p (plain_packet k (fst out) (snd out))"
proof -
  let ?w = "sn_world n q p" and ?call = "CallHandler success (Some (wire_normal fw m))"
  let ?n = "n\<lparr>sn_world := upd2 q p (with_job (length js) ?call (w_session ?w) ?w) (sn_world n), sn_nm := (sn_nm n)(q := nm)\<rparr>"
  have i: "length js < length (w_jobs ?w)" and run: "run_job (w_jobs ?w ! length js) (w_session ?w) = (?call, w_session ?w)"
    by (simp_all add: jobs)
  have call: "call_handler fw jl p ?call (sn_nm n q) = Some (outs, nm)"
    using recv by (simp add: call_handler_def packet_of_def wire_normal_def)
  note step = sn_job [OF \<open>p \<noteq> q\<close> i run call, where wq = wq and ?q0.0 = q0]
  have act1: "both_active ?n p q" using act \<open>p \<noteq> q\<close> by (simp add: both_active_def with_job_def)
  {
    assume "outs = []"
    then have "sn_step fw jl wq q0 n ?n" by (intro step [where k = 0]) simp_all
    with act1 show "\<exists>n'. sn_steps fw jl wq q0 n n' \<and> sn_nm n' = (sn_nm n)(q := nm) \<and> sn_history n' = sn_history n \<and> both_active n' p q"
      by (intro exI [of _ ?n]) (simp add: sn_steps_one)
  next
    assume out: "outs = [out]" "fits out"
    have "link_steps fw wq (net_link n a b) (net_link ?n a b)" if "a \<noteq> b" for a b
      by (rule session_links [OF job_step(1) [OF i run]]) (use \<open>p \<noteq> q\<close> job_step(2) [OF i run] in \<open>auto simp: with_job_def\<close>)
    then have "links_ok fw view ?n" using ok link_ok_steps [OF env(1,3)] unfolding links_ok_def by blast
    moreover have "both_active ?n q p" using act1 by (auto simp: both_active_def)
    ultimately obtain n' where n': "transmit fw wq q p (plain_packet 0 (fst out) (snd out)) 0 None ?n = Inr n'"
        "just_sent n' q p (plain_packet 0 (fst out) (snd out))"
      using transmit_active [of fw view ?n q p wq "plain_packet 0 (fst out) (snd out)" 0] \<open>p \<noteq> q\<close> by blast
    have "transmit_all fw wq q p 0 outs ?n = Inr n'" using n'(1) by (cases out) (simp add: out(1))
    then have "sn_step fw jl wq q0 n n'" by (rule step [rotated]) (simp add: out)
    then show "\<exists>n' k. sn_steps fw jl wq q0 n n' \<and> sn_nm n' = (sn_nm n)(q := nm) \<and> sn_history n' = sn_history n \<and>
        just_sent n' q p (plain_packet k (fst out) (snd out))"
      using n'(2) transmit_waiting(2,3) [OF n'(1)] sn_steps_one by (intro exI [of _ n'] exI [of _ 0]) simp
  }
qed

text \<open>The message just sent becomes the last job at the other end.\<close>

lemma arrive_last:
  assumes env: "fifo_spec wq view" "view q0 = []" "crop_spec fw" "types_spec fw" and "p \<noteq> q"
    and ok: "links_ok fw view n" and sent: "just_sent n p q m" and plain: "\<not> isRespPacket m"
  shows "\<exists>n' js. sn_steps fw jl wq q0 n n' \<and> sn_nm n' = sn_nm n \<and> sn_history n' = sn_history n \<and> both_active n' p q \<and>
    w_jobs (sn_world n' q p) = js @ [JHandler success (wire_normal fw m)]"
proof -
  obtain w where w: "sn_steps fw jl wq q0 n (n\<lparr>sn_world := upd2 p q w (sn_world n)\<rparr>)" "actived (w_session w)"
      "view (m_writeQueue (w_session w)) = []"
    using net_drain [OF env \<open>p \<noteq> q\<close> ok] sent unfolding just_sent_def by blast
  let ?n1 = "n\<lparr>sn_world := upd2 p q w (sn_world n)\<rparr>" and ?r = "sn_world n q p"
  have act: "actived (w_session ?r)" using sent by (simp add: just_sent_def)
  let ?w2 = "apply_result ([AsyncReadSome], w_session ?r) (?r\<lparr>w_reading := False\<rparr>)"
  let ?n2 = "?n1\<lparr>sn_world := upd2 q p (still_reading (w_reading (sn_world ?n1 q p)) ?w2) (sn_world ?n1)\<rparr>"
  have "session_doRead (w_session (?r\<lparr>w_reading := False\<rparr>)) = Inr ([AsyncReadSome], w_session ?r)"
    using act by (simp add: session_doRead_def actived_def)
  then have "sn_step fw jl wq q0 ?n1 ?n2"
    using \<open>p \<noteq> q\<close> sess_step.step_doRead [of "?r\<lparr>w_reading := False\<rparr>" "([AsyncReadSome], w_session ?r)" fw wq]
    by (intro sn_session) simp_all
  then have two: "sn_steps fw jl wq q0 n ?n2" by (rule sn_more [OF w(1)])
  then have ok2: "links_ok fw view ?n2" by (rule links_ok_steps [OF env _ ok])
  let ?l = "net_link ?n2 p q"
  have l: "lk_sender ?l = w" "w_session (lk_receiver ?l) = w_session ?r" "lk_sent ?l = sn_sent n p q" "lk_got ?l = sn_got n p q"
    using \<open>p \<noteq> q\<close> by simp_all
  obtain ms where ms: "sn_sent n p q = ms @ [m]" "length (sn_got n p q) \<le> length ms" using sent unfolding just_sent_def by blast
  have "link_ok fw view ?l" using ok2 \<open>p \<noteq> q\<close> by (simp add: links_ok_def)
  from read_last [OF env(3) this _ _ _ _ plain, of ms, unfolded l] act w(3) ms obtain es s' js
    where read: "session_onRead fw False (drop (lk_taken ?l) (concat (w_wire w))) (w_session ?r) = Inr (es, s')" "actived s'"
      "jobs_of es = js @ [JHandler success (wire_normal fw m)]" by blast
  let ?chunk = "drop (sn_taken ?n2 p q) (concat (w_wire (sn_world ?n2 p q)))"
  let ?n3 = "?n2\<lparr>sn_world := upd2 q p (apply_result (es, s') ((sn_world ?n2 q p)\<lparr>w_reading := False\<rparr>)) (sn_world ?n2),
     sn_taken := upd2 p q (sn_taken ?n2 p q + length ?chunk) (sn_taken ?n2),
     sn_got := upd2 p q (sn_got ?n2 p q @ handed_by (fst (es, s'))) (sn_got ?n2)\<rparr>"
  have "sn_step fw jl wq q0 ?n2 ?n3"
    by (rule sn_deliver [OF \<open>p \<noteq> q\<close>, where later = "[]"]) (use \<open>p \<noteq> q\<close> read(1) in \<open>simp_all add: apply_result_def\<close>)
  from sn_more [OF two this] show ?thesis
    by (rule_tac exI, rule_tac exI [of _ "w_jobs ?r @ js"], intro conjI, assumption)
      (use \<open>p \<noteq> q\<close> w(2) read(2,3) in \<open>simp_all add: both_active_def\<close>)
qed


lemma packet_round:
  assumes env: "fifo_spec wq view" "view q0 = []" "crop_spec fw" "types_spec fw" and "p \<noteq> q"
    and ok: "links_ok fw view n" and sent: "just_sent n p q m" and plain: "\<not> isRespPacket m"
    and recv: "gossip_receive fw jl p (packet_of m) (sn_nm n q) = Some (outs, nm)"
  shows "outs = [] \<Longrightarrow> \<exists>n'. sn_steps fw jl wq q0 n n' \<and> sn_nm n' = (sn_nm n)(q := nm) \<and> sn_history n' = sn_history n \<and>
      both_active n' p q"
    and "outs = [out] \<Longrightarrow> fits out \<Longrightarrow> \<exists>n' k. sn_steps fw jl wq q0 n n' \<and> sn_nm n' = (sn_nm n)(q := nm) \<and> sn_history n' = sn_history n \<and>
      just_sent n' q p (plain_packet k (fst out) (snd out))"
proof -
  obtain n1 js where n1: "sn_steps fw jl wq q0 n n1" "sn_nm n1 = sn_nm n" "sn_history n1 = sn_history n" "both_active n1 p q"
      "w_jobs (sn_world n1 q p) = js @ [JHandler success (wire_normal fw m)]"
    using arrive_last [OF env \<open>p \<noteq> q\<close> ok sent plain] by blast
  note done1 = handle_last [OF \<open>p \<noteq> q\<close> n1(4) links_ok_steps [OF env n1(1) ok] env n1(5) recv [folded n1(2)]]
  show "outs = [] \<Longrightarrow> \<exists>n'. sn_steps fw jl wq q0 n n' \<and> sn_nm n' = (sn_nm n)(q := nm) \<and> sn_history n' = sn_history n \<and>
      both_active n' p q"
    using done1(1) sn_steps_trans [OF _ n1(1)] n1(2,3) by metis
  show "outs = [out] \<Longrightarrow> fits out \<Longrightarrow> \<exists>n' k. sn_steps fw jl wq q0 n n' \<and> sn_nm n' = (sn_nm n)(q := nm) \<and> sn_history n' = sn_history n \<and>
      just_sent n' q p (plain_packet k (fst out) (snd out))"
    using done1(2) sn_steps_trans [OF _ n1(1)] n1(2,3) by metis
qed

lemma plain_not_resp [simp]: "\<not> isRespPacket (plain_packet k type payload)" "\<not> isRespPacket (heartbeat_message fw k)"
  by (simp_all add: plain_packet_eq isRespPacket_def plain_packet_def new_message_def)

lemma plain_packet_of [simp]: "packet_of (plain_packet k type payload) = (type, payload)"
  by (simp add: packet_of_def plain_packet_def)

lemma just_sent_both: "just_sent n p q m \<Longrightarrow> both_active n q p"
  by (simp add: just_sent_def both_active_def)

section \<open>Getting in step\<close>

text \<open>The exchange of q's heartbeat, p's request and q's answer, as far as it is needed.\<close>

lemma sync_over_sessions:
  assumes env: "fifo_spec wq view" "view q0 = []" "crop_spec fw" "types_spec fw" and "p \<noteq> q"
    and ok: "links_ok fw view n" and act: "both_active n p q"
    and inv: "node_net_inv fw jl jview (sn_nm n p)" "node_net_inv fw jl jview (sn_nm n q)" and short: "fits (node_answer fw jl (sn_nm n q))"
  shows "\<exists>n'. sn_steps fw jl wq q0 n n' \<and> sn_history n' = sn_history n \<and> both_active n' p q \<and>
    sn_nm n' = (if onReceiveStatusSeq q (m_statusSeq (sn_nm n q)) (sn_nm n p)
      then (sn_nm n)(p := apply_nodeIDs q (m_statusSeq (sn_nm n q)) (localGroup2NodeIDs (sn_nm n q)) (sn_nm n p)) else sn_nm n)"
proof -
  let ?k = "m_statusSeq (sn_nm n q)"
  have "q \<noteq> p" and act': "both_active n q p" using \<open>p \<noteq> q\<close> act by (auto simp: both_active_def)
  obtain n1 where n1: "transmit fw wq q p (heartbeat_message fw ?k) 0 None n = Inr n1" "just_sent n1 q p (heartbeat_message fw ?k)"
    using transmit_active [OF ok \<open>q \<noteq> p\<close> act'] by blast
  have s1: "sn_steps fw jl wq q0 n n1" by (rule sn_steps_one [OF sn_heartbeat [OF \<open>q \<noteq> p\<close> n1(1)]])
  have nm1: "sn_nm n1 = sn_nm n" "sn_history n1 = sn_history n" using transmit_waiting(2,3) [OF n1(1)] by blast+
  note ok1 = links_ok_steps [OF env s1 ok]
  have recv1: "gossip_receive fw jl q (packet_of (heartbeat_message fw ?k)) (sn_nm n1 p)
      = Some (if onReceiveStatusSeq q ?k (sn_nm n p) then [(mtRequestNodeIDs fw, [])] else [], sn_nm n p)"
    using receive_announce [of fw jl q "sn_nm n q" "sn_nm n p"] by (simp add: nm1 plain_packet_eq node_announce_def)
  note round1 = packet_round [OF env \<open>q \<noteq> p\<close> ok1 n1(2) plain_not_resp(2) recv1]
  show ?thesis
  proof (cases "onReceiveStatusSeq q ?k (sn_nm n p)")
    case False
    then obtain n2 where "sn_steps fw jl wq q0 n1 n2" "sn_nm n2 = sn_nm n" "sn_history n2 = sn_history n" "both_active n2 q p"
      using round1(1) nm1 by auto
    with False sn_steps_trans [OF _ s1] show ?thesis by (auto simp: both_active_def)
  next
    case True
    then obtain n2 k2 where n2: "sn_steps fw jl wq q0 n1 n2" "sn_nm n2 = sn_nm n" "sn_history n2 = sn_history n"
        "just_sent n2 p q (plain_packet k2 (mtRequestNodeIDs fw) [])"
      using round1(2) [of "(mtRequestNodeIDs fw, [])"] nm1 by (auto simp: fits_def)
    note ok2 = links_ok_steps [OF env n2(1) ok1]
    have recv2: "gossip_receive fw jl p (packet_of (plain_packet k2 (mtRequestNodeIDs fw) [])) (sn_nm n2 q)
        = Some ([node_answer fw jl (sn_nm n q)], sn_nm n q)"
      using receive_ask [OF inv(2)] by (simp add: n2(2))
    obtain n3 k3 where n3: "sn_steps fw jl wq q0 n2 n3" "sn_nm n3 = sn_nm n" "sn_history n3 = sn_history n"
        "just_sent n3 q p (plain_packet k3 (fst (node_answer fw jl (sn_nm n q))) (snd (node_answer fw jl (sn_nm n q))))"
      using packet_round(2) [OF env \<open>p \<noteq> q\<close> ok2 n2(4) plain_not_resp(1) recv2 _ short] n2(2,3) by auto
    note ok3 = links_ok_steps [OF env n3(1) ok2]
    have recv3: "gossip_receive fw jl q (packet_of (plain_packet k3 (fst (node_answer fw jl (sn_nm n q))) (snd (node_answer fw jl (sn_nm n q)))))
        (sn_nm n3 p) = Some ([], apply_nodeIDs q ?k (localGroup2NodeIDs (sn_nm n q)) (sn_nm n p))"
      using receive_answer [OF inv] by (simp add: n3(2))
    obtain n4 where n4: "sn_steps fw jl wq q0 n3 n4" "sn_history n4 = sn_history n" "both_active n4 q p"
        "sn_nm n4 = (sn_nm n)(p := apply_nodeIDs q ?k (localGroup2NodeIDs (sn_nm n q)) (sn_nm n p))"
      using packet_round(1) [OF env \<open>q \<noteq> p\<close> ok3 n3(4) plain_not_resp(1) recv3] n3(2,3) by auto
    have "sn_steps fw jl wq q0 n n4" by (rule sn_steps_trans [OF n4(1) sn_steps_trans [OF n3(1) sn_steps_trans [OF n2(1) s1]]])
    with n4(2-4) True show ?thesis by (auto simp: both_active_def)
  qed
qed


text \<open>Two gateways, one of which has registered a node.\<close>

definition example_sessions :: "(bytes list, bytes) session_net" where
  "example_sessions = (sn_start [])\<lparr>
     sn_nm := new_node_manager(''p1'' := local_step example_fw (Register ''g1'' [65, 66] 5) (new_node_manager ''p1'')),
     sn_history := (\<lambda>_. [])(''p1'' := [Register ''g1'' [65, 66] 5])\<rparr>"

lemma example_sessions_reach: "sn_steps example_fw jv_lib list_queue [] (sn_start []) example_sessions"
proof -
  have "node_op_ok example_fw (Register ''g1'' [65, 66] 5)"
    by (simp add: good_id_def plain_string_def string_of_bytes_def char_of_byte_def char_of_def bit_0)
  then show ?thesis
    using sn_local [of example_fw "Register ''g1'' [65, 66] 5" jv_lib list_queue "[]" "sn_start []" "''p1''"]
    by (intro sn_steps_one) (simp add: sn_start_def example_sessions_def)
qed

lemma example_sessions_active: "both_active example_sessions p q"
  by (simp add: both_active_def example_sessions_def sn_start_def initial_world_def session_eval apply_result_def)


end
