(* ===== verification/Node_Run.thy ===== *)
theory Node_Run
  imports Gateway_Node
begin

text \<open>
  One gateway with everything that can happen to it: packets of any content on any session,
  connections and their loss, the calls of front services, clients and the rpc, the callbacks
  that come back, and the timers, in any order. Its three tables stay consistent throughout.
\<close>

section \<open>Runs of a gateway\<close>

text \<open>What the gateway asks of tars, the network and the framework while it runs.\<close>

record 'j node_env =
  ne_jl :: "'j jsonlib"
  ne_topicOf :: "bytes \<Rightarrow> string option"
  ne_proxy :: "string \<Rightarrow> nat option"
  ne_active :: "nat \<Rightarrow> (string \<times> int) list"
  ne_rpcName :: string
  ne_topicTars :: "nat \<Rightarrow> string list \<times> string list \<Rightarrow> string list \<times> string list"
  ne_frontTars :: "nat \<Rightarrow> nat list \<times> nat list"
  ne_client :: "string \<Rightarrow> front_service_info"

datatype ('key, 'q) node_event =
    GwStart
  | GwStop
  | Connection u32 network_exception p2p_info "('q session \<times> endpoint) option"
  | Packet bool network_exception "nat option" "p2p_message option"
  | AmopPacket "nat \<Rightarrow> nat" network_exception nat "p2p_message option"
  | SessionLost nat
  | SessionWork nat "'q session \<Rightarrow> 'q session_result"
  | HeartbeatTimer u32 nat
  | ReconnectTimer bool bool
  | TopicSync
  | TopicCheck
  | FrontCheck u64 u64
  | RegisterFront groupid 'key nat
  | UnregisterFront groupid 'key
  | GroupChanged groupid "node_info list" "nat option"
  | SendTo "nat \<Rightarrow> nat" groupid 'key 'key bytes "nat option"
  | SendToList "nat \<Rightarrow> nat \<Rightarrow> nat" groupid 'key "'key list" bytes
  | SendToGroup groupid 'key bytes
  | RetryCallback "nat \<Rightarrow> nat" gateway_retry "network_exception \<times> p2p_message option"
  | FrontAnswer error_resp "error_info option"
  | TopicSend "nat \<Rightarrow> nat" string bytes "nat option"
  | TopicBroadcast string bytes
  | TopicSubscribe string string "nat option"
  | TopicRemove string "string list" "nat option"
  | AmopCallback "nat \<Rightarrow> nat" p2p_continuation p2p_reply
  | ClientAnswer reply_target "error_info option" "bytes option"

fun node_exec :: "('key, 'more) bcos_fw_scheme \<Rightarrow> 'q write_queue \<Rightarrow> 'j node_env \<Rightarrow> ('key, 'q) node_event \<Rightarrow> 'q gateway \<Rightarrow>
    ('key, 'q) gateway_result" where
  "node_exec fw wq env GwStart gw = Inr (gateway_start (ne_proxy env) (ne_active env) (ne_rpcName env) gw)"
| "node_exec fw wq env GwStop gw = gateway_stop gw"
| "node_exec fw wq env (Connection k e info session) gw = on_service (onConnect fw wq k e info session) gw"
| "node_exec fw wq env (Packet alive e a m) gw = service_onMessage fw (ne_jl env) wq alive e a m gw"
| "node_exec fw wq env (AmopPacket rnd e a m) gw =
     onAMOPMessage fw (ne_jl env) wq (ne_topicOf env) rnd (ne_proxy env) e a m gw"
| "node_exec fw wq env (SessionLost a) gw = gateway_disconnect_handler fw a gw"
| "node_exec fw wq env (SessionWork a f) gw = on_service (on_session a f) gw"
| "node_exec fw wq env (HeartbeatTimer k a) gw = on_service (p2p_heartBeat fw wq k a) gw"
| "node_exec fw wq env (ReconnectTimer error net) gw = on_service (\<lambda>sv. Inr (service_onTimer error net sv)) gw"
| "node_exec fw wq env TopicSync gw = onTopicSyncTimer fw wq gw"
| "node_exec fw wq env TopicCheck gw = Inr (onTopicCheckTimer (ne_topicTars env) gw)"
| "node_exec fw wq env (FrontCheck now start) gw = onFrontServiceTimer fw (ne_frontTars env) now start gw"
| "node_exec fw wq env (RegisterFront g n front) gw = Inr ([], snd (gw_registerFrontService fw g n front gw))"
| "node_exec fw wq env (UnregisterFront g n) gw = Inr ([], snd (gw_unregisterFrontService fw g n gw))"
| "node_exec fw wq env (GroupChanged g nodes cb) gw = asyncNotifyGroupInfo fw (ne_client env) g nodes cb gw"
| "node_exec fw wq env (SendTo rnd g src dst b cb) gw = gw_sendMessageByNodeID fw wq rnd g src dst b cb gw"
| "node_exec fw wq env (SendToList rnds g src dsts b) gw = gw_sendMessageByNodeIDs fw wq rnds g src dsts b gw"
| "node_exec fw wq env (SendToGroup g src b) gw = asyncSendBroadcastMessage fw wq g src b gw"
| "node_exec fw wq env (RetryCallback rnd r reply) gw = onGatewayRetryReply fw wq rnd r reply gw"
| "node_exec fw wq env (FrontAnswer resp error) gw = run_error_resp fw wq resp error gw"
| "node_exec fw wq env (TopicSend rnd topic b cb) gw = gw_asyncSendMessageByTopic fw wq rnd (ne_proxy env) topic b cb gw"
| "node_exec fw wq env (TopicBroadcast topic b) gw = gw_asyncSendBroadbastMessageByTopic fw wq topic b gw"
| "node_exec fw wq env (TopicSubscribe client info cb) gw =
     gw_asyncSubscribeTopic fw (ne_jl env) wq (ne_proxy env) client info cb gw"
| "node_exec fw wq env (TopicRemove client topics cb) gw = gw_asyncRemoveTopic fw wq client topics cb gw"
| "node_exec fw wq env (AmopCallback rnd cont reply) gw = onAmopReply fw wq rnd cont reply gw"
| "node_exec fw wq env (ClientAnswer target error b) gw =
     cpp_bind (onClientReply fw target error b) (\<lambda>es. run_amop_effects fw wq es gw)"

fun node_run :: "('key, 'more) bcos_fw_scheme \<Rightarrow> 'q write_queue \<Rightarrow> 'j node_env \<Rightarrow> ('key, 'q) node_event list \<Rightarrow> 'q gateway \<Rightarrow>
    ('key, 'q) gateway_result" where
  "node_run fw wq env [] gw = Inr ([], gw)"
| "node_run fw wq env (ev # evs) gw = sv_bind (node_exec fw wq env ev gw) (node_run fw wq env evs)"

section \<open>What changes which table\<close>

definition gw_inv :: "p2p_id \<Rightarrow> 'q gateway \<Rightarrow> bool" where
  "gw_inv self gw \<longleftrightarrow> svc_inv (gw_service gw) \<and> sv_nodeID (gw_service gw) = self \<and> nm_inv (gw_nm gw) \<and> tm_inv (gw_tm gw)"

text \<open>An operation of the service that keeps its table and leaves the other two alone.\<close>

definition net_only :: "'q gateway \<Rightarrow> 'q gateway \<Rightarrow> bool" where
  "net_only gw gw' \<longleftrightarrow> (svc_inv (gw_service gw) \<longrightarrow> svc_inv (gw_service gw')) \<and>
     sv_nodeID (gw_service gw') = sv_nodeID (gw_service gw) \<and> gw_nm gw' = gw_nm gw \<and> gw_tm gw' = gw_tm gw"

lemma net_only_refl [simp]: "net_only gw gw"
  by (simp add: net_only_def)

lemma net_only_trans: "net_only g1 g2 \<Longrightarrow> net_only g2 g3 \<Longrightarrow> net_only g1 g3"
  by (simp add: net_only_def)

lemma gw_inv_net: "gw_inv self gw \<Longrightarrow> net_only gw gw' \<Longrightarrow> gw_inv self gw'"
  by (simp add: gw_inv_def net_only_def)

lemma on_service_Inr:
  "on_service f gw = Inr (es, gw') \<longleftrightarrow>
     (\<exists>es' sv. f (gw_service gw) = Inr (es', sv) \<and> es = map Net es' \<and> gw' = gw\<lparr>gw_service := sv\<rparr>)"
  by (auto simp: on_service_def cpp_bind_eq_Inr)

lemma net_only_keeps: "keeps (gw_service gw) sv \<Longrightarrow> net_only gw (gw\<lparr>gw_service := sv\<rparr>)"
  using svc_inv_keeps [of "gw_service gw" sv] by (auto simp: net_only_def keeps_def)

lemma on_service_keeps:
  "on_service f gw = Inr (es, gw') \<Longrightarrow> (\<And>es sv. f (gw_service gw) = Inr (es, sv) \<Longrightarrow> keeps (gw_service gw) sv) \<Longrightarrow> net_only gw gw'"
  by (auto simp: on_service_Inr intro: net_only_keeps)

lemma on_service_exec:
  assumes "on_service f gw = Inr (es, gw')" and "\<And>sv. f sv = svc_exec fw wq ev sv"
  shows "net_only gw gw'"
  using assms svc_inv_exec [of "gw_service gw" fw wq ev] svc_exec_nodeID [of fw wq ev "gw_service gw"]
  by (auto simp: on_service_Inr net_only_def)

lemma service_send_keeps: "service_send fw wq n m cb t sv = Inr (es, sv') \<Longrightarrow> keeps sv sv'"
  by (auto simp: service_send_def cpp_bind_eq_Inr dest: send_keeps)

lemma send_to_all_keeps: "send_to_all fw wq ns m sv = Inr (es, sv') \<Longrightarrow> keeps sv sv'"
proof (induction ns arbitrary: m sv es)
  case (Cons n ns)
  then show ?case by (auto simp: cpp_bind_eq_Inr intro: keeps_trans dest!: send_keeps)
qed simp

lemma run_amop_effect_net: "run_amop_effect fw wq e gw = Inr (es, gw') \<Longrightarrow> net_only gw gw'"
  by (cases e) (auto elim!: on_service_keeps dest: broadcast_p2p_keeps send_p2p_keeps send_p2p_list_keeps on_session_keeps)

lemma run_amop_effects_net: "run_amop_effects fw wq effs gw = Inr (es, gw') \<Longrightarrow> net_only gw gw'"
proof (induction effs arbitrary: gw es)
  case (Cons e effs)
  then show ?case by (auto simp: sv_bind_Inr intro: net_only_trans dest!: run_amop_effect_net)
qed simp

lemma with_topics_inv:
  assumes "gw_inv self gw" and "tm_inv (snd r)" and "with_topics fw wq r gw = Inr (es, gw')"
  shows "gw_inv self gw'"
proof (rule gw_inv_net)
  show "gw_inv self (gw\<lparr>gw_tm := snd r\<rparr>)" using assms(1,2) by (simp add: gw_inv_def)
  show "net_only (gw\<lparr>gw_tm := snd r\<rparr>) gw'" using assms(3) run_amop_effects_net by (auto simp: with_topics_def)
qed

lemma net_only_newSeq: "net_only gw (gw\<lparr>gw_service := snd (factory_newSeq (gw_service gw))\<rparr>)"
  by (intro net_only_keeps) simp

lemma trySendMessage_net: "trySendMessage fw wq rnd r gw = Inr (es, gw') \<Longrightarrow> net_only gw gw'"
  by (auto simp: trySendMessage_def split: if_splits prod.splits elim!: on_service_keeps dest: service_send_keeps)

lemma sendMessageByNodeID_net: "gw_sendMessageByNodeID fw wq rnd g src dst b cb gw = Inr (es, gw') \<Longrightarrow> net_only gw gw'"
  using net_only_newSeq [of gw]
  by (cases "factory_newSeq (gw_service gw)")
    (auto simp: gw_sendMessageByNodeID_def gw_newP2PMessage_def split: prod.splits bool.splits option.splits
      intro: net_only_trans dest!: trySendMessage_net)

lemma sendMessageByNodeIDs_net: "gw_sendMessageByNodeIDs fw wq rnds g src dsts b gw = Inr (es, gw') \<Longrightarrow> net_only gw gw'"
proof (induction dsts arbitrary: gw es)
  case (Cons d dsts)
  then show ?case by (auto simp: sv_bind_Inr intro: net_only_trans dest!: sendMessageByNodeID_net)
qed simp

lemma sendBroadcast_net: "asyncSendBroadcastMessage fw wq g src b gw = Inr (es, gw') \<Longrightarrow> net_only gw gw'"
  using factory_newSeq_keeps [of "gw_service gw"]
  by (cases "factory_newSeq (gw_service gw)")
    (auto simp: asyncSendBroadcastMessage_def gw_newBroadcastMessage_def sv_bind_Inr cpp_bind_eq_Inr on_service_Inr
      split: prod.splits bool.splits intro!: net_only_keeps intro: keeps_trans dest!: send_to_all_keeps)

lemma run_error_resp_net: "run_error_resp fw wq resp error gw = Inr (es, gw') \<Longrightarrow> net_only gw gw'"
  by (auto simp: run_error_resp_def Let_def split: error_resp.splits elim!: on_service_keeps dest: send_resp_keeps)

section \<open>The tables stay consistent\<close>

lemma gw_inv_nm:
  assumes "gw_inv self gw" and "nm_exec fw jl e (gw_nm gw) = Inr nm"
  shows "gw_inv self (gw\<lparr>gw_nm := nm\<rparr>)"
  using assms nm_exec_refines [of "gw_nm gw" fw jl e nm] by (simp add: gw_inv_def)

lemma gw_inv_calls:
  assumes "gw_inv self gw"
  shows "onRemoveNodeIDs fw p (gw_nm gw) = Inr (ns, nm) \<Longrightarrow> gw_inv self (gw\<lparr>gw_nm := nm\<rparr>)"
    and "onReceiveNodeIDs fw jl p json (gw_nm gw) = Inr (ns, nm) \<Longrightarrow> gw_inv self (gw\<lparr>gw_nm := nm\<rparr>)"
    and "updateFrontServiceInfo fw tars now start (gw_nm gw) = Inr (ns, nm) \<Longrightarrow> gw_inv self (gw\<lparr>gw_nm := nm\<rparr>)"
  by (rule gw_inv_nm [OF assms, where e = "PeerLost p" and fw = fw and jl = undefined], simp)
    (rule gw_inv_nm [OF assms, where e = "PeerAnswered p json" and fw = fw and jl = jl], simp,
     rule gw_inv_nm [OF assms, where e = "RefreshFronts tars now start" and fw = fw and jl = undefined], simp)

lemma gw_inv_disconnect:
  "gw_inv self gw \<Longrightarrow> gateway_disconnect_handler fw a gw = Inr (es, gw') \<Longrightarrow> gw_inv self gw'"
  by (auto simp: gateway_disconnect_handler_def cpp_bind_eq_Inr split: option.splits dest: gw_inv_calls)

lemma gw_inv_response:
  "gw_inv self gw \<Longrightarrow> onResponsePacket fw jl p payload gw = Inr (es, gw') \<Longrightarrow> gw_inv self gw'"
  by (auto simp: onResponsePacket_def cpp_bind_eq_Inr dest: gw_inv_calls)

lemma onReceiveP2P_net: "onReceiveP2PMessage fw wq g src dst b resp gw = Inr (es, gw') \<Longrightarrow> net_only gw gw'"
  by (auto simp: onReceiveP2PMessage_def split: option.splits dest: run_error_resp_net)

lemma gw_inv_packet:
  assumes inv: "gw_inv self gw" and run: "service_onMessage fw jl wq alive e a m gw = Inr (es, gw')"
  shows "gw_inv self gw'"
proof -
  have lose: "on_service (lose_session e b) gw = Inr (es, gw') \<Longrightarrow> net_only gw gw'" for b
    by (erule on_service_exec [where ev = "SessionError e b"]) simp
  have send: "on_service (sendMessageBySession fw wq t p b) gw = Inr (es, gw') \<Longrightarrow> net_only gw gw'" for t p b
    by (erule on_service_keeps) (rule send_by_session_keeps)
  have "net_only gw gw' \<or> (\<exists>p payload. onResponsePacket fw jl p payload gw = Inr (es, gw'))"
    using run lose send onReceiveP2P_net
    by (auto simp: service_onMessage_def onHeartbeat_def onRequestPacket_def onPeerToPeerPacket_def onBroadcastPacket_def
        Let_def cpp_bind_eq_Inr split: option.splits if_splits list.splits)
  then show ?thesis using gw_inv_net [OF inv] gw_inv_response [OF inv] by blast
qed

lemma gw_inv_amop_packet:
  assumes inv: "gw_inv self gw" and run: "onAMOPMessage fw jl wq topicOf rnd proxy e a m gw = Inr (es, gw')"
  shows "gw_inv self gw'"
proof -
  obtain p r where r: "dispatcherAMOPMessage fw jl topicOf rnd proxy e a p m (gw_tm gw) = Inr r" "with_topics fw wq r gw = Inr (es, gw')"
    using run by (auto simp: onAMOPMessage_def cpp_bind_eq_Inr split: option.splits)
  have "tm_inv (snd r)"
    using dispatch_safe [of "gw_tm gw" fw jl topicOf rnd proxy e a p m] inv r(1) by (auto simp: gw_inv_def split: prod.splits)
  from with_topics_inv [OF inv this r(2)] show ?thesis .
qed

lemma tm_inv_send: "tm_inv tm \<Longrightarrow> tm_inv (snd (asyncSendMessageByTopic fw rnd proxy conn topic b cb tm))"
  using tm_inv_notify_topic
  by (auto simp: asyncSendMessageByTopic_def trySendTopicMessageToLocalClient_def Let_def)

lemma gw_inv_exec:
  fixes es :: "'key gateway_effect list"
  assumes inv: "gw_inv self gw" and run: "node_exec fw wq env ev gw = Inr (es, gw')"
  shows "gw_inv self gw'"
proof -
  have tm: "tm_inv (gw_tm gw)" using inv by (simp add: gw_inv_def)
  note topics = with_topics_inv [OF inv, rotated, where fw = fw and wq = wq and es = es and gw' = gw']
  show ?thesis
  proof (cases ev)
    case GwStart
    then have "svc_exec fw wq StartService (gw_service gw) = Inr (service_start (gw_service gw))" by simp
    then have "net_only gw (gw\<lparr>gw_service := snd (service_start (gw_service gw))\<rparr>)"
      using svc_inv_exec [of "gw_service gw" fw wq StartService] svc_exec_nodeID [of fw wq StartService "gw_service gw"]
      by (cases "service_start (gw_service gw)") (simp add: net_only_def)
    with GwStart run show ?thesis by (auto simp: gateway_start_def split: prod.splits intro: gw_inv_net [OF inv])
  next
    case GwStop
    then obtain es0 :: "'key gateway_effect list" where "on_service service_stop gw = Inr (es0, gw')" using run by (auto simp: gateway_stop_def cpp_bind_eq_Inr)
    then have "net_only gw gw'" by (rule on_service_exec [where fw = fw and wq = wq and ev = StopService]) simp
    then show ?thesis by (rule gw_inv_net [OF inv])
  next
    case (Connection k e info session)
    then have "net_only gw gw'" using run
      by (intro on_service_exec [where fw = fw and wq = wq and ev = "HostConnected k e info session"]) simp_all
    then show ?thesis by (rule gw_inv_net [OF inv])
  next
    case (ReconnectTimer error net)
    then have "net_only gw gw'" using run
      by (intro on_service_exec [where fw = fw and wq = wq and ev = "ServiceTimer error net"]) simp_all
    then show ?thesis by (rule gw_inv_net [OF inv])
  next
    case (TopicSend rnd topic b cb)
    then show ?thesis using run by (auto simp: gw_asyncSendMessageByTopic_def intro: topics tm_inv_send [OF tm])
  next
    case (TopicSubscribe client info cb)
    with run have "with_topics fw wq (asyncSubscribeTopic (ne_jl env) (ne_proxy env) client info cb (gw_tm gw)) gw = Inr (es, gw')"
      by (simp add: gw_asyncSubscribeTopic_def)
    then show ?thesis by (rule topics) (simp add: asyncSubscribeTopic_def tm_inv_subTopic [OF tm])
  next
    case (TopicRemove client ts cb)
    with run have "with_topics fw wq (asyncRemoveTopic client ts cb (gw_tm gw)) gw = Inr (es, gw')"
      by (simp add: gw_asyncRemoveTopic_def)
    then show ?thesis by (rule topics) (simp add: asyncRemoveTopic_def tm_inv_removeTopics [OF tm])
  next
    case (GroupChanged g nodes cb)
    then show ?thesis using run inv nm_inv_add_group_nodes [of "gw_nm gw" "ne_client env" g nodes False]
      by (auto simp: asyncNotifyGroupInfo_def updateFrontServiceInfo_group_def cpp_bind_eq_Inr gw_inv_def split: prod.splits if_splits)
  next
    case (Packet alive e a m)
    then show ?thesis using run gw_inv_packet [OF inv] by simp
  next
    case (AmopPacket rnd e a m)
    then show ?thesis using run gw_inv_amop_packet [OF inv] by simp
  next
    case (SessionLost a)
    then show ?thesis using run gw_inv_disconnect [OF inv] by simp
  next
    case (RegisterFront g n front)
    then show ?thesis using run inv gw_inv_nm [OF inv, where e = "RegisterNode g n front" and fw = fw and jl = "ne_jl env"]
      by (auto simp: gw_registerFrontService_def case_prod_unfold)
  next
    case (UnregisterFront g n)
    then show ?thesis using run inv gw_inv_nm [OF inv, where e = "UnregisterNode g n" and fw = fw and jl = "ne_jl env"]
      by (auto simp: gw_unregisterFrontService_def case_prod_unfold)
  next
    case (FrontCheck now start)
    then show ?thesis using run gw_inv_calls(3) [OF inv] by (auto simp: onFrontServiceTimer_def cpp_bind_eq_Inr)
  next
    case TopicCheck
    then show ?thesis using run inv tm_inv_check [OF tm] by (auto simp: onTopicCheckTimer_def gw_inv_def)
  next
    case TopicSync
    with run have "with_topics fw wq (broadcastTopicSeq fw (gw_tm gw), gw_tm gw) gw = Inr (es, gw')"
      by (simp add: onTopicSyncTimer_def)
    then show ?thesis by (rule topics) (simp add: tm)
  next
    case (TopicBroadcast topic b)
    with run have "with_topics fw wq (asyncSendBroadbastMessageByTopic fw (\<lambda>n. connected n (gw_service gw)) topic b (gw_tm gw), gw_tm gw) gw = Inr (es, gw')"
      by (simp add: gw_asyncSendBroadbastMessageByTopic_def)
    then show ?thesis by (rule topics) (simp add: tm)
  next
    case (RetryCallback rnd r reply)
    then show ?thesis using run inv
      by (auto simp: onGatewayRetryReply_def cpp_bind_eq_Inr split: if_splits intro: gw_inv_net dest: trySendMessage_net)
  next
    case (AmopCallback rnd cont reply)
    then show ?thesis using run inv
      by (auto simp: onAmopReply_def cpp_bind_eq_Inr split: p2p_continuation.splits intro: gw_inv_net dest: run_amop_effects_net)
  next
    case (ClientAnswer target error b)
    then show ?thesis using run inv by (auto simp: cpp_bind_eq_Inr intro: gw_inv_net dest: run_amop_effects_net)
  next
    case (SessionWork a f)
    then have "net_only gw gw'" using run by (auto elim!: on_service_keeps dest: on_session_keeps)
    then show ?thesis by (rule gw_inv_net [OF inv])
  next
    case (HeartbeatTimer k a)
    then have "net_only gw gw'" using run by (auto elim!: on_service_keeps dest: p2p_heartBeat_keeps)
    then show ?thesis by (rule gw_inv_net [OF inv])
  qed (use run inv in \<open>auto intro: gw_inv_net dest: sendMessageByNodeID_net sendMessageByNodeIDs_net sendBroadcast_net run_error_resp_net\<close>)
qed

lemma gw_inv_run: "gw_inv self gw \<Longrightarrow> node_run fw wq env evs gw = Inr (es, gw') \<Longrightarrow> gw_inv self gw'"
  by (induction evs arbitrary: gw es) (auto simp: sv_bind_Inr dest: gw_inv_exec)

lemma gw_inv_built: "gw_inv self (build_gateway fw self eps rpc)"
proof -
  have "svc_inv (gw_service (build_gateway fw self eps rpc))"
    by (rule svc_inv_same [OF svc_inv_new [of self]])
      (simp_all add: build_gateway_eq registerDisconnectHandler_def registerHandlerByMsgType_def setStaticNodes_def
        new_service_def um_has_def ps_view_def fun_eq_iff)
  then show ?thesis
    by (simp add: gw_inv_def build_gateway_eq nm_inv_new tm_inv_new registerDisconnectHandler_def registerHandlerByMsgType_def
        setStaticNodes_def new_service_def um_has_def)
qed

text \<open>
  Claim C14: whatever happens to a gateway from its construction on - packets of any content, in
  any order, connections and their loss, calls of the local nodes and clients, callbacks and
  timers - its session table, its routes and its topic tables satisfy their invariants, its own
  identity never changes, every route goes through a gateway whose status sequence is held, and
  no registered session is one with itself.
\<close>

theorem gateway_tables_consistent:
  fixes evs :: "('key, 'q) node_event list"
  shows "case node_run fw wq env evs (build_gateway fw self eps rpc) of
     Inl u \<Rightarrow> True
   | Inr (es, gw) \<Rightarrow> svc_inv (gw_service gw) \<and> nm_inv (gw_nm gw) \<and> tm_inv (gw_tm gw) \<and>
       sv_nodeID (gw_service gw) = self \<and> getP2PSessionByNodeId self (gw_service gw) = None \<and>
       {p. route_has (m_peerGatewayNodes (gw_nm gw)) g n p} \<subseteq> {p. um_has p (m_p2pID2Seq (gw_nm gw))}"
proof (cases "node_run fw wq env evs (build_gateway fw self eps rpc)")
  case (Inr r)
  obtain es gw where r: "r = (es, gw)" by (cases r)
  have inv: "gw_inv self gw" using gw_inv_run [OF gw_inv_built] Inr r by blast
  have "um_has p (m_p2pID2Seq (gw_nm gw))" if "route_has (m_peerGatewayNodes (gw_nm gw)) g n p" for p
    using inv that by (auto simp: gw_inv_def nm_inv_def peer_lists_def um_has_iff split: option.splits)
  moreover have "getP2PSessionByNodeId self (gw_service gw) = None"
    using inv svc_invD(2) [of "gw_service gw" self] by (cases "map_of (sv_sessions (gw_service gw)) self") (auto simp: gw_inv_def getP2PSessionByNodeId_def)
  ultimately show ?thesis using inv Inr r by (auto simp: gw_inv_def)
qed simp

definition example_node_env :: "jv node_env" where
  "example_node_env = \<lparr>ne_jl = jv_lib, ne_topicOf = (\<lambda>_. Some ''t''), ne_proxy = (\<lambda>_. Some 9), ne_active = (\<lambda>_. []),
     ne_rpcName = ''rpc'', ne_topicTars = (\<lambda>_ eps. eps), ne_frontTars = (\<lambda>_. ([], [])),
     ne_client = (\<lambda>_. \<lparr>m_frontService = 0, m_frontServicePrx = None\<rparr>)\<rparr>"

definition example_events :: "(bytes, bytes list) node_event list" where
  "example_events = [GwStart, RegisterFront ''g1'' [65, 66] 5, TopicSubscribe ''c'' ''{}'' None, TopicCheck]"

theorem gateway_tables_consistent_witness:
  "\<exists>es gw. node_run example_fw list_queue example_node_env example_events (build_gateway example_fw ''p1'' [] None) = Inr (es, gw) \<and>
     svc_inv (gw_service gw) \<and> nm_inv (gw_nm gw) \<and> tm_inv (gw_tm gw)"
proof -
  let ?r = "node_run example_fw list_queue example_node_env example_events (build_gateway example_fw ''p1'' [] None)"
  have "\<exists>r. ?r = Inr r"
    by (simp add: example_events_def sv_bind_def cpp_bind_def gw_asyncSubscribeTopic_def asyncSubscribeTopic_def with_topics_def
        case_prod_unfold)
  then obtain es gw where "?r = Inr (es, gw)" by fastforce
  with gateway_tables_consistent [where fw = example_fw and wq = list_queue and env = example_node_env and evs = example_events
      and self = "''p1''" and eps = "[]" and rpc = None] show ?thesis
    by simp
qed

end
