(* ===== verification/Node_Defined.thy ===== *)
theory Node_Defined
  imports Node_Run Node_Network
begin

text \<open>
  When a gateway has defined behaviour: no operation of a run reads outside a buffer or follows a
  null pointer as long as the events are ones the program is prepared for, and exactly which packets
  of a peer it is not prepared for.
\<close>

section \<open>Operations that return, with what holds after\<close>

definition yields :: "('s \<Rightarrow> bool) \<Rightarrow> ('e list \<times> 's) cpp \<Rightarrow> bool" where
  "yields P x = (case x of Inl u \<Rightarrow> False | Inr (es, s) \<Rightarrow> P s)"

lemma yields_Inr [simp]: "yields P (Inr (es, s)) = P s"
  by (simp add: yields_def)

lemma yields_ex: "yields P x \<longleftrightarrow> (\<exists>es s. x = Inr (es, s) \<and> P s)"
  by (auto simp: yields_def split: sum.splits)

lemma yields_bind: "yields P x \<Longrightarrow> (\<And>s. P s \<Longrightarrow> yields Q (f s)) \<Longrightarrow> yields Q (sv_bind x f)"
  by (fastforce simp: yields_ex)

lemma yields_after [simp]: "yields P (cpp_bind x (\<lambda>(es', s'). Inr (es @ es', s'))) = yields P x"
  by (cases x) (auto simp: yields_def)

lemma yields_mono: "yields P x \<Longrightarrow> (\<And>s. P s \<Longrightarrow> Q s) \<Longrightarrow> yields Q x"
  by (auto simp: yields_ex)

section \<open>Sessions with a host\<close>

text \<open>The operation of a session returns, and the session keeps its host.\<close>

definition hosted :: "'q session \<Rightarrow> bool" where
  "hosted s \<longleftrightarrow> m_server s \<noteq> None"

lemma hosted_fields [simp]:
  "hosted (s\<lparr>m_writing := b\<rparr>) = hosted s" "hosted (s\<lparr>m_writing := b, m_writeQueue := q\<rparr>) = hosted s"
  "hosted (s\<lparr>m_writeQueue := q\<rparr>) = hosted s" "hosted (s\<lparr>m_data := d\<rparr>) = hosted s" "hosted (addSeqCallback k rc s) = hosted s"
  "hosted (s\<lparr>m_messageHandler := b\<rparr>) = hosted s"
  by (simp_all add: hosted_def addSeqCallback_def)

definition hosted_op :: "('q session \<Rightarrow> 'q session_result) \<Rightarrow> bool" where
  "hosted_op f \<longleftrightarrow> (\<forall>s. hosted s \<longrightarrow> yields hosted (f s))"

lemma hosted_opD: "hosted_op f \<Longrightarrow> hosted s \<Longrightarrow> yields hosted (f s)"
  by (simp add: hosted_op_def)

lemma hosted_opI: "(\<And>s. hosted s \<Longrightarrow> yields hosted (f s)) \<Longrightarrow> hosted_op f"
  by (simp add: hosted_op_def)

lemma hosted_bind: "hosted s \<Longrightarrow> hosted_op f \<Longrightarrow> yields hosted (eff_bind (Inr (es, s)) f)"
  using hosted_opD [of f s] by (auto simp: yields_ex eff_bind_Inr)

lemma hosted_drop: "hosted_op (session_drop r)"
  by (rule hosted_opI) (auto simp: session_drop_def Let_def hosted_def)

lemma hosted_write: "hosted_op (session_write wq)"
  by (rule hosted_opI) (simp add: session_write_def actived_def Let_def)

lemma hosted_send: "hosted_op (session_send wq b)"
  by (rule hosted_opI) (simp add: session_send_def hosted_opD [OF hosted_write])

lemma hosted_asyncSend: "hosted_op (asyncSendMessage fw wq m t cb)"
proof (rule hosted_opI)
  fix s :: "'a session"
  assume s: "hosted s"
  then obtain h where server: "m_server s = Some h" by (auto simp: hosted_def)
  show "yields hosted (asyncSendMessage fw wq m t cb s)"
  proof (cases "actived s")
    case True
    then show ?thesis using s by (cases cb) (simp_all add: asyncSendMessage_def Let_def hosted_bind hosted_send del: eff_bind_pure)
  next
    case False
    then show ?thesis using s server by (cases cb) (simp_all add: asyncSendMessage_def)
  qed
qed

lemma hosted_onWrite: "hosted_op (session_onWrite wq ec)"
  by (rule hosted_opI) (simp add: session_onWrite_def Let_def hosted_bind hosted_drop hosted_write del: eff_bind_pure)

lemma hosted_doRead: "hosted_op session_doRead"
proof (rule hosted_opI)
  fix s :: "'a session"
  assume s: "hosted s"
  then obtain h where "m_server s = Some h" by (auto simp: hosted_def)
  then show "yields hosted (session_doRead s)"
    using hosted_opD [OF hosted_drop s] s by (simp add: session_doRead_def)
qed

lemma hosted_onIdle: "hosted_op (session_onIdle aborted)"
  by (rule hosted_opI) (simp add: session_onIdle_def hosted_opD [OF hosted_drop])

text \<open>The receive loop reads nothing outside its buffer, whatever bytes arrive.\<close>

lemma hosted_onRead: "hosted_op (session_onRead fw ec bytes)"
proof (rule hosted_opI)
  fix s :: "'a session"
  assume s: "hosted s"
  show "yields hosted (session_onRead fw ec bytes s)"
  proof (cases ec)
    case True
    then show ?thesis using hosted_opD [OF hosted_drop s] by (simp add: session_onRead_def)
  next
    case False
    let ?f = "\<lambda>m es. es @ session_onMessage success m s"
    let ?g = "\<lambda>m es. es @ session_onMessage (network_error ProtocolError ''ProtocolError'') m s"
    obtain goon data es where loop: "read_loop (p2p_dec fw) ?f ?g (m_data s @ bytes) (updateIdleTimer s) = Inr (goon, data, es)"
      using read_loop_suffix [where dec = "p2p_dec fw" and f = ?f and g = ?g and data = "m_data s @ bytes" and s = "updateIdleTimer s",
          OF p2p_dec_bounded] by blast
    have "hosted_op (if goon then session_doRead else (\<lambda>s. Inr ([], s)))"
      by (cases goon) (simp_all add: hosted_doRead, simp add: hosted_op_def)
    with s have "yields hosted (eff_bind (Inr (es, s\<lparr>m_data := data\<rparr>)) (if goon then session_doRead else (\<lambda>s. Inr ([], s))))"
      by (intro hosted_bind) simp
    then show ?thesis using False loop by (simp add: session_onRead_def del: eff_bind_pure split del: if_split)
  qed
qed

lemma hosted_start: "hosted_op (\<lambda>s. Inr (session_start s))"
  by (rule hosted_opI) (simp add: session_start_def Let_def hosted_def)

lemma hosted_stop: "hosted_op (\<lambda>s. if actived s then session_disconnect r s else Inr ([], s))"
  by (rule hosted_opI) (simp add: session_disconnect_def hosted_opD [OF hosted_drop])


section \<open>The service\<close>

text \<open>
  Every session of the service has its host, every registered one is there, and so are those of
  \<open>A\<close>, the addresses that closures and handlers outside refer to.
\<close>

definition svc_good :: "nat set \<Rightarrow> ('q, 'c) service \<Rightarrow> bool" where
  "svc_good A sv \<longleftrightarrow> (\<forall>a ps. map_of (sv_store sv) a = Some ps \<longrightarrow> hosted (ps_session ps)) \<and>
     (\<forall>n a. map_of (sv_sessions sv) n = Some a \<longrightarrow> map_of (sv_store sv) a \<noteq> None) \<and>
     (\<forall>a \<in> A. map_of (sv_store sv) a \<noteq> None)"

lemma svc_good_fields [simp]:
  "svc_good A (sv\<lparr>sv_seq := x\<rparr>) = svc_good A sv" "svc_good A (sv\<lparr>sv_next := k\<rparr>) = svc_good A sv"
  "svc_good A (sv\<lparr>sv_next := k, sv_closures := y\<rparr>) = svc_good A sv" "svc_good A (sv\<lparr>sv_run := b\<rparr>) = svc_good A sv"
  "svc_good A (sv\<lparr>sv_timer := b\<rparr>) = svc_good A sv" "svc_good A (sv\<lparr>sv_staticNodes := z\<rparr>) = svc_good A sv"
  "svc_good A (updateStaticNodes ep n sv) = svc_good A sv" "svc_good A (snd (factory_newSeq sv)) = svc_good A sv"
  by (simp_all add: svc_good_def updateStaticNodes_def factory_newSeq_def newSeq_def Let_def)

lemma on_session_yields:
  assumes good: "svc_good A sv" and a: "map_of (sv_store sv) a \<noteq> None" and f: "hosted_op f"
  shows "yields (svc_good A) (on_session a f sv)"
proof -
  obtain ps where ps: "map_of (sv_store sv) a = Some ps" using a by blast
  then have "hosted (ps_session ps)" using good by (simp add: svc_good_def)
  then obtain es s where "f (ps_session ps) = Inr (es, s)" "hosted s" using hosted_opD [OF f] unfolding yields_ex by blast
  with good ps show ?thesis by (auto simp: on_session_def svc_good_def um_simps)
qed

lemma set_ps_run_good: "svc_good A sv \<Longrightarrow> svc_good A (set_ps_run a b sv)"
  by (auto simp: set_ps_run_def svc_good_def um_simps split: option.split)

lemma stored_actived: "ps_actived sv a \<Longrightarrow> map_of (sv_store sv) a \<noteq> None"
  by (auto simp: ps_actived_def split: option.splits)

lemma set_ps_run_stored: "(\<exists>y. map_of (sv_store (set_ps_run b x sv)) a = Some y) \<longleftrightarrow> (\<exists>y. map_of (sv_store sv) a = Some y)"
  by (auto simp: set_ps_run_def um_simps split: option.split)

lemma good_stored: "svc_good A sv \<Longrightarrow> a \<in> A \<Longrightarrow> map_of (sv_store sv) a \<noteq> None"
  by (simp add: svc_good_def)

lemma good_registered: "svc_good A sv \<Longrightarrow> map_of (sv_sessions sv) n = Some a \<Longrightarrow> map_of (sv_store sv) a \<noteq> None"
  unfolding svc_good_def by blast

lemma p2p_heartBeat_yields:
  assumes good: "svc_good A sv" and a: "map_of (sv_store sv) a \<noteq> None"
  shows "yields (svc_good A) (p2p_heartBeat fw wq k a sv)"
proof -
  obtain ps where ps: "map_of (sv_store sv) a = Some ps" using a by blast
  have "yields (svc_good A) (if actived (ps_session ps)
      then on_session a (asyncSendMessage fw wq (heartbeat_message fw k) 0 None) sv else Inr ([], sv))"
    by (simp add: on_session_yields [OF good a hosted_asyncSend] good)
  then have "yields (svc_good A) (sv_bind (if actived (ps_session ps)
      then on_session a (asyncSendMessage fw wq (heartbeat_message fw k) 0 None) sv else Inr ([], sv))
      (\<lambda>sv. Inr ([ArmP2PSessionTimer a 5000], sv)))" by (rule yields_bind) simp
  then show ?thesis using good by (cases "sv_run sv") (simp_all add: p2p_heartBeat_def ps split del: if_split)
qed

lemma p2p_start_yields:
  assumes good: "svc_good A sv" and a: "a \<in> A"
  shows "yields (svc_good A) (p2p_start fw wq k a sv)"
proof -
  have "yields (svc_good A) (on_session a (\<lambda>s. Inr (session_start s)) (set_ps_run a True sv))"
    using good_stored [OF good a] by (intro on_session_yields set_ps_run_good good hosted_start) (simp add: set_ps_run_stored)
  then have "yields (svc_good A) (sv_bind (on_session a (\<lambda>s. Inr (session_start s)) (set_ps_run a True sv)) (p2p_heartBeat fw wq k a))"
    by (rule yields_bind) (rule p2p_heartBeat_yields [OF _ good_stored [OF _ a]])
  then show ?thesis using good by (simp add: p2p_start_def)
qed

lemma p2p_stop_yields: "svc_good A sv \<Longrightarrow> yields (svc_good A) (p2p_stop r a sv)"
  by (auto simp: p2p_stop_def set_ps_run_stored dest: stored_actived intro!: on_session_yields hosted_stop set_ps_run_good)

lemma stop_sessions_yields: "svc_good A sv \<Longrightarrow> yields (svc_good A) (stop_sessions as sv)"
proof (induction as arbitrary: sv)
  case (Cons a as)
  show ?case using yields_bind [OF p2p_stop_yields [OF Cons.prems] Cons.IH] by simp
qed simp

lemma service_stop_yields:
  assumes "svc_good A sv"
  shows "yields (svc_good A) (service_stop sv)"
proof -
  have cleared: "svc_good A (sv\<lparr>sv_sessions := []\<rparr>)" if "svc_good A sv" for sv :: "('a, 'b) service"
    using that by (simp add: svc_good_def)
  have rest: "yields (svc_good A) (sv_bind (stop_sessions as sv) (\<lambda>sv. Inr ([], sv\<lparr>sv_sessions := []\<rparr>)))"
    if "svc_good A sv" for as and sv :: "('a, 'b) service"
    by (rule yields_bind [OF stop_sessions_yields [OF that]]) (simp add: cleared)
  have "yields (svc_good A) (sv_bind (Inr (es, sv\<lparr>sv_run := False\<rparr>))
      (\<lambda>sv. sv_bind (stop_sessions (map snd (sv_sessions sv)) sv) (\<lambda>sv. Inr ([], sv\<lparr>sv_sessions := []\<rparr>))))" for es :: "'b service_effect list"
    by (rule yields_bind [where P = "svc_good A"]) (use assms in simp, rule rest)
  then show ?thesis using assms by (simp add: service_stop_def del: sv_bind_simps)
qed

lemma service_start_good: "svc_good A sv \<Longrightarrow> svc_good A (snd (service_start sv))"
  by (simp add: service_start_def service_heartBeat_def)

lemma service_timer_good: "svc_good A sv \<Longrightarrow> svc_good A (snd (service_onTimer error net sv))"
  by (simp add: service_onTimer_def service_heartBeat_def)

text \<open>A new session is registered at an address that is new.\<close>

lemma onConnect_yields:
  assumes good: "svc_good A sv" and ok: "ne_code e = 0 \<longrightarrow> (case session of None \<Rightarrow> False | Some (s, ep) \<Rightarrow> hosted s)"
  shows "yields (svc_good A) (onConnect fw wq k e info session sv)"
proof (cases "ne_code e = 0")
  case True
  then obtain s ep where session: "session = Some (s, ep)" "hosted s" using ok by (auto split: option.splits)
  let ?a = "sv_next sv"
  let ?sv1 = "sv\<lparr>sv_store := um_put ?a (new_p2p_session s ep info) (sv_store sv), sv_next := ?a + 1\<rparr>"
  have "yields hosted (session_disconnect DuplicatePeer s)"
    using hosted_opD [OF hosted_drop session(2)] by (simp add: session_disconnect_def)
  then have refuse: "yields (svc_good A) (refuse_session s ep n sv)" for n
    using good by (auto simp: refuse_session_def yields_ex)
  have "svc_good (insert ?a A) ?sv1"
    using good session(2) by (auto simp: svc_good_def um_simps new_p2p_session_def)
  from p2p_start_yields [OF this, of ?a fw wq k] have "yields (svc_good (insert ?a A)) (p2p_start fw wq k ?a ?sv1)" by simp
  then have "yields (svc_good A) (sv_bind (p2p_start fw wq k ?a ?sv1) (\<lambda>sv2.
      let sv3 = updateStaticNodes ep (pi_p2pID info) sv2 in Inr ([], sv3\<lparr>sv_sessions := um_put (pi_p2pID info) ?a (sv_sessions sv3)\<rparr>)))"
    by (rule yields_bind) (auto simp: svc_good_def um_simps Let_def split: if_splits)
  then show ?thesis using True refuse by (simp add: onConnect_def session(1) Let_def)
next
  case False
  then show ?thesis using good by (simp add: onConnect_def)
qed

lemma onDisconnect_yields: "svc_good A sv \<Longrightarrow> map_of (sv_store sv) a \<noteq> None \<Longrightarrow> yields (svc_good A) (onDisconnect e a sv)"
  by (auto simp: onDisconnect_def Let_def svc_good_def um_simps split: if_splits)

lemma lose_session_yields: "svc_good A sv \<Longrightarrow> a \<in> A \<Longrightarrow> yields (svc_good A) (lose_session e a sv)"
  unfolding lose_session_def by (rule yields_bind [OF p2p_stop_yields]) (auto intro: onDisconnect_yields dest: good_stored)


section \<open>Sending\<close>

text \<open>For the operations that also return the message.\<close>

definition yields3 :: "('s \<Rightarrow> bool) \<Rightarrow> ('e list \<times> 'm \<times> 's) cpp \<Rightarrow> bool" where
  "yields3 P x = (case x of Inl u \<Rightarrow> False | Inr (es, m, s) \<Rightarrow> P s)"

lemma yields3_ex: "yields3 P x \<longleftrightarrow> (\<exists>es m s. x = Inr (es, m, s) \<and> P s)"
  by (auto simp: yields3_def split: sum.splits)

lemma send_yields:
  assumes good: "svc_good A sv"
  shows "yields3 (svc_good A) (asyncSendMessageByNodeID fw wq n m cb t sv)"
proof (cases "n = sv_nodeID sv \<or> \<not> isConnected n sv")
  case True
  then show ?thesis using good
    by (auto simp: asyncSendMessageByNodeID_def isConnected_def yields3_def split: option.splits if_splits)
next
  case False
  then obtain a where a: "map_of (sv_sessions sv) n = Some a" "ps_actived sv a"
    by (auto simp: isConnected_def split: option.splits)
  let ?sv1 = "if m_seq m = 0 then snd (factory_newSeq sv) else sv"
  let ?m = "if m_seq m = 0 then m\<lparr>m_seq := fst (factory_newSeq sv)\<rparr> else m"
  let ?sv2 = "case cb of None \<Rightarrow> ?sv1 | Some c \<Rightarrow> ?sv1\<lparr>sv_next := sv_next ?sv1 + 1,
      sv_closures := um_put (sv_next ?sv1) (a, refers_to c ?m) (sv_closures ?sv1)\<rparr>"
  have "svc_good A ?sv1" using good by simp
  then have good2: "svc_good A ?sv2" by (cases cb) simp_all
  have "sv_store ?sv1 = sv_store sv" by (simp add: factory_newSeq_def newSeq_def Let_def)
  then have "sv_store ?sv2 = sv_store sv" by (cases cb) simp_all
  then have "map_of (sv_store ?sv2) a \<noteq> None" using good_registered [OF good a(1)] by simp
  from on_session_yields [OF good2 this hosted_asyncSend] obtain es sv'
    where "on_session a (asyncSendMessage fw wq ?m t (case cb of None \<Rightarrow> None | Some c \<Rightarrow> Some (sv_next ?sv1))) ?sv2 = Inr (es, sv')"
      "svc_good A sv'" unfolding yields_ex by blast
  then show ?thesis using False a
    by (cases cb; cases "m_seq m = 0")
      (auto simp: asyncSendMessageByNodeID_def yields3_def case_prod_unfold)
qed

lemma broadcast_to_yields: "svc_good A sv \<Longrightarrow> yields (svc_good A) (broadcast_to fw wq ns m t sv)"
proof (induction ns arbitrary: m sv)
  case (Cons n ns)
  obtain es m' sv' where send: "asyncSendMessageByNodeID fw wq n m None t sv = Inr (es, m', sv')" "svc_good A sv'"
    using send_yields [OF Cons.prems] unfolding yields3_ex by blast
  from Cons.IH [OF send(2), of m'] send(1) show ?case by (auto simp: yields_ex)
qed simp

lemma send_to_all_yields: "svc_good A sv \<Longrightarrow> yields (svc_good A) (send_to_all fw wq ns m sv)"
proof (induction ns arbitrary: m sv)
  case (Cons n ns)
  obtain es m' sv' where send: "asyncSendMessageByNodeID fw wq n m None 0 sv = Inr (es, m', sv')" "svc_good A sv'"
    using send_yields [OF Cons.prems] unfolding yields3_ex by blast
  from Cons.IH [OF send(2), of m'] send(1) show ?case by (auto simp: yields_ex)
qed simp

lemma newP2PMessage_good [simp]: "svc_good A (snd (newP2PMessage type payload sv)) = svc_good A sv"
  by (simp add: newP2PMessage_def factory_newSeq_def newSeq_def Let_def)

lemma send_p2p_yields:
  assumes "svc_good A sv"
  shows "yields (svc_good A) (asyncSendMessageByP2PNodeID fw wq type n payload t cb sv)"
proof -
  obtain m sv1 where m: "newP2PMessage type payload sv = (m, sv1)" by fastforce
  then have "svc_good A sv1" using assms newP2PMessage_good [of A type payload sv] by simp
  from send_yields [OF this, of fw wq n m "Some (P2PNodeCallback n cb)" t] show ?thesis
    using assms by (auto simp: asyncSendMessageByP2PNodeID_def m yields_ex yields3_ex split: option.splits)
qed

lemma send_p2p_list_yields: "svc_good A sv \<Longrightarrow> yields (svc_good A) (asyncSendMessageByP2PNodeIDs fw wq type ns payload t sv)"
proof (induction ns arbitrary: sv)
  case (Cons n ns)
  show ?case using yields_bind [OF send_p2p_yields [OF Cons.prems] Cons.IH] by simp
qed simp

lemma broadcast_p2p_yields:
  assumes "svc_good A sv"
  shows "yields (svc_good A) (asyncBroadcastMessageToP2PNodes fw wq type payload t sv)"
proof -
  obtain m sv1 where m: "newP2PMessage type payload sv = (m, sv1)" by fastforce
  then have "svc_good A sv1" using assms newP2PMessage_good [of A type payload sv] by simp
  then show ?thesis by (simp add: asyncBroadcastMessageToP2PNodes_def m asyncBroadcastMessage_def broadcast_to_yields)
qed

lemma send_by_session_yields:
  assumes "svc_good A sv" and "a \<in> A"
  shows "yields (svc_good A) (sendMessageBySession fw wq type payload a sv)"
proof -
  obtain k sv1 where k: "factory_newSeq sv = (k, sv1)" by fastforce
  then have "svc_good A sv1" using assms(1) svc_good_fields(8) [of A sv] by simp
  from on_session_yields [OF this good_stored [OF this assms(2)] hosted_asyncSend] show ?thesis
    by (simp add: sendMessageBySession_def k)
qed

lemma send_resp_yields: "svc_good A sv \<Longrightarrow> a \<in> A \<Longrightarrow> yields (svc_good A) (sendRespMessageBySession fw wq b m a sv)"
  unfolding sendRespMessageBySession_def by (rule on_session_yields [OF _ good_stored hosted_asyncSend])

section \<open>The gateway\<close>

definition hex_ids :: "('key, 'more) bcos_fw_scheme \<Rightarrow> node_manager \<Rightarrow> bool" where
  "hex_ids fw nm \<longleftrightarrow> (\<forall>g n. registered nm g n \<longrightarrow> fromHexString fw n \<noteq> None)"

definition gw_good :: "('key, 'more) bcos_fw_scheme \<Rightarrow> p2p_id \<Rightarrow> nat set \<Rightarrow> 'q gateway \<Rightarrow> bool" where
  "gw_good fw self A gw \<longleftrightarrow> gw_inv self gw \<and> svc_good A (gw_service gw) \<and> hex_ids fw (gw_nm gw)"

text \<open>The part an operation of the service keeps: it leaves the other two tables alone.\<close>

definition net_good :: "nat set \<Rightarrow> 'q gateway \<Rightarrow> 'q gateway \<Rightarrow> bool" where
  "net_good A gw gw' \<longleftrightarrow> svc_good A (gw_service gw') \<and> gw_nm gw' = gw_nm gw \<and> gw_tm gw' = gw_tm gw"

lemma on_service_yields:
  "yields (svc_good A) (f (gw_service gw)) \<Longrightarrow> yields (net_good A gw) (on_service f gw)"
  by (auto simp: yields_ex on_service_def net_good_def)

lemma net_good_trans: "net_good A g1 g2 \<Longrightarrow> net_good A g2 g3 \<Longrightarrow> net_good A g1 g3"
  by (simp add: net_good_def)

lemma net_good_service: "net_good A gw gw' \<Longrightarrow> svc_good A (gw_service gw')"
  by (simp add: net_good_def)

lemma yields_net_bind:
  assumes "yields (net_good A gw) x" and "\<And>gw'. svc_good A (gw_service gw') \<Longrightarrow> yields (net_good A gw') (f gw')"
  shows "yields (net_good A gw) (sv_bind x f)"
proof (rule yields_bind [OF assms(1)])
  fix s
  assume s: "net_good A gw s"
  have "yields (net_good A s) (f s)" by (rule assms(2) [OF net_good_service [OF s]])
  then show "yields (net_good A gw) (f s)" by (rule yields_mono) (rule net_good_trans [OF s])
qed

text \<open>The sessions the effects of AMOP answer on.\<close>

fun amop_at :: "nat set \<Rightarrow> amop_effect \<Rightarrow> bool" where
  "amop_at A (AnswerSession a m) = (a \<in> A)"
| "amop_at A e = True"

lemma run_amop_yields:
  assumes "svc_good A (gw_service gw)" and "amop_at A e"
  shows "yields (net_good A gw) (run_amop_effect fw wq e gw)"
  using assms
  by (cases e) (auto intro!: on_service_yields broadcast_p2p_yields send_p2p_yields send_p2p_list_yields
      on_session_yields hosted_asyncSend dest: good_stored simp: net_good_def)

lemma run_amops_yields: "svc_good A (gw_service gw) \<Longrightarrow> list_all (amop_at A) es \<Longrightarrow> yields (net_good A gw) (run_amop_effects fw wq es gw)"
proof (induction es arbitrary: gw)
  case Nil
  then show ?case by (simp add: net_good_def)
next
  case (Cons e es)
  then show ?case by (auto intro!: yields_net_bind run_amop_yields)
qed


lemma trySendMessage_yields: "svc_good A (gw_service gw) \<Longrightarrow> yields (net_good A gw) (trySendMessage fw wq rnd r gw)"
proof -
  assume good: "svc_good A (gw_service gw)"
  have "yields (svc_good A) (service_send fw wq n m cb t (gw_service gw))" for n m cb t
    using send_yields [OF good, of fw wq n m cb t] by (auto simp: service_send_def yields3_ex yields_ex)
  then show ?thesis using good by (auto simp: trySendMessage_def net_good_def intro!: on_service_yields split: prod.split)
qed

lemma newSeq_net: "svc_good A (gw_service gw) \<Longrightarrow> net_good A gw (gw\<lparr>gw_service := snd (factory_newSeq (gw_service gw))\<rparr>)"
  by (simp add: net_good_def)

lemma sendMessageByNodeID_yields:
  assumes good: "svc_good A (gw_service gw)"
  shows "yields (net_good A gw) (gw_sendMessageByNodeID fw wq rnd g src dst b cb gw)"
proof -
  obtain k sv where k: "factory_newSeq (gw_service gw) = (k, sv)" by fastforce
  then have "net_good A gw (gw\<lparr>gw_service := sv\<rparr>)" using newSeq_net [OF good] by simp
  then have "yields (net_good A gw) (trySendMessage fw wq rnd r (gw\<lparr>gw_service := sv\<rparr>))" for r
    using trySendMessage_yields [of A "gw\<lparr>gw_service := sv\<rparr>"] by (metis net_good_service net_good_trans yields_mono)
  then show ?thesis using good
    by (auto simp: gw_sendMessageByNodeID_def gw_newP2PMessage_def k net_good_def split: prod.split bool.split option.split)
qed

lemma sendMessageByNodeIDs_yields:
  "svc_good A (gw_service gw) \<Longrightarrow> yields (net_good A gw) (gw_sendMessageByNodeIDs fw wq rnds g src dsts b gw)"
proof (induction dsts arbitrary: gw)
  case Nil
  then show ?case by (simp add: net_good_def)
next
  case (Cons d dsts)
  show ?case using yields_net_bind [OF sendMessageByNodeID_yields [OF Cons.prems] Cons.IH] by simp
qed

lemma sendBroadcast_yields:
  assumes good: "svc_good A (gw_service gw)"
  shows "yields (net_good A gw) (asyncSendBroadcastMessage fw wq g src b gw)"
proof -
  obtain k sv where k: "factory_newSeq (gw_service gw) = (k, sv)" by fastforce
  then have net: "net_good A gw (gw\<lparr>gw_service := sv\<rparr>)" using newSeq_net [OF good] by simp
  then have "svc_good A (gw_service (gw\<lparr>gw_service := sv\<rparr>))" by (rule net_good_service)
  then have "yields (net_good A gw) (on_service (send_to_all fw wq ns m) (gw\<lparr>gw_service := sv\<rparr>))" for ns m
    by (intro yields_mono [OF on_service_yields net_good_trans [OF net]] send_to_all_yields)
  then show ?thesis using good
    by (auto simp: asyncSendBroadcastMessage_def gw_newBroadcastMessage_def k net_good_def split: prod.split bool.split)
qed

section \<open>What a gateway is prepared for\<close>

text \<open>
  A packet the dispatcher is prepared for: one with a handler of its own, or a heartbeat with four
  bytes, a message to a node with a sender and a first receiver, a broadcast with a sender.
\<close>

definition packet_ok :: "('key, 'more) bcos_fw_scheme \<Rightarrow> 'q gateway \<Rightarrow> p2p_message \<Rightarrow> bool" where
  "packet_ok fw gw m \<longleftrightarrow> getMessageHandlerByMsgType (m_packetType m) (gw_service gw) \<noteq> None \<or>
     (if m_packetType m = mtHandshake fw then True
      else if m_packetType m = mtHeartbeat fw then 4 \<le> length (m_payload m)
      else if m_packetType m = mtRequestNodeIDs fw \<or> m_packetType m = mtResponseNodeIDs fw then True
      else if m_packetType m = mtPeerToPeerMessage fw
      then m_srcNodeID (m_options m) \<noteq> None \<and> m_dstNodeIDs (m_options m) \<noteq> [] \<and> hd (m_dstNodeIDs (m_options m)) \<noteq> None
      else if m_packetType m = mtBroadcastMessage fw then m_srcNodeID (m_options m) \<noteq> None
      else True)"

definition stored :: "'q gateway \<Rightarrow> nat \<Rightarrow> bool" where
  "stored gw a \<longleftrightarrow> map_of (sv_store (gw_service gw)) a \<noteq> None"

fun target_stored :: "'q gateway \<Rightarrow> reply_target \<Rightarrow> bool" where
  "target_stored gw (ToPeer a m) = stored gw a"
| "target_stored gw (ToCaller cb) = True"

text \<open>
  Events the program is prepared for: sessions that exist and have their host, operations of
  sessions, packets as above, answers that come with a message or data unless they report an error,
  and node ids in hex.
\<close>

fun event_ok :: "('key, 'more) bcos_fw_scheme \<Rightarrow> 'q gateway \<Rightarrow> ('key, 'q) node_event \<Rightarrow> bool" where
  "event_ok fw gw (Connection k e info session) =
     (ne_code e \<noteq> 0 \<or> (case session of None \<Rightarrow> False | Some (s, ep) \<Rightarrow> hosted s))"
| "event_ok fw gw (Packet alive e a m) = (case a of None \<Rightarrow> True
     | Some a \<Rightarrow> stored gw a \<and> (ne_code e \<noteq> 0 \<or> \<not> alive \<or> (case m of None \<Rightarrow> False | Some m \<Rightarrow> packet_ok fw gw m)))"
| "event_ok fw gw (AmopPacket rnd e a m) = stored gw a"
| "event_ok fw gw (SessionLost a) = stored gw a"
| "event_ok fw gw (SessionWork a f) = (stored gw a \<and> hosted_op f)"
| "event_ok fw gw (HeartbeatTimer k a) = stored gw a"
| "event_ok fw gw (FrontAnswer resp error) = (case resp of RespondTo a m \<Rightarrow> stored gw a | _ \<Rightarrow> True)"
| "event_ok fw gw (RetryCallback rnd r reply) = (ne_code (fst reply) \<noteq> exception_code Success \<or> snd reply \<noteq> None)"
| "event_ok fw gw (AmopCallback rnd cont reply) = (reply_failed fw reply \<or> snd (snd reply) \<noteq> None)"
| "event_ok fw gw (ClientAnswer target error b) = (target_stored gw target \<and>
     ((case error of None \<Rightarrow> False | Some e \<Rightarrow> err_code e \<noteq> ceSUCCESS fw) \<or> b \<noteq> None))"
| "event_ok fw gw (RegisterFront g n front) = (fromHexString fw (keyHex fw n) \<noteq> None)"
| "event_ok fw gw (GroupChanged g nodes cb) = list_all (\<lambda>ni. fromHexString fw (ni_nodeID ni) \<noteq> None) nodes"
| "event_ok fw gw ev = True"

text \<open>Every event of the run is one the gateway is prepared for when it comes.\<close>

fun run_ok :: "('key, 'more) bcos_fw_scheme \<Rightarrow> 'q write_queue \<Rightarrow> 'j node_env \<Rightarrow> ('key, 'q) node_event list \<Rightarrow> 'q gateway \<Rightarrow> bool" where
  "run_ok fw wq env [] gw = True"
| "run_ok fw wq env (ev # evs) gw = (event_ok fw gw ev \<and>
     (case node_exec fw wq env ev gw of Inl u \<Rightarrow> True | Inr (es, gw') \<Rightarrow> run_ok fw wq env evs gw'))"

section \<open>Every such event is handled\<close>

lemma hex_ids_fronts:
  assumes "nm_inv nm" and "hex_ids fw nm"
  shows "hex_fronts fw nm"
  using um2_find_mem [OF nm_invD(1) [OF assms(1)]] assms(2)
  by (fastforce simp: hex_fronts_def list_all_iff registered_def hex_ids_def)

lemma notify_yields:
  assumes "nm_inv nm" and "hex_ids fw nm" and "m_frontServiceInfos nm' = m_frontServiceInfos nm"
  shows "\<exists>ns. notifyNodeIDs2FrontService fw nm' = Inr ns"
  using notify_eq [of fw nm'] hex_ids_fronts [OF assms(1,2)] hex_fronts_same [OF assms(3), of fw] by blast


lemma registered_new:
  assumes "nm_inv nm" and "hex_ids fw nm"
    and "case op of Register g n front \<Rightarrow> fromHexString fw (keyHex fw n) \<noteq> None
      | GroupStarted mk g nodes \<Rightarrow> list_all (\<lambda>ni. fromHexString fw (ni_nodeID ni) \<noteq> None) nodes | _ \<Rightarrow> True"
  shows "hex_ids fw (local_step fw op nm)"
proof -
  have "fromHexString fw n \<noteq> None" if reg: "registered (local_step fw op nm) g n" for g n
  proof (cases op)
    case (Refresh tars now st)
    then have "registered nm g n" using reg find_drop_unreachable [OF nm_invD(1) [OF assms(1)], of tars g n]
      by (auto simp: registered_def refresh_fronts_def Let_def increaseSeq_def split: if_splits option.splits)
    with assms(2) show ?thesis by (simp add: hex_ids_def)
  next
    case (GroupStarted mk h nodes)
    then show ?thesis using reg registered_add_group [of mk h nodes False nm g n] assms(2,3) by (auto simp: list_all_iff hex_ids_def)
  next
    case (Register h k front)
    then have "registered nm g n \<or> n = keyHex fw k"
      using reg by (auto simp: registered_def registerFrontService_eq um2_find_put split: if_splits)
    with assms(2,3) Register show ?thesis by (auto simp: hex_ids_def)
  next
    case (Unregister h k)
    then have "registered nm g n"
      using reg by (auto simp: registered_def unregisterFrontService_eq um2_find_erase split: if_splits)
    with assms(2) show ?thesis by (simp add: hex_ids_def)
  qed
  then show ?thesis by (simp add: hex_ids_def)
qed

lemma hex_ids_same: "m_frontServiceInfos nm' = m_frontServiceInfos nm \<Longrightarrow> hex_ids fw nm' = hex_ids fw nm"
  by (simp add: hex_ids_def registered_def)

text \<open>The handlers, for a gateway that is good: they return, and only the tables named change.\<close>

definition good_after :: "('key, 'more) bcos_fw_scheme \<Rightarrow> nat set \<Rightarrow> 'q gateway \<Rightarrow> bool" where
  "good_after fw A gw \<longleftrightarrow> svc_good A (gw_service gw) \<and> hex_ids fw (gw_nm gw)"

lemma yields_net: "yields (net_good A gw) x \<Longrightarrow> hex_ids fw (gw_nm gw) \<Longrightarrow> yields (good_after fw A) x"
  by (erule yields_mono) (simp add: net_good_def good_after_def)

lemma disconnect_yields:
  assumes "gw_good fw self A gw" and "stored gw a"
  shows "yields (good_after fw A) (gateway_disconnect_handler fw a gw)"
proof -
  obtain ps where ps: "map_of (sv_store (gw_service gw)) a = Some ps" using assms(2) by (auto simp: stored_def)
  let ?nm = "forget_peer (pi_p2pID (ps_info ps)) (gw_nm gw)"
  have nm: "nm_inv (gw_nm gw)" "hex_ids fw (gw_nm gw)" using assms(1) by (simp_all add: gw_good_def gw_inv_def)
  obtain ns where "notifyNodeIDs2FrontService fw ?nm = Inr ns" using notify_yields [OF nm, of ?nm] by auto
  then show ?thesis using assms(1) nm(2) hex_ids_same [of ?nm "gw_nm gw" fw]
    by (simp add: gateway_disconnect_handler_def ps onRemoveNodeIDs_def good_after_def gw_good_def)
qed

lemma response_yields:
  assumes "gw_good fw self A gw"
  shows "yields (good_after fw A) (onResponsePacket fw jl p payload gw)"
proof (cases "parseReceivedJson jl (string_of_bytes payload)")
  case None
  then show ?thesis using assms by (simp add: onResponsePacket_def onReceiveNodeIDs_def good_after_def gw_good_def)
next
  case (Some km)
  obtain k m where km: "km = (k, m)" by fastforce
  have nm: "nm_inv (gw_nm gw)" "hex_ids fw (gw_nm gw)" using assms by (simp_all add: gw_good_def gw_inv_def)
  obtain ns where "updateNodeIDs fw p k m (gw_nm gw) = Inr (ns, apply_nodeIDs p k m (gw_nm gw))"
    using updateNodeIDs_eq [OF hex_ids_fronts [OF nm]] by blast
  then show ?thesis using assms hex_ids_same [of "apply_nodeIDs p k m (gw_nm gw)" "gw_nm gw" fw]
    by (simp add: onResponsePacket_def onReceiveNodeIDs_def Some km good_after_def gw_good_def)
qed


lemma good_at: "gw_good fw self {} gw \<Longrightarrow> stored gw a \<Longrightarrow> gw_good fw self {a} gw"
  by (simp add: gw_good_def svc_good_def stored_def)

lemma after_any: "yields (good_after fw A) x \<Longrightarrow> yields (good_after fw {}) x"
  by (erule yields_mono) (simp add: good_after_def svc_good_def)

lemma goodD:
  assumes "gw_good fw self A gw"
  shows "svc_good A (gw_service gw)" "hex_ids fw (gw_nm gw)" "nm_inv (gw_nm gw)" "tm_inv (gw_tm gw)" "good_after fw A gw"
  using assms by (simp_all add: gw_good_def gw_inv_def good_after_def)

lemma send_session_yields:
  assumes "gw_good fw self {a} gw"
  shows "yields (good_after fw {a}) (on_service (sendMessageBySession fw wq type payload a) gw)"
  by (rule yields_net [OF on_service_yields goodD(2) [OF assms]]) (simp add: send_by_session_yields [OF goodD(1) [OF assms]])

lemma error_resp_yields:
  assumes "gw_good fw self {a} gw"
  shows "yields (good_after fw {a}) (run_error_resp fw wq (RespondTo a m) error gw)"
  unfolding run_error_resp_def error_resp.case Let_def
  by (rule yields_net [OF on_service_yields goodD(2) [OF assms]]) (simp add: send_resp_yields [OF goodD(1) [OF assms]])

lemma heartbeat_yields:
  assumes "gw_good fw self {a} gw"
  shows "yields (good_after fw {a}) (onHeartbeat fw wq a p payload gw) \<longleftrightarrow> 4 \<le> length payload"
proof (cases "4 \<le> length payload")
  case True
  then obtain k where "rd32 payload 0 = Inr k" by (simp add: rd32_def)
  then show ?thesis using True goodD(5) [OF assms] by (simp add: onHeartbeat_def send_session_yields [OF assms])
next
  case False
  then have "rd32 payload 0 = Inl OutOfBounds" by (simp add: rd32_def)
  then show ?thesis using False by (simp add: onHeartbeat_def yields_def)
qed

lemma p2p_packet_yields:
  assumes good: "gw_good fw self {a} gw"
  shows "yields (good_after fw {a}) (onPeerToPeerPacket fw wq a m gw) \<longleftrightarrow>
    m_srcNodeID (m_options m) \<noteq> None \<and> m_dstNodeIDs (m_options m) \<noteq> [] \<and> hd (m_dstNodeIDs (m_options m)) \<noteq> None"
proof -
  have "yields (good_after fw {a}) (onReceiveP2PMessage fw wq g src dst b (RespondTo a m) gw)" for g src dst b
    by (simp add: onReceiveP2PMessage_def error_resp_yields [OF good] goodD(5) [OF good] split: option.split)
  then show ?thesis
    by (cases "m_dstNodeIDs (m_options m)") (auto simp: onPeerToPeerPacket_def yields_def split: option.split)
qed

lemma packet_yields:
  assumes good: "gw_good fw self {a} gw" and e: "ne_code e = 0"
  shows "yields (good_after fw {a}) (service_onMessage fw jl wq True e (Some a) (Some m) gw) \<longleftrightarrow> packet_ok fw gw m"
proof -
  obtain ps where ps: "map_of (sv_store (gw_service gw)) a = Some ps"
    using goodD(1) [OF good] by (auto simp: svc_good_def)
  have request: "yields (good_after fw {a}) (onRequestPacket fw jl wq a gw)"
    by (simp add: onRequestPacket_def Let_def send_session_yields [OF good] goodD(5) [OF good])
  have broadcast: "yields (good_after fw {a}) (onBroadcastPacket fw m gw) \<longleftrightarrow> m_srcNodeID (m_options m) \<noteq> None"
    using goodD(5) [OF good] by (simp add: onBroadcastPacket_def yields_def split: option.split)
  show ?thesis
    by (simp add: service_onMessage_def ps e packet_ok_def Let_def request broadcast heartbeat_yields [OF good]
        p2p_packet_yields [OF good] response_yields [OF good] goodD(5) [OF good] split: option.split)
qed


text \<open>AMOP: the dispatcher answers on the session the message came on, the callbacks of its requests need data.\<close>

lemma with_topics_yields:
  assumes "svc_good A (gw_service gw)" and "hex_ids fw (gw_nm gw)" and "list_all (amop_at A) (fst r)"
  shows "yields (good_after fw A) (with_topics fw wq r gw)"
  unfolding with_topics_def by (rule yields_net [OF run_amops_yields]) (use assms in simp_all)

lemma notify_topic_at: "list_all (amop_at A) (fst (onReceiveAMOPMessage_topic fw rnd proxy topic b target tm))"
  by (auto simp: onReceiveAMOPMessage_topic_def Let_def case_prod_unfold split: option.split)

lemma push_at: "list_all (amop_at A) (fst (push_to_clients proxy topic b clients tm))"
  by (induction proxy topic b clients tm rule: push_to_clients.induct) (auto split: prod.splits option.splits)

lemma dispatch_at:
  "dispatcherAMOPMessage fw jl topicOf rnd proxy e a p m tm = Inr r \<Longrightarrow> list_all (amop_at A) (fst r)"
  using notify_topic_at push_at
  by (auto simp: dispatcherAMOPMessage_def cpp_bind_eq_Inr Let_def onReceiveTopicSeqMessage_def onReceiveRequestTopicMessage_def
      onReceiveAMOPMessage_def onReceiveAMOPBroadcastMessage_def split: option.splits if_splits)

lemma amop_packet_yields:
  assumes good: "gw_good fw self {a} gw"
  shows "yields (good_after fw {a}) (onAMOPMessage fw jl wq topicOf rnd proxy e a m gw)"
proof -
  obtain ps where ps: "map_of (sv_store (gw_service gw)) a = Some ps" using goodD(1) [OF good] by (auto simp: svc_good_def)
  obtain r where r: "dispatcherAMOPMessage fw jl topicOf rnd proxy e a (pi_p2pID (ps_info ps)) m (gw_tm gw) = Inr r"
    using dispatch_safe [OF goodD(4) [OF good], of fw jl topicOf rnd proxy e a "pi_p2pID (ps_info ps)" m] by (auto split: sum.splits)
  show ?thesis
    using with_topics_yields [OF goodD(1,2) [OF good] dispatch_at [OF r], of wq] by (simp add: onAMOPMessage_def ps r)
qed

lemma response_result_defined: "\<exists>r. response_result fw type (Some b) = Inr r"
proof -
  obtain r m where "amop_decode fw new_amop b = Inr (r, m)"
    using amop_decode_total [of fw new_amop b] by (auto simp: defined_def split: sum.splits)
  then show ?thesis by (auto simp: response_result_def response_error_def buildAMOPMessage_def Let_def)
qed

lemma call_response_at: "call_with_response cb error type b = Inr es \<Longrightarrow> list_all (amop_at A) es"
  by (auto simp: call_with_response_def split: option.splits)

lemma sendMessage_at: "list_all (amop_at A) (sendMessage fw rnd rs)"
  by (simp add: sendMessage_def split: option.split)

lemma retry_reply_defined:
  assumes "reply_failed fw reply \<or> snd (snd reply) \<noteq> None"
  shows "\<exists>es. onRetryReply fw rnd rs reply = Inr es \<and> list_all (amop_at A) es"
proof (cases "reply_failed fw reply")
  case False
  obtain error type b where reply: "reply = (error, type, Some b)" using assms False by (cases reply) auto
  obtain r where r: "response_result fw type (Some b) = Inr r" using response_result_defined by blast
  obtain es where es: "call_with_response (rs_callback rs) r type (Some b) = Inr es"
    by (cases "rs_callback rs") (auto simp: call_with_response_def)
  from es call_response_at [OF es, of A] False r show ?thesis by (simp add: onRetryReply_def reply)
qed (simp add: onRetryReply_def sendMessage_at)

lemma respond_defined:
  assumes "case target of ToPeer a m \<Rightarrow> a \<in> A | _ \<Rightarrow> True"
  shows "\<exists>es. respond fw target (Some b) type = Inr es \<and> list_all (amop_at A) es"
proof (cases target)
  case (ToCaller cb)
  obtain r where r: "response_result fw type (Some b) = Inr r" using response_result_defined by blast
  obtain es where es: "call_with_response cb r type (Some b) = Inr es"
    by (cases cb) (auto simp: call_with_response_def)
  from es call_response_at [OF es, of A] r show ?thesis by (simp add: respond_def onRecvAMOPResponse_def ToCaller)
qed (use assms in \<open>simp add: respond_def\<close>)

lemma client_reply_defined:
  assumes "case target of ToPeer a m \<Rightarrow> a \<in> A | _ \<Rightarrow> True"
    and "(case error of None \<Rightarrow> False | Some e \<Rightarrow> err_code e \<noteq> ceSUCCESS fw) \<or> b \<noteq> None"
  shows "\<exists>es. onClientReply fw target error b = Inr es \<and> list_all (amop_at A) es"
  using respond_defined [OF assms(1), of fw] assms(2) by (cases error) (auto simp: onClientReply_def)

lemma client_answer_yields:
  assumes good: "gw_good fw self {} gw" and ok: "event_ok fw gw (ClientAnswer target error b)"
  shows "yields (good_after fw {}) (cpp_bind (onClientReply fw target error b) (\<lambda>es. run_amop_effects fw wq es gw))"
proof -
  define A where "A = (case target of ToPeer a m \<Rightarrow> {a} | _ \<Rightarrow> {})"
  have good': "gw_good fw self A gw" using good good_at ok by (cases target) (auto simp: A_def)
  have at: "case target of ToPeer a m \<Rightarrow> a \<in> A | _ \<Rightarrow> True" by (cases target) (simp_all add: A_def)
  obtain es where es: "onClientReply fw target error b = Inr es" "list_all (amop_at A) es"
    using client_reply_defined [OF at, where error = error and fw = fw and b = b] ok by auto
  have "yields (good_after fw A) (run_amop_effects fw wq es gw)"
    by (rule yields_net [OF run_amops_yields [OF goodD(1) [OF good'] es(2)] goodD(2) [OF good']])
  then show ?thesis using es(1) by (auto intro: after_any)
qed

lemma topic_send_at: "list_all (amop_at A) (fst (asyncSendMessageByTopic fw rnd proxy conn topic b cb tm))"
  using notify_topic_at sendMessage_at
  by (auto simp: asyncSendMessageByTopic_def trySendTopicMessageToLocalClient_def Let_def split: option.split)

section \<open>The node manager's part\<close>

lemma gw_nm_yields:
  assumes good: "gw_good fw self {} gw" and hex: "hex_ids fw nm"
  shows "good_after fw {} (gw\<lparr>gw_nm := nm\<rparr>)"
  using goodD(1) [OF good] hex by (simp add: good_after_def)

lemma hex_notify: "nm_inv nm \<Longrightarrow> hex_ids fw nm \<Longrightarrow> \<exists>ns. notifyNodeIDs2FrontService fw nm = Inr ns"
  using notify_yields [of nm fw nm] by simp

lemma front_timer_yields:
  assumes good: "gw_good fw self {} gw"
  shows "yields (good_after fw {}) (onFrontServiceTimer fw tars now st gw)"
proof -
  obtain updated nm where nm: "refresh_fronts tars now st (gw_nm gw) = (updated, nm)" by fastforce
  then have step: "nm = local_step fw (Refresh tars now st) (gw_nm gw)" by simp
  have hex: "hex_ids fw nm" unfolding step by (rule registered_new [OF goodD(3,2) [OF good]]) simp
  have "nm_inv nm" unfolding step by (rule nm_inv_local_step [OF goodD(3) [OF good]])
  from hex_notify [OF this hex] gw_nm_yields [OF good hex] show ?thesis
    by (auto simp: onFrontServiceTimer_def updateFrontServiceInfo_def nm)
qed

lemma group_yields:
  assumes good: "gw_good fw self {} gw" and ok: "list_all (\<lambda>ni. fromHexString fw (ni_nodeID ni) \<noteq> None) nodes"
  shows "yields (good_after fw {}) (asyncNotifyGroupInfo fw mk g nodes cb gw)"
proof -
  obtain updated nm where nm: "add_group_nodes mk g nodes False (gw_nm gw) = (updated, nm)" by fastforce
  then have step: "nm = local_step fw (GroupStarted mk g nodes) (gw_nm gw)" by simp
  have hex: "hex_ids fw nm" unfolding step by (rule registered_new [OF goodD(3,2) [OF good]]) (use ok in simp)
  have "nm_inv nm" unfolding step by (rule nm_inv_local_step [OF goodD(3) [OF good]])
  from hex_notify [OF this hex] gw_nm_yields [OF good hex] show ?thesis
    by (auto simp: asyncNotifyGroupInfo_def updateFrontServiceInfo_group_def nm)
qed

lemma register_yields:
  assumes good: "gw_good fw self {} gw"
  shows "fromHexString fw (keyHex fw n) \<noteq> None \<Longrightarrow> good_after fw {} (snd (gw_registerFrontService fw g n front gw))"
    and "good_after fw {} (snd (gw_unregisterFrontService fw g n gw))"
  using gw_nm_yields [OF good registered_new [OF goodD(3,2) [OF good], of "Register g n front"]]
    gw_nm_yields [OF good registered_new [OF goodD(3,2) [OF good], of "Unregister g n"]]
  by (simp_all add: gw_registerFrontService_def gw_unregisterFrontService_def case_prod_unfold)


section \<open>Properties\<close>

lemma exec_yields:
  assumes good: "gw_good fw self {} gw" and ok: "event_ok fw gw ev"
  shows "yields (good_after fw {}) (node_exec fw wq env ev gw)"
proof -
  note svc = goodD(1) [OF good] and hex = goodD(2) [OF good]
  note net = yields_net [OF _ hex] and on_net = yields_net [OF on_service_yields hex]
  note topics = with_topics_yields [OF svc hex]
  have one: "gw_good fw self {a} gw" if "stored gw a" for a by (rule good_at [OF good that])
  show ?thesis
  proof (cases ev)
    case GwStart
    then show ?thesis using service_start_good [OF svc] hex by (simp add: gateway_start_def good_after_def case_prod_unfold)
  next
    case GwStop
    have "yields (good_after fw {}) (on_service service_stop gw :: ('a, 'c) gateway_result)"
      by (rule on_net) (rule service_stop_yields [OF svc])
    with GwStop show ?thesis by (auto simp: gateway_stop_def yields_ex)
  next
    case (Connection k e info session)
    then show ?thesis using ok by (simp add: on_net onConnect_yields [OF svc])
  next
    case (Packet alive e a m)
    show ?thesis
    proof (cases a)
      case None
      then show ?thesis using Packet goodD(5) [OF good] by (simp add: service_onMessage_def)
    next
      case (Some b)
      then have good1: "gw_good fw self {b} gw" using ok one Packet by simp
      have lose: "yields (good_after fw {b}) (on_service (lose_session e b) gw :: ('a, 'c) gateway_result)"
        by (rule yields_net [OF on_service_yields goodD(2) [OF good1]]) (simp add: lose_session_yields [OF goodD(1) [OF good1]])
      obtain ps where ps: "map_of (sv_store (gw_service gw)) b = Some ps"
        using goodD(1) [OF good1] by (auto simp: svc_good_def)
      consider "ne_code e \<noteq> 0" | "ne_code e = 0" "\<not> alive" | x where "ne_code e = 0" "alive" "m = Some x" "packet_ok fw gw x"
        using ok Packet Some by (auto split: option.splits)
      then show ?thesis
      proof cases
        case 1
        then show ?thesis using after_any [OF lose] Packet Some by (simp add: service_onMessage_def ps)
      next
        case 2
        then show ?thesis using goodD(5) [OF good] Packet Some by (simp add: service_onMessage_def ps)
      next
        case 3
        then have "yields (good_after fw {b}) (service_onMessage fw (ne_jl env) wq True e (Some b) (Some x) gw)"
          using packet_yields [OF good1 3(1)] by blast
        from after_any [OF this] 3 show ?thesis using Packet Some by simp
      qed
    qed
  next
    case (AmopPacket rnd e a m)
    then show ?thesis using after_any [OF amop_packet_yields [OF one]] ok by simp
  next
    case (SessionLost a)
    then show ?thesis using disconnect_yields [OF good] ok by simp
  next
    case (SessionWork a f)
    then show ?thesis using ok by (simp add: on_net on_session_yields [OF svc] stored_def)
  next
    case (HeartbeatTimer k a)
    then show ?thesis using ok by (simp add: on_net p2p_heartBeat_yields [OF svc] stored_def)
  next
    case (ReconnectTimer error net)
    then show ?thesis using service_timer_good [OF svc] hex by (simp add: on_service_def good_after_def case_prod_unfold)
  next
    case TopicSync
    then show ?thesis by (simp add: onTopicSyncTimer_def topics broadcastTopicSeq_def Let_def)
  next
    case TopicCheck
    then show ?thesis using svc hex by (simp add: onTopicCheckTimer_def good_after_def)
  next
    case (FrontCheck now st)
    then show ?thesis using front_timer_yields [OF good] by simp
  next
    case (RegisterFront g n front)
    then show ?thesis using register_yields(1) [OF good] ok by simp
  next
    case (UnregisterFront g n)
    then show ?thesis using register_yields(2) [OF good] by simp
  next
    case (GroupChanged g nodes cb)
    then show ?thesis using group_yields [OF good] ok by simp
  next
    case (SendTo rnd g src dst b cb)
    then show ?thesis using net [OF sendMessageByNodeID_yields [OF svc]] by simp
  next
    case (SendToList rnds g src dsts b)
    then show ?thesis using net [OF sendMessageByNodeIDs_yields [OF svc]] by simp
  next
    case (SendToGroup g src b)
    then show ?thesis using net [OF sendBroadcast_yields [OF svc]] by simp
  next
    case (RetryCallback rnd r reply)
    obtain sent where "retry_outcome fw reply = Inr sent"
      using ok RetryCallback by (cases "ne_code (fst reply) = exception_code Success") (auto simp: retry_outcome_def case_prod_unfold)
    then show ?thesis using RetryCallback goodD(5) [OF good]
      by (simp add: onGatewayRetryReply_def net [OF trySendMessage_yields [OF svc]])
  next
    case (FrontAnswer resp error)
    then show ?thesis using ok after_any [OF error_resp_yields [OF one]] goodD(5) [OF good]
      by (cases resp) (simp_all add: run_error_resp_def)
  next
    case (TopicSend rnd topic b cb)
    then show ?thesis by (simp add: gw_asyncSendMessageByTopic_def topics topic_send_at)
  next
    case (TopicBroadcast topic b)
    then show ?thesis by (simp add: gw_asyncSendBroadbastMessageByTopic_def topics asyncSendBroadbastMessageByTopic_def Let_def)
  next
    case (TopicSubscribe client info cb)
    then show ?thesis by (simp add: gw_asyncSubscribeTopic_def topics asyncSubscribeTopic_def split: option.split)
  next
    case (TopicRemove client ts cb)
    then show ?thesis by (simp add: gw_asyncRemoveTopic_def topics asyncRemoveTopic_def split: option.split)
  next
    case (AmopCallback rnd cont reply)
    have retry: "\<exists>es. onRetryReply fw rnd rs reply = Inr es \<and> list_all (amop_at {}) es" for rs
      by (rule retry_reply_defined) (use ok AmopCallback in simp)
    have run: "yields (good_after fw {}) (run_amop_effects fw wq es gw :: ('a, 'c) gateway_result)" if "list_all (amop_at {}) es" for es
      by (rule net [OF run_amops_yields [OF svc that]])
    show ?thesis
    proof (cases cont)
      case (RetrySender rs)
      obtain es where "onRetryReply fw rnd rs reply = Inr es" "list_all (amop_at {}) es" using retry by blast
      then show ?thesis using AmopCallback RetrySender run by (simp add: onAmopReply_def)
    qed (use AmopCallback goodD(5) [OF good] run in \<open>auto simp: onAmopReply_def\<close>)
  next
    case (ClientAnswer target error b)
    then show ?thesis using client_answer_yields [OF good] ok by simp
  qed
qed


lemma run_yields:
  "gw_good fw self {} gw \<Longrightarrow> run_ok fw wq env evs gw \<Longrightarrow> yields (gw_good fw self {}) (node_run fw wq env evs gw)"
proof (induction evs arbitrary: gw)
  case (Cons ev evs)
  obtain es gw' where run: "node_exec fw wq env ev gw = Inr (es, gw')" "good_after fw {} gw'"
    using exec_yields [OF Cons.prems(1), of ev wq env] Cons.prems(2) unfolding yields_ex by auto
  have "gw_inv self gw'" using gw_inv_exec [OF _ run(1)] Cons.prems(1) by (simp add: gw_good_def)
  then have "gw_good fw self {} gw'" using run(2) by (simp add: gw_good_def good_after_def)
  from Cons.IH [OF this] Cons.prems(2) run(1) show ?case by simp
qed simp

lemma good_built: "gw_good fw self {} (build_gateway fw self eps rpc)"
  using gw_inv_built [of self fw eps rpc]
  by (simp add: gw_good_def build_gateway_eq svc_good_def hex_ids_def registered_def new_node_manager_def
      registerDisconnectHandler_def registerHandlerByMsgType_def setStaticNodes_def new_service_def um_has_def um2_find_def)

text \<open>
  Claim C3: a gateway never runs into undefined behaviour as long as what comes from outside is what
  the program is prepared for: however packets, connections and their loss, calls, answers and
  timers follow each other, no handler reads outside a buffer or follows a null pointer, every
  session still has its host, every registered session exists and every registered node id is hex.
\<close>

theorem gateway_run_defined:
  assumes "run_ok fw wq env evs (build_gateway fw self eps rpc)"
  shows "\<exists>es gw. node_run fw wq env evs (build_gateway fw self eps rpc) = Inr (es, gw) \<and> svc_good {} (gw_service gw) \<and>
    hex_ids fw (gw_nm gw)"
  using run_yields [OF good_built assms] by (auto simp: yields_ex gw_good_def)

text \<open>What the decoder gives always has a sender, and every receiver is there; there may be none.\<close>

definition ids_present :: "p2p_options \<Rightarrow> bool" where
  "ids_present ops \<longleftrightarrow> m_srcNodeID ops \<noteq> None \<and> None \<notin> set (m_dstNodeIDs ops)"

lemma read_nodeIDs_present: "None \<notin> set (read_nodeIDs b off n k)"
  by (induction b off n k rule: read_nodeIDs.induct) auto

lemma options_decode_dst_present:
  "options_decode_dst ops b off n = Inr (r, ops') \<Longrightarrow> ids_present ops \<Longrightarrow> ids_present ops'"
  by (auto simp: options_decode_dst_def cpp_bind_eq_Inr Let_def ids_present_def read_nodeIDs_present split: if_splits)

lemma options_decode_src_present:
  "options_decode_src ops b off = Inr (r, ops') \<Longrightarrow> ids_present ops \<Longrightarrow> ids_present ops'"
  using options_decode_dst_present
  by (fastforce simp: options_decode_src_def cpp_bind_eq_Inr Let_def ids_present_def split: if_splits option.splits)

lemma options_decode_present:
  "options_decode ops b = Inr (r, ops') \<Longrightarrow> ids_present ops \<Longrightarrow> ids_present ops'"
  by (auto simp: options_decode_def cpp_bind_eq_Inr Let_def elim!: options_decode_src_present split: if_splits)
    (simp_all add: ids_present_def)

lemma message_decode_present:
  "message_decode fw new_message b = Inr (r, m) \<Longrightarrow> ids_present (m_options m)"
  by (auto simp: message_decode_def cpp_bind_eq_Inr decode_payload_def new_message_def new_options_def ids_present_def
      split: if_splits prod.splits dest!: decodeHeader_options options_decode_present)

lemma packet_ok_decoded:
  assumes "types_spec fw" and "ids_present (m_options m)"
  shows "\<not> packet_ok fw gw m \<longleftrightarrow> getMessageHandlerByMsgType (m_packetType m) (gw_service gw) = None \<and>
    (m_packetType m = mtHeartbeat fw \<and> length (m_payload m) < 4 \<or>
     m_packetType m = mtPeerToPeerMessage fw \<and> m_dstNodeIDs (m_options m) = [])"
  using assms by (cases "m_dstNodeIDs (m_options m)") (auto simp: packet_ok_def types_spec_def ids_present_def)

lemma packet_undefined:
  assumes "gw_good fw self {} gw" and "stored gw a" and "ne_code e = 0"
  shows "(\<exists>u. service_onMessage fw jl wq True e (Some a) (Some m) gw = Inl u) \<longleftrightarrow> \<not> packet_ok fw gw m"
proof -
  have ok: "packet_ok fw gw m \<Longrightarrow> \<exists>r. service_onMessage fw jl wq True e (Some a) (Some m) gw = Inr r"
    using packet_yields [OF good_at [OF assms(1,2)] assms(3)] unfolding yields_ex by blast
  obtain ps where ps: "map_of (sv_store (gw_service gw)) a = Some ps" using assms(2) by (auto simp: stored_def)
  have "packet_ok fw gw m" if "service_onMessage fw jl wq True e (Some a) (Some m) gw = Inr r" for r
    using that by (auto simp: service_onMessage_def ps assms(3) packet_ok_def Let_def onHeartbeat_def rd32_def cpp_bind_eq_Inr
        onPeerToPeerPacket_def onBroadcastPacket_def split: option.splits list.splits if_splits)
  then show ?thesis using ok by (metis Inl_Inr_False sum.exhaust)
qed

text \<open>
  Claim C8: what a peer can do. After any such run, a packet decoded from whatever bytes a peer sent
  and handled on a session is undefined behaviour of \<open>Service::onMessage\<close> if and only if its type
  has no handler and it is a heartbeat of less than four bytes or a message to a node that names no
  receiver: the two packets whose contents the code does not check.
\<close>

theorem packet_undefined_iff:
  assumes "types_spec fw" and "run_ok fw wq env evs (build_gateway fw self eps rpc)"
    and "node_run fw wq env evs (build_gateway fw self eps rpc) = Inr (es, gw)" and "stored gw a" and "ne_code e = 0"
    and "message_decode fw new_message buf = Inr (r, m)"
  shows "(\<exists>u. service_onMessage fw jl wq True e (Some a) (Some m) gw = Inl u) \<longleftrightarrow>
    getMessageHandlerByMsgType (m_packetType m) (gw_service gw) = None \<and>
    (m_packetType m = mtHeartbeat fw \<and> length (m_payload m) < 4 \<or>
     m_packetType m = mtPeerToPeerMessage fw \<and> m_dstNodeIDs (m_options m) = [])"
proof -
  have "gw_good fw self {} gw" using run_yields [OF good_built assms(2)] assms(3) by (simp add: yields_ex)
  then show ?thesis
    by (simp add: packet_undefined [OF _ assms(4,5)] packet_ok_decoded [OF assms(1) message_decode_present [OF assms(6)]])
qed

section \<open>Examples\<close>

text \<open>A gateway that starts, registers a front and accepts a peer.\<close>

definition example_peer_events :: "(bytes, bytes list) node_event list" where
  "example_peer_events = [GwStart, RegisterFront ''g1'' [65, 66] 5,
     Connection 1 success (example_info ''p2'') (Some (example_session, example_ep))]"

definition example_built :: "bytes list gateway" where
  "example_built = build_gateway example_fw ''p1'' [] None"

lemma example_peer_ok: "run_ok example_fw list_queue example_node_env example_peer_events example_built"
  by (auto simp: example_peer_events_def success_def hosted_def example_session_def create_session_def setHost_def
      case_prod_unfold split: sum.split)

theorem gateway_run_defined_witness:
  "\<exists>es gw. node_run example_fw list_queue example_node_env example_peer_events (build_gateway example_fw ''p1'' [] None)
     = Inr (es, gw) \<and> svc_good {} (gw_service gw) \<and> hex_ids example_fw (gw_nm gw)"
  using gateway_run_defined [OF example_peer_ok [unfolded example_built_def]] .

lemma example_peer_run:
  "\<exists>es gw. node_run example_fw list_queue example_node_env example_peer_events example_built = Inr (es, gw) \<and> stored gw 0 \<and>
     getMessageHandlerByMsgType (mtHeartbeat example_fw) (gw_service gw) = None"
  by (simp add: example_peer_events_def sv_bind_def cpp_bind_def case_prod_unfold example_built_def build_gateway_eq
      on_service_def onConnect_def example_session_def example_info_def success_def new_service_def p2p_start_def
      p2p_heartBeat_def gateway_start_def gw_registerFrontService_def service_start_def service_heartBeat_def
      registerDisconnectHandler_def registerHandlerByMsgType_def setStaticNodes_def session_eval ps_actived_def
      isConnected_def set_ps_run_def on_session_def new_p2p_session_def asyncSendMessage_def updateStaticNodes_def
      stored_def getMessageHandlerByMsgType_def um_has_def)

text \<open>The peer sends a heartbeat of three bytes; a byte more and it is harmless.\<close>

definition example_heartbeat :: "bytes \<Rightarrow> bytes" where
  "example_heartbeat b = snd (message_encode example_fw (plain_packet 3 (mtHeartbeat example_fw) b))"

lemma example_heartbeat_decoded:
  assumes "length b < 5"
  shows "\<exists>r m. message_decode example_fw new_message (example_heartbeat b) = Inr (r, m) \<and>
    m_packetType m = mtHeartbeat example_fw \<and> m_payload m = b"
proof -
  have "wire_message example_fw (plain_packet 3 (mtHeartbeat example_fw) b)"
    by (rule plain_packet_wire) (use assms in simp_all)
  from message_decode_encode [OF example_fw_crop this, of "[]"] show ?thesis
    by (simp add: example_heartbeat_def wire_normal_def plain_packet_def)
qed

theorem packet_undefined_iff_witness:
  "\<exists>es gw r m r' m'. node_run example_fw list_queue example_node_env example_peer_events (build_gateway example_fw ''p1'' [] None)
       = Inr (es, gw) \<and>
     message_decode example_fw new_message (example_heartbeat [1, 2, 3]) = Inr (r, m) \<and>
     (\<exists>u. service_onMessage example_fw jv_lib list_queue True success (Some 0) (Some m) gw = Inl u) \<and>
     message_decode example_fw new_message (example_heartbeat [1, 2, 3, 4]) = Inr (r', m') \<and>
     \<not> (\<exists>u. service_onMessage example_fw jv_lib list_queue True success (Some 0) (Some m') gw = Inl u)"
proof -
  obtain es gw where gw: "node_run example_fw list_queue example_node_env example_peer_events (build_gateway example_fw ''p1'' [] None)
      = Inr (es, gw)" "stored gw 0" "getMessageHandlerByMsgType (mtHeartbeat example_fw) (gw_service gw) = None"
    using example_peer_run unfolding example_built_def by blast
  have iff: "(\<exists>u. service_onMessage example_fw jv_lib list_queue True success (Some 0) (Some m) gw = Inl u) \<longleftrightarrow> length b < 4"
    if "message_decode example_fw new_message buf = Inr (r, m)" "m_packetType m = mtHeartbeat example_fw" "m_payload m = b" for buf r m b
    using packet_undefined_iff [OF example_fw_types example_peer_ok [unfolded example_built_def] gw(1,2) _ that(1), of success jv_lib]
      that gw(3) by (simp add: success_def)
  obtain r m r' m' where short: "message_decode example_fw new_message (example_heartbeat [1, 2, 3]) = Inr (r, m)"
      "m_packetType m = mtHeartbeat example_fw" "m_payload m = [1, 2, 3]"
    and full: "message_decode example_fw new_message (example_heartbeat [1, 2, 3, 4]) = Inr (r', m')"
      "m_packetType m' = mtHeartbeat example_fw" "m_payload m' = [1, 2, 3, 4]"
    using example_heartbeat_decoded [of "[1, 2, 3]"] example_heartbeat_decoded [of "[1, 2, 3, 4]"] by auto
  have "\<exists>u. service_onMessage example_fw jv_lib list_queue True success (Some 0) (Some m) gw = Inl u" using iff [OF short] by simp
  moreover have "\<not> (\<exists>u. service_onMessage example_fw jv_lib list_queue True success (Some 0) (Some m') gw = Inl u)"
    using iff [OF full] by simp
  ultimately show ?thesis using gw(1) short(1) full(1) by blast
qed

end
