(* ===== verification/Topic_Network.thy ===== *)
theory Topic_Network
  imports Gossip_Net AMOP_Specs
begin

text \<open>
  The topic managers of any number of gateways as a network of \<open>Gossip_Net\<close>: the packets are AMOP
  messages, received by \<open>AMOPImpl::dispatcherAMOPMessage\<close> (\<open>libamop/AMOPImpl.cpp\<close>), the local
  operations are those of \<open>TopicManager\<close>.
\<close>

section \<open>What a gateway makes of an AMOP packet of the gossip\<close>

text \<open>The buffers an operation sends to the peer \<open>p\<close>.\<close>

definition sent_to :: "string \<Rightarrow> amop_effect list \<Rightarrow> bytes list" where
  "sent_to p es = concat (map (\<lambda>e. case e of SendToPeer type n b t k \<Rightarrow> if n = p then [b] else [] | _ \<Rightarrow> []) es)"

definition topic_receive :: "('key, 'more) bcos_fw_scheme \<Rightarrow> 'j jsonlib \<Rightarrow> (bytes \<Rightarrow> string option) \<Rightarrow> (nat \<Rightarrow> nat) \<Rightarrow>
    (string \<Rightarrow> nat option) \<Rightarrow> string \<Rightarrow> bytes \<Rightarrow> topic_manager \<Rightarrow> (bytes list \<times> topic_manager) option" where
  "topic_receive fw jl topicOf rnd proxy p b tm =
     (case dispatcherAMOPMessage fw jl topicOf rnd proxy (network_error Success []) 0 p
        (Some (new_message\<lparr>m_packetType := mtAMOPMessageType fw, m_payload := b\<rparr>)) tm of
      Inl u \<Rightarrow> None | Inr (es, tm') \<Rightarrow> Some (sent_to p es, tm'))"

definition topic_announce :: "topic_manager \<Rightarrow> bytes" where
  "topic_announce tm = buildAndEncodeMessage amop_TopicSeq (bytes_of_string (to_string_nat (unat (m_topicSeq tm))))"

lemma broadcast_announces:
  "broadcastTopicSeq fw tm = [BroadcastToPeers (mtAMOPMessageType fw) (topic_announce tm) 0, RestartTimer]"
  by (simp add: broadcastTopicSeq_def topic_announce_def Let_def)

definition topic_ask :: bytes where
  "topic_ask = buildAndEncodeMessage amop_RequestTopic []"

definition topic_table_answer :: "'j jsonlib \<Rightarrow> topic_manager \<Rightarrow> bytes" where
  "topic_table_answer jl tm = buildAndEncodeMessage amop_ResponseTopic (bytes_of_string (queryTopicsSubByClient jl tm))"

text \<open>\<open>notifyNodeIDs\<close> with all known peers but one.\<close>

definition topic_forget :: "string \<Rightarrow> topic_manager \<Rightarrow> topic_manager" where
  "topic_forget p tm = notifyNodeIDs (filter (\<lambda>n. n \<noteq> p) (map fst (m_nodeID2TopicSeq tm))) tm"

section \<open>The local part of a topic manager\<close>

definition topic_own :: "topic_manager \<Rightarrow> u32 \<times> (string \<times> topic_items) list \<times> (string \<times> nat) list \<times> nat option option" where
  "topic_own tm = (m_topicSeq tm, m_client2TopicItems tm, m_clientInfo tm, m_rpc tm)"

text \<open>The topics clients subscribe to are texts that need no escapes in JSON.\<close>

fun topic_op_ok :: "'j jsonlib \<Rightarrow> topic_op \<Rightarrow> bool" where
  "topic_op_ok jl (Subscribe client json) =
     (case parseSubTopicsJson jl json of None \<Rightarrow> True | Some its \<Rightarrow> plain_topics its)"
| "topic_op_ok jl _ = True"

definition topic_net_inv :: "('key, 'more) bcos_fw_scheme \<Rightarrow> 'j jsonlib \<Rightarrow> ('j \<Rightarrow> jdoc) \<Rightarrow> topic_manager \<Rightarrow> bool" where
  "topic_net_inv fw jl view tm \<longleftrightarrow> crop_spec fw \<and> decimal_spec fw \<and> json_spec jl view \<and> tm_inv tm \<and>
     (\<forall>t \<in> subscribed tm. plain_string t)"

lemma topic_inv_new:
  "crop_spec fw \<Longrightarrow> decimal_spec fw \<Longrightarrow> json_spec jl view \<Longrightarrow> topic_net_inv fw jl view (new_topic_manager rpc)"
  using tm_inv_new [of rpc]
  by (simp add: topic_net_inv_def subscribed_def client_topics_def) (simp add: new_topic_manager_def um_at_def)

lemma topic_inv_plain: "topic_net_inv fw jl view tm \<Longrightarrow> plain_topics (local_topics tm)"
  using local_topics_subscribed [of tm] by (auto simp: topic_net_inv_def plain_topics_def list_all_iff)

lemma client_topics_check:
  "client_topics (checkClientConnection tars tm) c \<subseteq> client_topics tm c"
  by (auto simp: checkClientConnection_def client_topics_removeClients split: prod.split if_splits)
    (simp add: client_topics_def)

lemma client_topics_step:
  assumes "topic_op_ok jl op" and "t \<in> client_topics (topic_step jl proxy op tm) c"
  shows "t \<in> client_topics tm c \<or> plain_string t"
proof (cases op)
  case (Subscribe client json)
  then show ?thesis using assms
    by (auto simp: subTopic_def client_topics_subTopic_items plain_topics_def list_all_iff split: option.splits if_splits)
next
  case (RemoveTopic client topics)
  then show ?thesis using assms(2) by (simp add: client_topics_remove split: if_splits)
next
  case (RemoveClients clients)
  then show ?thesis using assms(2) by (simp add: client_topics_removeClients split: if_splits)
next
  case (CheckClients tars)
  then show ?thesis using assms(2) client_topics_check [of tars tm c] by auto
qed

lemma topic_inv_step:
  "topic_net_inv fw jl view tm \<Longrightarrow> topic_op_ok jl op \<Longrightarrow> topic_net_inv fw jl view (topic_step jl proxy op tm)"
  using client_topics_step [of jl op _ proxy tm] tm_inv_topic_step [of tm jl proxy op]
  by (auto simp: topic_net_inv_def subscribed_def)

lemma topic_inv_own:
  "topic_net_inv fw jl view tm \<Longrightarrow> tm_inv tm' \<Longrightarrow> topic_own tm' = topic_own tm \<Longrightarrow> topic_net_inv fw jl view tm'"
  by (simp add: topic_net_inv_def topic_own_def subscribed_def client_topics_def)

lemma topic_own_learn:
  "topic_own (updateSeqAndTopicsByNodeID p k its tm) = topic_own tm" "topic_own (topic_forget p tm) = topic_own tm"
  by (simp_all add: topic_own_def updateSeqAndTopicsByNodeID_def topic_forget_def notifyNodeIDs_def split: prod.split)

lemma topic_own_parts:
  assumes "topic_own tm = topic_own tm'"
  shows "m_topicSeq tm = m_topicSeq tm'" and "subscribed tm = subscribed tm'" and "local_topics tm = local_topics tm'"
  using assms by (simp_all add: topic_own_def subscribed_def client_topics_def local_topics_def)

lemma topic_own_step:
  assumes "topic_own tm = topic_own tm'"
  shows "topic_own (topic_step jl proxy op tm) = topic_own (topic_step jl proxy op tm')"
proof (cases op)
  case (Subscribe client json)
  with assms show ?thesis
    by (auto simp: topic_own_def subTopic_def subTopic_items_def createAndGetServiceByClient_def incTopicSeq_def
        split: option.split)
qed (use assms in \<open>auto simp: topic_own_def removeTopics_def removeClients_eq checkClientConnection_def incTopicSeq_def
  split: option.split prod.split\<close>)

lemma topic_step_cache:
  "m_nodeID2TopicSeq (topic_step jl proxy op tm) = m_nodeID2TopicSeq tm"
  "m_nodeID2TopicItems (topic_step jl proxy op tm) = m_nodeID2TopicItems tm"
  by (cases op; simp add: subTopic_def subTopic_items_def removeTopics_def removeClients_eq checkClientConnection_def
      incTopicSeq_def split: option.split prod.split)+

lemma topic_forget_find:
  assumes "tm_inv tm"
  shows "map_of (m_nodeID2TopicSeq (topic_forget p tm)) q = (if q = p then None else map_of (m_nodeID2TopicSeq tm) q)"
    and "map_of (m_nodeID2TopicItems (topic_forget p tm)) q = (if q = p then None else map_of (m_nodeID2TopicItems tm) q)"
proof -
  have "um_has q (m_nodeID2TopicSeq tm) \<longleftrightarrow> um_has q (m_nodeID2TopicItems tm)" using assms by (simp add: tm_inv_def)
  then have "q \<notin> fst ` set (m_nodeID2TopicSeq tm) \<Longrightarrow>
      map_of (m_nodeID2TopicSeq tm) q = None \<and> map_of (m_nodeID2TopicItems tm) q = None"
    by (auto simp: um_has_iff map_of_eq_None_iff)
  then show "map_of (m_nodeID2TopicSeq (topic_forget p tm)) q = (if q = p then None else map_of (m_nodeID2TopicSeq tm) q)"
    and "map_of (m_nodeID2TopicItems (topic_forget p tm)) q = (if q = p then None else map_of (m_nodeID2TopicItems tm) q)"
    by (auto simp: topic_forget_def notifyNodeIDs_find [OF assms])
qed

section \<open>Receiving the packets of the gossip\<close>

lemma dispatch_gossip:
  assumes "crop_spec fw"
  shows "dispatcherAMOPMessage fw jl topicOf rnd proxy (network_error Success []) 0 p
      (Some (new_message\<lparr>m_packetType := mtAMOPMessageType fw, m_payload := buildAndEncodeMessage type d\<rparr>)) tm
    = (let msg = new_amop\<lparr>a_type := type, a_data := d\<rparr>
       in if type = amop_TopicSeq then Inr (onReceiveTopicSeqMessage fw p msg tm, tm)
          else if type = amop_RequestTopic then Inr (onReceiveRequestTopicMessage fw jl p tm, tm)
          else if type = amop_ResponseTopic then Inr ([], onReceiveResponseTopicMessage jl p msg tm)
          else dispatcherAMOPMessage fw jl topicOf rnd proxy (network_error Success []) 0 p
            (Some (new_message\<lparr>m_packetType := mtAMOPMessageType fw, m_payload := buildAndEncodeMessage type d\<rparr>)) tm)"
  by (simp add: dispatcherAMOPMessage_def response_data [OF assms] Let_def)

lemma receive_topic_announce:
  assumes "topic_net_inv fw jl view tm"
  shows "topic_receive fw jl topicOf rnd proxy p (topic_announce tm') tm
    = Some (if checkTopicSeq p (m_topicSeq tm') tm then [topic_ask] else [], tm)"
proof -
  have "castU32 fw (to_string_nat (unat (m_topicSeq tm'))) = Some (m_topicSeq tm')" and crop: "crop_spec fw"
    using assms by (simp_all add: topic_net_inv_def decimal_spec_def)
  then show ?thesis
    by (simp add: topic_receive_def topic_announce_def dispatch_gossip [OF crop] Let_def onReceiveTopicSeqMessage_def
        sent_to_def topic_ask_def)
qed

lemma receive_topic_ask:
  assumes "topic_net_inv fw jl view tm"
  shows "topic_receive fw jl topicOf rnd proxy p topic_ask tm = Some ([topic_table_answer jl tm], tm)"
proof -
  have crop: "crop_spec fw" using assms by (simp add: topic_net_inv_def)
  show ?thesis
    by (simp add: topic_receive_def topic_ask_def dispatch_gossip [OF crop] Let_def onReceiveRequestTopicMessage_def
        sent_to_def topic_table_answer_def amop_type_defs)
qed

lemma receive_topic_answer:
  assumes "topic_net_inv fw jl view tm" and "topic_net_inv fw jl view tm'"
  shows "topic_receive fw jl topicOf rnd proxy p (topic_table_answer jl tm') tm
    = Some ([], updateSeqAndTopicsByNodeID p (m_topicSeq tm') (local_topics tm') tm)"
proof -
  have spec: "crop_spec fw" "json_spec jl view" using assms(1) by (simp_all add: topic_net_inv_def)
  show ?thesis
    using answer_learned [OF spec(2) topic_inv_plain [OF assms(2)], of p tm]
    by (simp add: topic_receive_def topic_table_answer_def dispatch_gossip [OF spec(1)] Let_def topics_answer_def
        sent_to_def amop_type_defs)
qed

section \<open>The network of the topic managers\<close>

interpretation topic_net: gossip_protocol "topic_step jl proxy" m_topicSeq subscribed "\<lambda>_. 1" "topic_net_inv fw jl view" os_ok
  updateSeqAndTopicsByNodeID checkTopicSeq node_topics items_view topic_forget "{}" "topic_op_ok jl" topic_own local_topics
  topic_announce topic_ask "topic_table_answer jl" "topic_receive fw jl topicOf rnd proxy" for fw jl view topicOf rnd proxy
proof (unfold_locales, goal_cases)
  case (1 s v p n)
  then have "tm_inv (updateSeqAndTopicsByNodeID p n v s)" by (intro tm_inv_update) (simp_all add: topic_net_inv_def)
  then show ?case by (rule topic_inv_own [OF 1(1) _ topic_own_learn(1)])
next
  case (2 s v q k p n)
  then show ?case using topic_cache.stale_learn [of s v] by (simp add: topic_net_inv_def)
next
  case (3 s v p n q)
  then show ?case using topic_cache.view_learn [of s v] by (simp add: topic_net_inv_def)
next
  case (4 s p)
  then have "tm_inv (topic_forget p s)" unfolding topic_forget_def by (intro tm_inv_notify) (simp add: topic_net_inv_def)
  then show ?case by (rule topic_inv_own [OF 4 _ topic_own_learn(2)])
next
  case (5 s q k p)
  then show ?case using topic_forget_find(1) [of s p q] by (simp add: topic_net_inv_def checkTopicSeq_def)
next
  case (6 s p q)
  then show ?case using topic_forget_find(2) [of s p q] by (simp add: topic_net_inv_def node_topics_def um_at_def)
next
  case (7 s op)
  then show ?case by (rule topic_inv_step)
next
  case (8 q k op s)
  show ?case by (simp add: checkTopicSeq_def topic_step_cache)
next
  case (9 op s q)
  show ?case by (simp add: node_topics_def topic_step_cache)
next
  case (10 s s' op)
  then show ?case by (rule topic_own_step)
next
  case (13 s s')
  then show ?case by (rule topic_own_parts(1))
next
  case (14 s s')
  then show ?case by (rule topic_own_parts(2))
next
  case (15 s s')
  then show ?case using topic_own_parts(1) [of s s'] by (simp add: topic_announce_def)
next
  case (16 s s')
  then show ?case
    using topic_own_parts [of s s'] by (simp add: topic_table_answer_def queryTopicsSubByClient_def)
next
  case (17 s)
  show ?case by (rule local_topics_ok)
next
  case (18 s)
  then show ?case using local_topics_subscribed [of s] by (simp add: items_view_def topic_net_inv_def)
next
  case (19 s s' p)
  then show ?case by (intro receive_topic_announce)
next
  case (20 s p)
  then show ?case by (rule receive_topic_ask)
next
  case (21 s s' p)
  then show ?case by (rule receive_topic_answer)
qed (simp_all only: topic_own_learn)

section \<open>Properties\<close>

type_synonym topic_network = "(string, topic_manager, bytes, topic_op) gossip_net"

abbreviation topic_steps :: "('key, 'more) bcos_fw_scheme \<Rightarrow> 'j jsonlib \<Rightarrow> (bytes \<Rightarrow> string option) \<Rightarrow> (nat \<Rightarrow> nat) \<Rightarrow>
    (string \<Rightarrow> nat option) \<Rightarrow> topic_network \<Rightarrow> topic_network \<Rightarrow> bool" where
  "topic_steps fw jl topicOf rnd proxy \<equiv> gossip_steps (topic_step jl proxy) (topic_op_ok jl) topic_announce
     (topic_receive fw jl topicOf rnd proxy) topic_forget"

lemma topic_net_ok:
  fixes fw :: "('key, 'more) bcos_fw_scheme" and jl :: "'j jsonlib"
  assumes "crop_spec fw" and "decimal_spec fw" and "json_spec jl view"
    and "topic_steps fw jl topicOf rnd proxy (gossip_start (\<lambda>_. new_topic_manager rpc)) n"
  shows "topic_net.net_ok TYPE('j) TYPE('key) TYPE('more) jl proxy fw view (\<lambda>_. new_topic_manager rpc) n"
proof (rule topic_net.net_ok_steps [OF assms(4)])
  show inv: "topic_net_inv fw jl view (new_topic_manager rpc)" by (rule topic_inv_new [OF assms(1-3)])
  have "checkTopicSeq q k (new_topic_manager rpc)" for q k by (simp add: checkTopicSeq_def new_topic_manager_def)
  with inv show "topic_net.net_ok TYPE('j) TYPE('key) TYPE('more) jl proxy fw view (\<lambda>_. new_topic_manager rpc)
      (gossip_start (\<lambda>_. new_topic_manager rpc))"
    by (rule topic_net.net_ok_start)
qed

text \<open>
  Claim C19: topics in a network of any number of gateways whose clients subscribe, unsubscribe,
  vanish and are checked at any time, with AMOP packets delayed, overtaking each other or lost: in
  every reachable state, whenever the topic number that gateway p holds for q is the one q has
  now, the topics p has for q are exactly those subscribed at q now. (Fewer than 2^32 changes at
  each gateway.)
\<close>

theorem topic_network_in_step:
  assumes "crop_spec fw" and "decimal_spec fw" and "json_spec jl view"
    and "topic_steps fw jl topicOf rnd proxy (gossip_start (\<lambda>_. new_topic_manager rpc)) n"
    and "length (gn_history n q) < 2 ^ 32" and "\<not> checkTopicSeq q (m_topicSeq (gn_state n q)) (gn_state n p)"
  shows "node_topics (gn_state n p) q = subscribed (gn_state n q)"
proof -
  have "sum_list (map (\<lambda>_. 1 :: nat) (gn_history n q)) < 2 ^ 32" using assms(5) by (simp add: sum_list_triv)
  then show ?thesis by (rule topic_net.net_in_step [OF topic_net_ok [OF assms(1-4)] _ assms(6)])
qed


text \<open>A network where a client has subscribed at one gateway.\<close>

definition example_json :: string where
  "example_json = jv_write (VObject [(''topics'', VArray [VString ''t''])])"

definition example_topic_network :: topic_network where
  "example_topic_network = (gossip_start (\<lambda>_. new_topic_manager None))\<lparr>
     gn_state := (\<lambda>_. new_topic_manager None)(''a'' := topic_step jv_lib (\<lambda>_. Some 9) (Subscribe ''c'' example_json) (new_topic_manager None)),
     gn_history := (\<lambda>_. [])(''a'' := [Subscribe ''c'' example_json])\<rparr>"

lemma example_json_parsed: "parseSubTopicsJson jv_lib example_json = Some [TopicItem ''t'']"
proof -
  obtain v where "jl_parse jv_lib example_json = Some v" "jv_view v = JObject [''topics'' \<mapsto> JArray (map JString [''t''])]"
    using example_subscription by (auto simp: example_json_def)
  from parse_subscription [OF jv_lib_spec this, of "[''t'']"] show ?thesis by (simp add: insort_insert_key_def)
qed

lemma example_topic_network_reach:
  "topic_steps example_fw jv_lib (\<lambda>_. None) (\<lambda>_. 0) (\<lambda>_. Some 9) (gossip_start (\<lambda>_. new_topic_manager None)) example_topic_network"
proof -
  have "topic_op_ok jv_lib (Subscribe ''c'' example_json)"
    by (simp add: example_json_parsed plain_topics_def plain_string_def)
  then show ?thesis
    using gossip_local [where op_ok = "topic_op_ok jv_lib" and op = "Subscribe ''c'' example_json"
        and n = "gossip_start (\<lambda>_. new_topic_manager None)" and p = "''a''" and lstep = "topic_step jv_lib (\<lambda>_. Some 9)"
        and announce = topic_announce and recv = "topic_receive example_fw jv_lib (\<lambda>_. None) (\<lambda>_. 0) (\<lambda>_. Some 9)"
        and forget = topic_forget]
    by (intro gossip_steps_one) (simp add: gossip_start_def example_topic_network_def)
qed

lemma example_topic_network_subscribed: "''t'' \<in> subscribed (gn_state example_topic_network ''a'')"
  by (auto simp: example_topic_network_def subTopic_def example_json_parsed subscribed_def client_topics_subTopic_items)


theorem topic_network_in_step_witness:
  "\<exists>n. topic_steps example_fw jv_lib (\<lambda>_. None) (\<lambda>_. 0) (\<lambda>_. Some 9) (gossip_start (\<lambda>_. new_topic_manager None)) n \<and>
     gn_history n ''a'' \<noteq> [] \<and> node_topics (gn_state n ''b'') ''a'' = subscribed (gn_state n ''a'')"
proof -
  note ok = topic_net_ok [OF example_fw_crop example_fw_decimal jv_lib_spec example_topic_network_reach]
  let ?n = "topic_net.synced ''b'' ''a'' example_topic_network"
  have small: "length (gn_history ?n ''a'') < 2 ^ 32"
    by (simp add: topic_net.synced_def) (simp add: example_topic_network_def)
  have steps: "topic_steps example_fw jv_lib (\<lambda>_. None) (\<lambda>_. 0) (\<lambda>_. Some 9) (gossip_start (\<lambda>_. new_topic_manager None)) ?n"
    by (rule gossip_steps_trans [OF topic_net.steps_synced [OF ok] example_topic_network_reach])
  have "\<not> checkTopicSeq ''a'' (m_topicSeq (gn_state ?n ''a'')) (gn_state ?n ''b'')"
    by (simp add: topic_net.synced_def checkTopicSeq_def updateSeqAndTopicsByNodeID_def um_simps)
  from topic_network_in_step [OF example_fw_crop example_fw_decimal jv_lib_spec steps small this] steps
  show ?thesis
    by (intro exI [of _ ?n]) (simp add: topic_net.synced_def, simp add: example_topic_network_def)
qed

text \<open>
  Claim C27: a restart can go unnoticed. Gateway B has the topics of A under A's number. A starts
  anew and makes changes until it has the same number again, with other topics: its announcement
  leaves B as it is, asking for nothing, with the topics of before.
\<close>

theorem topic_restart_unnoticed:
  assumes "topic_net_inv fw jl view B" and "map_of (m_nodeID2TopicSeq B) a = Some (m_topicSeq A)"
  shows "topic_receive fw jl topicOf rnd proxy a (topic_announce A) B = Some ([], B) \<and>
    (let A1 = subTopic_items proxy c [TopicItem t1] (new_topic_manager rpc);
         A2 = subTopic_items proxy c [TopicItem t2] (new_topic_manager rpc);
         B1 = updateSeqAndTopicsByNodeID a (m_topicSeq A1) (local_topics A1) B
     in topic_receive fw jl topicOf rnd proxy a (topic_announce A2) B1 = Some ([], B1) \<and>
        node_topics B1 a = {t1} \<and> subscribed A2 = {t2})"
proof -
  have one: "m_topicSeq (subTopic_items proxy c its (new_topic_manager rpc)) = 2" for its
    by (simp add: subTopic_items_def incTopicSeq_def new_topic_manager_def)
  have topics: "subscribed (subTopic_items proxy c [TopicItem t] (new_topic_manager rpc)) = {t}" for t
    by (auto simp: subscribed_def client_topics_subTopic_items)
      (simp add: client_topics_def new_topic_manager_def um_at_def)
  have "tm_inv (subTopic_items proxy c [TopicItem t] (new_topic_manager rpc))" for t
    by (rule tm_inv_subTopic_items [OF tm_inv_new]) (simp add: os_ok_def)
  note topics_of = local_topics_subscribed [OF this, unfolded topics]
  let ?A1 = "subTopic_items proxy c [TopicItem t1] (new_topic_manager rpc)"
  let ?B1 = "updateSeqAndTopicsByNodeID a 2 (local_topics ?A1) B"
  have "tm_inv B" using assms(1) by (simp add: topic_net_inv_def)
  note learn = topic_cache.view_learn [OF this local_topics_ok] topic_cache.stale_learn [OF this local_topics_ok]
  have "topic_net_inv fw jl view ?B1"
    by (rule topic_inv_own [OF assms(1) tm_inv_update [OF \<open>tm_inv B\<close> local_topics_ok] topic_own_learn(1)])
  moreover have "\<not> checkTopicSeq a (m_topicSeq A) B" using assms(2) by (simp add: checkTopicSeq_def)
  ultimately show ?thesis
    using receive_topic_announce [of fw jl view ?B1 topicOf rnd proxy a] receive_topic_announce [OF assms(1), of topicOf rnd proxy a A]
    by (simp add: Let_def one topics topics_of learn items_view_def)
qed

theorem topic_restart_unnoticed_witness:
  "let A2 = subTopic_items (\<lambda>_. Some 9) ''c'' [TopicItem ''u''] (new_topic_manager None);
       B1 = updateSeqAndTopicsByNodeID ''a'' (m_topicSeq example_tm) (local_topics example_tm)
         (updateSeqAndTopicsByNodeID ''a'' 2 [] (new_topic_manager None))
   in topic_receive example_fw jv_lib (\<lambda>_. None) (\<lambda>_. 0) (\<lambda>_. Some 9) ''a'' (topic_announce A2) B1 = Some ([], B1) \<and>
      node_topics B1 ''a'' = {''t''} \<and> subscribed A2 = {''u''}"
proof -
  let ?B = "updateSeqAndTopicsByNodeID ''a'' 2 [] (new_topic_manager None)"
  have "topic_net_inv example_fw jv_lib jv_view ?B"
    by (rule topic_inv_own [OF topic_inv_new [OF example_fw_crop example_fw_decimal jv_lib_spec]
          tm_inv_update [OF tm_inv_new] topic_own_learn(1)]) simp
  moreover have "map_of (m_nodeID2TopicSeq ?B) ''a'' = Some (m_topicSeq example_tm)"
    by (simp add: updateSeqAndTopicsByNodeID_def um_simps example_tm_def subTopic_items_def incTopicSeq_def new_topic_manager_def)
  ultimately show ?thesis
    using topic_restart_unnoticed [of example_fw jv_lib jv_view ?B "''a''" example_tm "\<lambda>_. None" "\<lambda>_. 0" "\<lambda>_. Some 9"
        "''c''" "''t''" None "''u''"] by (simp add: Let_def example_tm_def)
qed

end
