(* ===== verification/Amop_World.thy ===== *)
theory Amop_World
  imports Gateway_World
begin

text \<open>
  A message by topic between two gateways, from the request to the caller's callback: the packets
  encoded and decoded, the dispatch in the receiver, the reply of the client and what the
  sender's retry makes of the answer.
\<close>

section \<open>The way of the packets\<close>

text \<open>The packet of a request, as \<open>asyncSendMessageByP2PNodeID\<close> makes it.\<close>

definition topic_request :: "('key, 'more) bcos_fw_scheme \<Rightarrow> u32 \<Rightarrow> bytes \<Rightarrow> p2p_message" where
  "topic_request fw seq data = plain_packet seq (mtAMOPMessageType fw) (buildAndEncodeMessage amop_AMOPRequest data)"

lemma topic_request_made:
  "fst (newP2PMessage (mtAMOPMessageType fw) (buildAndEncodeMessage amop_AMOPRequest data) sv)
     = topic_request fw (fst (factory_newSeq sv)) data"
  by (simp add: newP2PMessage_def topic_request_def plain_packet_def new_message_def case_prod_unfold)

text \<open>What the sender makes of the answer that its session gives to the callback of the request.\<close>

definition on_topic_answer :: "('key, 'more) bcos_fw_scheme \<Rightarrow> (nat \<Rightarrow> nat) \<Rightarrow> retry_sender \<Rightarrow> p2p_message \<Rightarrow> amop_effect list cpp" where
  "on_topic_answer fw rnd rs m =
     cpp_bind (onP2PNodeReply (Some (RetrySender rs)) success (Some m)) (\<lambda>es.
       case es of [CallP2P (RetrySender rs') error type b] \<Rightarrow> onRetryReply fw rnd rs' (error, type, b) | _ \<Rightarrow> Inr [])"

lemma on_topic_answer_eq:
  assumes "rs_callback rs = Some c"
  shows "on_topic_answer fw rnd rs m =
    cpp_bind (response_result fw (m_packetType m) (Some (m_payload m))) (\<lambda>error.
      Inr [CallBack c error (m_packetType m) (Some (m_payload m))])"
  using assms by (simp add: on_topic_answer_def onP2PNodeReply_def success_def onRetryReply_def reply_failed_def call_with_response_def)

text \<open>The error a caller is told when the status of the answer is \<open>code\<close>.\<close>

definition told_error :: "int \<Rightarrow> string \<Rightarrow> error_info" where
  "told_error code text =
     (if word_of_int code = (- 8 :: u16) \<or> word_of_int code = (- 7 :: u16)
      then \<lparr>err_code = 65535, err_msg = ''Access to the remote RPC service timed out, please make sure it is online''\<rparr>
      else \<lparr>err_code = uint (word_of_int code :: u16), err_msg = text\<rparr>)"

lemma status_message_read:
  assumes "crop_spec fw"
  shows "response_result fw (mtAMOPMessageType fw) (Some (status_message code text)) = Inr (Some (told_error code text))"
proof -
  let ?m = "new_amop\<lparr>a_status := word_of_int code, a_type := amop_AMOPResponse, a_data := bytes_of_string text\<rparr>"
  have "buildAMOPMessage fw (status_message code text) = Inr ?m"
    using build_amop_bytes [OF assms, of ?m] by (simp add: status_message_def amop_bytes_def)
  moreover have "uint (- 1 :: u16) = 65535" by code_simp
  ultimately show ?thesis by (simp add: response_result_def response_error_def told_error_def Let_def)
qed

text \<open>The answer of a client, as the caller is to be told it.\<close>

definition caller_told :: "('key, 'more) bcos_fw_scheme \<Rightarrow> nat \<Rightarrow> error_info option \<Rightarrow> bytes \<Rightarrow> amop_effect" where
  "caller_told fw c error b =
     (case error of None \<Rightarrow> CallBack c None (mtWSMessageType fw) (Some b)
      | Some e \<Rightarrow> if err_code e = ceSUCCESS fw then CallBack c None (mtWSMessageType fw) (Some b)
          else CallBack c (Some (told_error (err_code e) (err_msg e))) (mtAMOPMessageType fw)
                 (Some (status_message (err_code e) (err_msg e))))"

text \<open>An answer on the session \<open>a\<close>, carried to the sender, completes the request \<open>seq\<close>.\<close>

definition completes :: "('key, 'more) bcos_fw_scheme \<Rightarrow> (nat \<Rightarrow> nat) \<Rightarrow> retry_sender \<Rightarrow> nat \<Rightarrow> u32 \<Rightarrow> amop_effect list cpp \<Rightarrow> amop_effect \<Rightarrow> bool" where
  "completes fw rnd rs a seq answer call =
     (case answer of Inr [AnswerSession a' m] \<Rightarrow> a' = a \<and>
        (case over_wire fw m of None \<Rightarrow> False
         | Some m' \<Rightarrow> m_seq m' = seq \<and> isRespPacket m' \<and> on_topic_answer fw rnd rs m' = Inr [call])
      | _ \<Rightarrow> False)"

lemma respond_completes:
  assumes "crop_spec fw" and "type \<noteq> mtPeerToPeerMessage fw" "type \<noteq> mtBroadcastMessage fw" and "length b < 2 ^ 32 - 14"
    and "rs_callback rs = Some c" and "response_result fw type (Some b) = Inr error"
  shows "completes fw rnd rs a (m_seq m) (respond fw (ToPeer a m) (Some b) type) (CallBack c error type (Some b))"
proof -
  let ?a = "(setRespPacket (new_message\<lparr>m_seq := m_seq m\<rparr>))\<lparr>m_payload := b, m_packetType := type\<rparr>"
  have "wire_message fw ?a"
    using assms(2-4) by (simp add: wire_message_def hasOptions_def encode_size_def message_encode_def setRespPacket_def
        new_message_def message_header_def)
  from over_wire_normal [OF assms(1) this] show ?thesis
    using assms(5,6)
    by (simp add: completes_def respond_def on_topic_answer_eq wire_normal_def setRespPacket_def isRespPacket_def new_message_def
        ext_Response_def)
qed

lemma client_answer_completes:
  assumes "crop_spec fw" and "types_spec fw" and "rs_callback rs = Some c"
    and "length b < 2 ^ 32 - 14" and "length (case error of None \<Rightarrow> [] | Some e \<Rightarrow> err_msg e) < 2 ^ 32 - 18"
  shows "completes fw rnd rs a (m_seq m) (onClientReply fw (ToPeer a m) error (Some b)) (caller_told fw c error b)"
proof -
  have types: "mtWSMessageType fw \<notin> {mtPeerToPeerMessage fw, mtBroadcastMessage fw, mtAMOPMessageType fw}"
      "mtAMOPMessageType fw \<notin> {mtPeerToPeerMessage fw, mtBroadcastMessage fw}"
    using assms(2) by (auto simp: types_spec_def)
  have ws: "completes fw rnd rs a (m_seq m) (respond fw (ToPeer a m) (Some b) (mtWSMessageType fw))
      (CallBack c None (mtWSMessageType fw) (Some b))"
    using types(1) by (intro respond_completes [OF assms(1) _ _ assms(4,3)]) (auto simp: response_result_def)
  show ?thesis
  proof (cases error)
    case (Some e)
    have "length (status_message (err_code e) (err_msg e)) < 2 ^ 32 - 14"
      using assms(5) Some by (simp add: status_message_def amop_encode_def)
    then have "completes fw rnd rs a (m_seq m)
        (respond fw (ToPeer a m) (Some (status_message (err_code e) (err_msg e))) (mtAMOPMessageType fw))
        (CallBack c (Some (told_error (err_code e) (err_msg e))) (mtAMOPMessageType fw) (Some (status_message (err_code e) (err_msg e))))"
      using types(2) by (intro respond_completes [OF assms(1) _ _ _ assms(3) status_message_read [OF assms(1)]]) simp_all
    with ws Some show ?thesis by (simp add: onClientReply_def caller_told_def)
  qed (simp add: onClientReply_def caller_told_def ws)
qed

section \<open>From the sender to the client and back\<close>

lemma request_arrives:
  assumes "crop_spec fw" and "types_spec fw" and "length data < 2 ^ 32 - 18"
  shows "over_wire fw (topic_request fw seq data) = Some (wire_normal fw (topic_request fw seq data))"
proof -
  have "mtAMOPMessageType fw \<notin> {mtPeerToPeerMessage fw, mtBroadcastMessage fw}"
    using assms(2) by (auto simp: types_spec_def)
  then have "wire_message fw (topic_request fw seq data)"
    unfolding topic_request_def using assms(3)
    by (intro plain_packet_wire) (auto simp: buildAndEncodeMessage_def amop_encode_def)
  then show ?thesis by (rule over_wire_normal [OF assms(1)])
qed

text \<open>
  Claim C6: a message by topic, end to end. The packet that the sender makes reaches the AMOP
  handler of the receiver; when a client there has subscribed the topic and can be called, one
  such client is given the topic and the data, and whatever it replies goes back on the session of
  the request, with its sequence number, and the sender's caller is called once with the data, or
  with the client's error, its code cut to 16 bits. When no client can be called the caller is
  told so.
\<close>

theorem topic_message_round_trip:
  assumes "crop_spec fw" and "types_spec fw" and "topicOf data = Some topic" and "length data < 2 ^ 32 - 18"
    and B: "map_of (sv_store (gw_service B)) a = Some ps" "tm_inv (gw_tm B)"
      "getMessageHandlerByMsgType (mtAMOPMessageType fw) (gw_service B) = Some h"
    and A: "rs_callback rs = Some c"
  shows "case over_wire fw (topic_request fw seq data) of None \<Rightarrow> False
   | Some m \<Rightarrow>
      service_onMessage fw jl wq True success (Some a) (Some m) B = Inr ([Net (CallMsgHandler h success a m)], B) \<and>
      (case onAMOPMessage fw jl wq topicOf rnd proxy success a (Some m) B of
         Inr ([Amop (NotifyClient rpc kind t d (ClientReply target))], B') \<Rightarrow>
           kind = Unicast \<and> t = topic \<and> d = data \<and>
           (\<exists>cl. topic \<in> client_topics (gw_tm B) cl \<and> fst (createAndGetServiceByClient proxy cl (gw_tm B)) = Some rpc) \<and>
           (\<forall>error b. length b < 2 ^ 32 - 14 \<and> length (case error of None \<Rightarrow> [] | Some e \<Rightarrow> err_msg e) < 2 ^ 32 - 18 \<longrightarrow>
              completes fw rnd' rs a seq (onClientReply fw target error (Some b)) (caller_told fw c error b))
       | Inr ([Amop (RespondLater target b type)], B') \<Rightarrow>
           completes fw rnd' rs a seq (respond fw target (Some b) type)
             (CallBack c (Some (told_error (ceNotFoundClientByTopicDispatchMsg fw) ''NotFoundClientByTopicDispatchMsg''))
                (mtAMOPMessageType fw) (Some b))
       | _ \<Rightarrow> False)"
proof -
  let ?m = "wire_normal fw (topic_request fw seq data)" and ?tm = "gw_tm B"
  let ?clients = "queryClientsByTopic topic ?tm"
  have fields: "m_packetType ?m = mtAMOPMessageType fw" "m_payload ?m = buildAndEncodeMessage amop_AMOPRequest data" "m_seq ?m = seq"
    by (simp_all add: wire_normal_def topic_request_def plain_packet_def)
  have dispatch: "service_onMessage fw jl wq True success (Some a) (Some ?m) B = Inr ([Net (CallMsgHandler h success a ?m)], B)"
    using B by (simp add: service_onMessage_def fields Let_def success_def)
  have run: "onAMOPMessage fw jl wq topicOf rnd proxy success a (Some ?m) B
      = with_topics fw wq (onReceiveAMOPMessage_topic fw rnd proxy topic data (ToPeer a ?m) ?tm) B"
    using assms(1,3) B(1)
    by (simp add: onAMOPMessage_def dispatcherAMOPMessage_def success_def fields response_data onReceiveAMOPMessage_def amop_type_defs)
  have types: "mtAMOPMessageType fw \<noteq> mtPeerToPeerMessage fw" "mtAMOPMessageType fw \<noteq> mtBroadcastMessage fw"
    using assms(2) by (auto simp: types_spec_def)
  have none: "completes fw rnd' rs a seq (respond fw (ToPeer a ?m) (Some (status_message code ''NotFoundClientByTopicDispatchMsg'')) (mtAMOPMessageType fw))
      (CallBack c (Some (told_error code ''NotFoundClientByTopicDispatchMsg'')) (mtAMOPMessageType fw)
        (Some (status_message code ''NotFoundClientByTopicDispatchMsg'')))" for code
    using respond_completes [OF assms(1) types _ A status_message_read [OF assms(1)], of code "''NotFoundClientByTopicDispatchMsg''" rnd' a ?m]
    by (simp add: fields status_message_def amop_encode_def)
  have some: "completes fw rnd' rs a seq (onClientReply fw (ToPeer a ?m) error (Some b)) (caller_told fw c error b)"
    if "length b < 2 ^ 32 - 14" "length (case error of None \<Rightarrow> [] | Some e \<Rightarrow> err_msg e) < 2 ^ 32 - 18" for error b
    using client_answer_completes [OF assms(1,2) A that, of rnd' a ?m] by (simp add: fields)
  obtain rpc tm' where create: "(if ?clients \<noteq> [] then createAndGetServiceByClient proxy (randomChoose rnd ?clients) ?tm else (None, ?tm)) = (rpc, tm')"
    by fastforce
  have "\<exists>cl. topic \<in> client_topics ?tm cl \<and> fst (createAndGetServiceByClient proxy cl ?tm) = Some r" if "rpc = Some r" for r
  proof -
    have "?clients \<noteq> []" using create that by (auto split: if_splits)
    then have "topic \<in> client_topics ?tm (randomChoose rnd ?clients)"
      using queries_exact [OF B(2), of topic] randomChoose_in [of ?clients rnd] by simp
    then show ?thesis using create that \<open>?clients \<noteq> []\<close> by (metis fst_conv)
  qed
  then show ?thesis
    using request_arrives [OF assms(1,2,4)] dispatch run create none some
    by (cases rpc) (simp_all add: onReceiveAMOPMessage_topic_def with_topics_def Let_def del: length_append)
qed

definition example_amop :: "bytes list gateway" where
  "example_amop = example_gateway\<lparr>gw_service := registerHandlerByMsgType 7 (Some 0) (gw_service example_gateway),
     gw_tm := subTopic_items (\<lambda>_. Some 9) ''c'' [TopicItem ''t''] (new_topic_manager None)\<rparr>"

lemma example_amop_sel:
  "map_of (sv_store (gw_service example_amop)) 0 = Some (new_p2p_session example_session example_ep (example_info ''p2''))"
  "gw_tm example_amop = subTopic_items (\<lambda>_. Some 9) ''c'' [TopicItem ''t''] (new_topic_manager None)"
  "getMessageHandlerByMsgType 7 (gw_service example_amop) = Some 0"
  by (simp_all add: example_amop_def registerHandlerByMsgType_def getMessageHandlerByMsgType_def um_simps example_gateway_def
      new_service_def um_has_def)

lemma example_clients:
  "queryClientsByTopic ''t'' (gw_tm example_amop) = [''c'']"
  "createAndGetServiceByClient (\<lambda>_. Some 9) ''c'' (gw_tm example_amop) = (Some 9, gw_tm example_amop)"
  unfolding example_amop_sel by code_simp+

theorem topic_message_round_trip_witness:
  "\<exists>m target. over_wire example_fw (topic_request example_fw 4 [1]) = Some m \<and>
     onAMOPMessage example_fw jv_lib list_queue (\<lambda>_. Some ''t'') (\<lambda>_. 0) (\<lambda>_. Some 9) success 0 (Some m) example_amop
       = Inr ([Amop (NotifyClient 9 Unicast ''t'' [1] (ClientReply target))], example_amop) \<and>
     completes example_fw (\<lambda>_. 0) \<lparr>rs_nodeIDs = [], rs_buffer = [], rs_callback = Some 3\<rparr> 0 4
       (onClientReply example_fw target None (Some [5])) (CallBack 3 None 8 (Some [5]))"
proof -
  let ?m = "wire_normal example_fw (topic_request example_fw 4 [1])"
  have inv: "tm_inv (gw_tm example_amop)" using example_subscribed by (simp add: example_amop_sel)
  have wire: "over_wire example_fw (topic_request example_fw 4 [1]) = Some ?m" by (rule request_arrives) simp_all
  have run: "onAMOPMessage example_fw jv_lib list_queue (\<lambda>_. Some ''t'') (\<lambda>_. 0) (\<lambda>_. Some 9) success 0 (Some ?m) example_amop
      = Inr ([Amop (NotifyClient 9 Unicast ''t'' [1] (ClientReply (ToPeer 0 ?m)))], example_amop)"
    by (simp add: onAMOPMessage_def dispatcherAMOPMessage_def success_def wire_normal_def topic_request_def plain_packet_def
        response_data onReceiveAMOPMessage_def amop_type_defs onReceiveAMOPMessage_topic_def example_clients Let_def
        randomChoose_def std_shuffle_def with_topics_def example_amop_sel(1))
  have "\<forall>error b. length b < 2 ^ 32 - 14 \<and> length (case error of None \<Rightarrow> [] | Some e \<Rightarrow> err_msg e) < 2 ^ 32 - 18 \<longrightarrow>
      completes example_fw (\<lambda>_. 0) \<lparr>rs_nodeIDs = [], rs_buffer = [], rs_callback = Some 3\<rparr> 0 4
        (onClientReply example_fw (ToPeer 0 ?m) error (Some b)) (caller_told example_fw 3 error b)"
    using topic_message_round_trip [OF example_fw_crop example_fw_types _ _ example_amop_sel(1) inv, of "\<lambda>_. Some ''t''" "[1]" "''t''" 0
      "\<lparr>rs_nodeIDs = [], rs_buffer = [], rs_callback = Some 3\<rparr>" 3, where seq = 4 and wq = list_queue and jl = jv_lib and
      rnd = "\<lambda>_. 0" and proxy = "\<lambda>_. Some 9" and rnd' = "\<lambda>_. 0"]
    by (simp add: wire run example_amop_sel(3))
  from this [rule_format, of "[5]" None] show ?thesis using wire run by (auto simp: caller_told_def)
qed

end
