(* ===== verification/Text_Split.thy ===== *)
theory Text_Split
  imports Gw_Prelude
begin

text \<open>
  \<open>boost::split\<close> with \<open>token_compress_on\<close>, used on certificate names and on endpoints. It is
  not part of the repository: the definitions that use it take it as an argument, and the theorems
  assume what it is documented to do on a text with delimiters between non-empty pieces (the first
  and the last piece may be empty). \<open>split_text\<close> is an instance.
\<close>

fun join_with :: "char \<Rightarrow> string list \<Rightarrow> string" where
  "join_with d [] = []"
| "join_with d [t] = t"
| "join_with d (t # u # ts) = t @ d # join_with d (u # ts)"

definition pieces_ok :: "char \<Rightarrow> string list \<Rightarrow> bool" where
  "pieces_ok d ts \<longleftrightarrow> ts \<noteq> [] \<and> list_all (\<lambda>t. d \<notin> set t) ts \<and> list_all (\<lambda>t. t \<noteq> []) (butlast (tl ts))"

definition split_spec :: "(char \<Rightarrow> string \<Rightarrow> string list) \<Rightarrow> bool" where
  "split_spec split \<longleftrightarrow> (\<forall>d ts. pieces_ok d ts \<longrightarrow> split d (join_with d ts) = ts)"

lemma split_specD: "split_spec split \<Longrightarrow> pieces_ok d ts \<Longrightarrow> split d (join_with d ts) = ts"
  by (simp add: split_spec_def)

function split_text :: "char \<Rightarrow> string \<Rightarrow> string list" where
  "split_text d [] = [[]]"
| "split_text d (c # cs) =
     (if c = d then [] # split_text d (dropWhile (\<lambda>x. x = d) cs)
      else case split_text d cs of [] \<Rightarrow> [[c]] | t # ts \<Rightarrow> (c # t) # ts)"
  by pat_completeness auto
termination
  by (relation "measure (\<lambda>(d, s). length s)") (auto simp: le_imp_less_Suc length_dropWhile_le)

lemma split_text_nonempty [simp]: "split_text d s \<noteq> []"
  by (induction d s rule: split_text.induct) (auto split: list.split)

lemma split_text_plain: "d \<notin> set t \<Longrightarrow> split_text d t = [t]"
  by (induction t) auto

lemma split_text_piece: "d \<notin> set t \<Longrightarrow> split_text d (t @ d # r) = t # split_text d (dropWhile (\<lambda>x. x = d) r)"
  by (induction t) (auto split: list.split)

lemma join_drop:
  assumes "ts \<noteq> []" and "d \<notin> set (hd ts)" and "hd ts = [] \<longrightarrow> ts = [[]]"
  shows "dropWhile (\<lambda>x. x = d) (join_with d ts) = join_with d ts"
proof (cases "hd ts")
  case Nil
  with assms(3) show ?thesis by simp
next
  case (Cons c cs)
  with assms(1) obtain us where "ts = (c # cs) # us" by (cases ts) auto
  with assms(2) show ?thesis by (cases us) auto
qed

lemma split_text_join: "pieces_ok d ts \<Longrightarrow> split_text d (join_with d ts) = ts"
proof (induction d ts rule: join_with.induct)
  case (3 d t u ts)
  have "u = [] \<longrightarrow> ts = []" using 3(2) by (cases ts) (auto simp: pieces_ok_def)
  then have drop: "dropWhile (\<lambda>x. x = d) (join_with d (u # ts)) = join_with d (u # ts)"
    using 3(2) by (intro join_drop) (simp_all add: pieces_ok_def)
  have "pieces_ok d (u # ts)"
    using 3(2) by (cases ts) (auto simp: pieces_ok_def split: if_splits)
  with 3 drop show ?case by (simp add: split_text_piece pieces_ok_def)
qed (simp_all add: pieces_ok_def split_text_plain)

lemma split_text_spec: "split_spec split_text"
  by (simp add: split_spec_def split_text_join)

end
