(* ===== verification/Host_Model.thy ===== *)
theory Host_Model
  imports Text_Split Service_Core
begin

text \<open>
  \<open>libnetwork/Host.h/.cpp\<close>: accepting and making connections, the identity of a peer from its
  certificate, and the session that is handed to the service. What OpenSSL and boost give (the
  fields of a certificate, \<open>boost::split\<close>, \<open>to_upper_copy\<close>) are the members of \<open>x509lib\<close>, an
  argument of the definitions that use them; sockets are numbers. Log lines are left out.
\<close>

section \<open>State and effects\<close>

record 'c x509lib =
  x_pubHex :: "'c \<Rightarrow> string option" \<comment> \<open>\<open>m_sslContextPubHandler\<close>\<close>
  x_ca :: "'c \<Rightarrow> bool option" \<comment> \<open>the basic constraints: is it a CA\<close>
  x_subject :: "'c \<Rightarrow> string"
  x_issuer :: "'c \<Rightarrow> string"
  x_split :: "char \<Rightarrow> string \<Rightarrow> string list"
  x_upper :: "string \<Rightarrow> string"

record host =
  h_run :: bool
  h_listen :: endpoint
  h_pending :: "endpoint list"
  h_handler :: bool \<comment> \<open>a connection handler is set\<close>
  h_next :: nat \<comment> \<open>the next socket\<close>
  h_info :: p2p_info

definition empty_info :: p2p_info where
  "empty_info = \<lparr>pi_p2pID = [], pi_agencyName = [], pi_nodeName = [], pi_endpoint = ([], 0)\<rparr>"

definition new_host :: host where
  "new_host = \<lparr>h_run = False, h_listen = ([], 0), h_pending = [], h_handler = False, h_next = 0, h_info = empty_info\<rparr>"

datatype host_effect =
    AsioInit endpoint
  | StartHostThread
  | AsyncAccept nat
  | SetPeerEndpoint nat endpoint
  | SetVerifyCallback nat
  | ServerHandshake nat
  | ClientHandshake nat endpoint nat
  | CloseConn nat
  | ArmConnectTimer nat u32
  | CancelConnectTimer nat
  | ResolveConnect nat endpoint nat
  | EnqueueConnected bool p2p_info nat \<comment> \<open>a job that calls the connection handler, if there is one\<close>
  | EnqueueConnectFailed nat \<comment> \<open>a job that calls the callback with \<open>ConnectError\<close>\<close>
  | AsioStop
  | JoinHostThread
  | StopThreadPool

type_synonym host_result = "host_effect list \<times> host"

definition setHostPort :: "string \<Rightarrow> u16 \<Rightarrow> host \<Rightarrow> host" where
  "setHostPort ip port h = h\<lparr>h_listen := (ip, port)\<rparr>"

definition setConnectionHandler :: "bool \<Rightarrow> host \<Rightarrow> host" where
  "setConnectionHandler handler h = h\<lparr>h_handler := handler\<rparr>"

definition erasePendingConns :: "endpoint \<Rightarrow> host \<Rightarrow> host" where
  "erasePendingConns ep h = (if ep \<in> set (h_pending h) then h\<lparr>h_pending := os_erase ep (h_pending h)\<rparr> else h)"

definition insertPendingConns :: "endpoint \<Rightarrow> host \<Rightarrow> host" where
  "insertPendingConns ep h = (if ep \<in> set (h_pending h) then h else h\<lparr>h_pending := ep # h_pending h\<rparr>)"

section \<open>The identity of a peer\<close>

fun contains :: "string \<Rightarrow> string \<Rightarrow> bool" where
  "contains p [] = (p = [])"
| "contains p (c # cs) = (take (length p) (c # cs) = p \<or> contains p cs)"

fun common_name_of :: "(char \<Rightarrow> string \<Rightarrow> string list) \<Rightarrow> string \<Rightarrow> string list \<Rightarrow> string" where
  "common_name_of split subject [] = subject"
| "common_name_of split subject (field # more_fields) =
     (if contains ''CN'' field
      then (let cn_fields = split CHR ''='' field
            in if length cn_fields < 2 then field else cn_fields ! 1)
      else common_name_of split subject more_fields)"

definition obtainCommonNameFromSubject :: "(char \<Rightarrow> string \<Rightarrow> string list) \<Rightarrow> string \<Rightarrow> string" where
  "obtainCommonNameFromSubject split subject = common_name_of split subject (split CHR ''/'' subject)"

definition obtainNodeInfo :: "(char \<Rightarrow> string \<Rightarrow> string list) \<Rightarrow> p2p_info \<Rightarrow> string \<Rightarrow> p2p_info" where
  "obtainNodeInfo split info node_info =
     (let v = split CHR ''#'' node_info;
          info = (if v \<noteq> [] then info\<lparr>pi_p2pID := v ! 0\<rparr> else info);
          info = (if length v > 1 then info\<lparr>pi_agencyName := obtainCommonNameFromSubject split (v ! 1)\<rparr> else info)
      in if length v > 2 then info\<lparr>pi_nodeName := obtainCommonNameFromSubject split (v ! 2)\<rparr> else info)"

text \<open>
  The callback of \<open>newVerifyCallback\<close>: its result and the text it leaves in \<open>nodeIDOut\<close>. OpenSSL
  calls it for every certificate of the chain, the peer's own last.
\<close>

definition verify_callback :: "'c x509lib \<Rightarrow> bool \<Rightarrow> bool \<Rightarrow> 'c option \<Rightarrow> string \<Rightarrow> bool \<times> string" where
  "verify_callback x host_alive preverified cert nodeIDOut =
     (if \<not> host_alive then (False, nodeIDOut)
      else if \<not> preverified then (False, nodeIDOut)
      else case cert of None \<Rightarrow> (preverified, nodeIDOut)
      | Some c \<Rightarrow> (case x_pubHex x c of None \<Rightarrow> (preverified, nodeIDOut)
        | Some hex \<Rightarrow> (case x_ca x c of None \<Rightarrow> (preverified, hex)
          | Some ca \<Rightarrow> if ca then (preverified, hex)
                       else (preverified, hex @ ''#'' @ x_issuer x c @ ''#'' @ x_subject x c))))"

text \<open>\<open>p2pInfo\<close>: the own identity, taken from the certificate \<open>own\<close> of the context the first time.\<close>

definition host_p2pInfo :: "'c x509lib \<Rightarrow> 'c \<Rightarrow> host \<Rightarrow> p2p_info \<times> host" where
  "host_p2pInfo x own h =
     (if pi_p2pID (h_info h) = []
      then let info = (case x_pubHex x own of None \<Rightarrow> h_info h
                       | Some hex \<Rightarrow> (h_info h)\<lparr>pi_p2pID := x_upper x hex\<rparr>);
               info = info\<lparr>pi_agencyName := obtainCommonNameFromSubject (x_split x) (x_issuer x own),
                           pi_nodeName := obtainCommonNameFromSubject (x_split x) (x_subject x own),
                           pi_endpoint := h_listen h\<rparr>
           in (info, h\<lparr>h_info := info\<rparr>)
      else (h_info h, h))"

section \<open>Sessions\<close>

text \<open>\<open>startPeerSession\<close>: the session is made for the socket by the factory; the callback is not used.\<close>

definition startPeerSession :: "p2p_info \<Rightarrow> nat \<Rightarrow> nat option \<Rightarrow> host \<Rightarrow> host_effect list" where
  "startPeerSession info sock callback h = [EnqueueConnected (h_handler h) info sock]"

section \<open>Accepting\<close>

definition startAccept :: "host \<Rightarrow> host_result" where
  "startAccept h = (if h_run h then ([AsyncAccept (h_next h)], h\<lparr>h_next := h_next h + 1\<rparr>) else ([], h))"

definition onAccept :: "nat \<Rightarrow> endpoint \<Rightarrow> bool \<Rightarrow> host \<Rightarrow> host_result" where
  "onAccept sock ep ec h =
     (if ec \<or> \<not> h_run h then apfst ((#) (CloseConn sock)) (startAccept h)
      else apfst ((@) [SetPeerEndpoint sock ep, SetVerifyCallback sock, ServerHandshake sock]) (startAccept h))"

definition handshakeServer :: "'c x509lib \<Rightarrow> bool \<Rightarrow> string \<Rightarrow> nat \<Rightarrow> host \<Rightarrow> host_effect list" where
  "handshakeServer x error endpointPublicKey sock h =
     (if error then [CloseConn sock]
      else if endpointPublicKey = [] then [CloseConn sock]
      else if h_run h
      then startPeerSession (obtainNodeInfo (x_split x) empty_info endpointPublicKey) sock None h
      else [])"

section \<open>Start and stop\<close>

definition host_start :: "host \<Rightarrow> host_result" where
  "host_start h = (if h_run h then ([], h) else ([AsioInit (h_listen h), StartHostThread], h\<lparr>h_run := True\<rparr>))"

text \<open>One round of the loop of the host thread, which ends when \<open>run()\<close> of the io service returns.\<close>

definition host_thread_round :: "bool \<Rightarrow> host \<Rightarrow> host_result" where
  "host_thread_round acceptor h = (if h_run h \<and> acceptor then startAccept h else ([], h))"

definition host_stop :: "bool \<Rightarrow> bool \<Rightarrow> host \<Rightarrow> host_result" where
  "host_stop joinable pool h =
     (if \<not> h_run h then ([], h)
      else ([AsioStop] @ (if joinable then [JoinHostThread] else []) @ (if pool then [StopThreadPool] else []),
            h\<lparr>h_run := False\<rparr>))"

section \<open>Connecting\<close>

definition asyncConnect :: "endpoint \<Rightarrow> nat \<Rightarrow> host \<Rightarrow> host_result" where
  "asyncConnect ep callback h =
     (if \<not> h_run h then ([], h)
      else if ep \<in> set (h_pending h) then ([], h)
      else ([ArmConnectTimer (h_next h) 50000, ResolveConnect (h_next h) ep callback], h\<lparr>h_next := h_next h + 1\<rparr>))"

text \<open>The handler of the connect timer: \<open>aborted\<close> when it was cancelled.\<close>

definition onConnectTimer :: "bool \<Rightarrow> bool \<Rightarrow> nat \<Rightarrow> endpoint \<Rightarrow> host \<Rightarrow> host_result" where
  "onConnectTimer aborted connected_now sock ep h =
     (if aborted then ([], h)
      else if connected_now then ([CloseConn sock], erasePendingConns ep h) else ([], h))"

definition onResolveConnect :: "bool \<Rightarrow> nat \<Rightarrow> endpoint \<Rightarrow> nat \<Rightarrow> host \<Rightarrow> host_result" where
  "onResolveConnect ec sock ep callback h =
     (if ec then ([CloseConn sock, EnqueueConnectFailed callback], h)
      else ([SetVerifyCallback sock, ClientHandshake sock ep callback], insertPendingConns ep h))"

definition handshakeClient :: "'c x509lib \<Rightarrow> bool \<Rightarrow> bool \<Rightarrow> string \<Rightarrow> nat \<Rightarrow> endpoint \<Rightarrow> nat \<Rightarrow> host \<Rightarrow> host_result" where
  "handshakeClient x error connected_now endpointPublicKey sock ep callback h =
     (let h = erasePendingConns ep h
      in (CancelConnectTimer sock #
          (if error then (if connected_now then [CloseConn sock] else [])
           else if endpointPublicKey = [] then [CloseConn sock]
           else if h_run h
           then startPeerSession (obtainNodeInfo (x_split x) empty_info endpointPublicKey) sock (Some callback) h
           else []), h))"

end
