(* ===== verification/Asio_Model.thy ===== *)
theory Asio_Model
  imports Host_Model
begin

text \<open>
  \<open>libnetwork/Socket.h\<close> and \<open>libnetwork/ASIOInterface.h/.cpp\<close>: the sockets and the wrapper of the
  io service through which host and sessions reach the network. A call of boost is a value of
  \<open>asio_call\<close>; what boost answers later is an argument of the definition that goes on. Sockets
  are named by numbers as in the host; a null pointer that is followed is a result of its own.
\<close>

section \<open>Sockets\<close>

record net_socket =
  so_endpoint :: endpoint
  so_stream :: "bool option" \<comment> \<open>\<open>m_sslSocket\<close>: \<open>None\<close> is the null pointer, else whether its lowest layer is open\<close>

text \<open>The constructor: it goes on when the TLS stream cannot be made, and leaves the pointer null.\<close>

definition make_socket :: "bool \<Rightarrow> endpoint \<Rightarrow> net_socket" where
  "make_socket tls ep = \<lparr>so_endpoint = ep, so_stream = (if tls then Some False else None)\<rparr>"

definition socket_isConnected :: "net_socket \<Rightarrow> bool cpp" where
  "socket_isConnected s = (case so_stream s of None \<Rightarrow> Inl NullPointer | Some opened \<Rightarrow> Inr opened)"

text \<open>
  \<open>close\<close>: the error of \<open>shutdown\<close> is dropped and exceptions are caught; boost closes the
  descriptor even when it reports an error. A null pointer is no exception.
\<close>

definition socket_close :: "net_socket \<Rightarrow> net_socket cpp" where
  "socket_close s = cpp_bind (socket_isConnected s) (\<lambda>opened. Inr (if opened then s\<lparr>so_stream := Some False\<rparr> else s))"

definition socket_ref :: "net_socket \<Rightarrow> unit cpp" where
  "socket_ref s = cpp_bind (socket_isConnected s) (\<lambda>_. Inr ())"

definition setNodeIPEndpoint :: "endpoint \<Rightarrow> net_socket \<Rightarrow> net_socket" where
  "setNodeIPEndpoint ep s = s\<lparr>so_endpoint := ep\<rparr>"

section \<open>The interface to the io service\<close>

datatype asio_call =
    AcceptOn nat
  | ResolveName nat bool string u16 \<comment> \<open>for IPv6; host; port\<close>
  | TcpConnect nat string
  | TcpWrite nat bytes
  | TlsWrite nat bytes
  | TcpRead nat nat
  | TlsRead nat nat
  | TcpReadSome nat nat
  | TlsReadSome nat nat
  | TlsHandshake nat bool \<comment> \<open>as the server\<close>
  | TlsVerify nat
  | WaitTimer
  | PostStrand
  | RunIo
  | CancelAcceptor
  | StopIo

record asio =
  as_type :: int
  as_strand :: bool
  as_resolver :: bool
  as_acceptor :: "bool option"
  as_stopped :: bool \<comment> \<open>of the io service\<close>
  as_sockets :: "(nat \<times> net_socket) list"
  as_jobs :: "(int \<times> nat \<times> bytes) list" \<comment> \<open>writes posted to the io service, with the type they captured\<close>

type_synonym asio_result = "(asio_call list \<times> asio) cpp"

definition TCP_ONLY :: int where "TCP_ONLY = 0"
definition SSL :: int where "SSL = 1"

definition new_asio :: asio where
  "new_asio = \<lparr>as_type = 0, as_strand = False, as_resolver = False, as_acceptor = None, as_stopped = False,
     as_sockets = [], as_jobs = []\<rparr>"

definition asio_setType :: "int \<Rightarrow> asio \<Rightarrow> asio" where
  "asio_setType type a = a\<lparr>as_type := type\<rparr>"

text \<open>The interface of a gateway, as \<open>GatewayFactory::buildGateway\<close> makes it.\<close>

definition gateway_asio :: asio where
  "gateway_asio = asio_setType SSL new_asio"

definition the_socket :: "nat \<Rightarrow> asio \<Rightarrow> net_socket cpp" where
  "the_socket n a = (case map_of (as_sockets a) n of None \<Rightarrow> Inl NullPointer | Some s \<Rightarrow> Inr s)"

definition put_socket :: "nat \<Rightarrow> net_socket \<Rightarrow> asio \<Rightarrow> asio" where
  "put_socket n s a = a\<lparr>as_sockets := um_put n s (as_sockets a)\<rparr>"

definition on_stream :: "nat \<Rightarrow> asio_call list \<Rightarrow> asio \<Rightarrow> asio_result" where
  "on_stream n calls a = cpp_bind (the_socket n a) (\<lambda>s. cpp_bind (socket_ref s) (\<lambda>_. Inr (calls, a)))"

definition newSocket :: "nat \<Rightarrow> bool \<Rightarrow> endpoint \<Rightarrow> asio \<Rightarrow> asio" where
  "newSocket n tls ep a = put_socket n (make_socket tls ep) a"

definition asio_closeSocket :: "nat \<Rightarrow> asio \<Rightarrow> asio_result" where
  "asio_closeSocket n a = cpp_bind (the_socket n a) (\<lambda>s. cpp_bind (socket_close s) (\<lambda>s'. Inr ([], put_socket n s' a)))"

text \<open>\<open>init\<close>: whether it throws, when the address is malformed or cannot be bound.\<close>

definition asio_init :: "(string \<Rightarrow> bool) \<Rightarrow> (endpoint \<Rightarrow> bool) \<Rightarrow> endpoint \<Rightarrow> asio \<Rightarrow> bool \<times> asio" where
  "asio_init is_address can_bind listen a =
     (let a = a\<lparr>as_strand := True, as_resolver := True\<rparr>
      in if is_address (fst listen) \<and> can_bind listen then (False, a\<lparr>as_acceptor := Some True\<rparr>) else (True, a))"

definition asio_runService :: "asio \<Rightarrow> asio_call list" where
  "asio_runService a = [RunIo]"

definition asio_stop :: "asio \<Rightarrow> asio_call list \<times> asio" where
  "asio_stop a =
     (let (calls, a) = (if as_acceptor a = Some True then ([CancelAcceptor], a\<lparr>as_acceptor := Some False\<rparr>) else ([], a))
      in (calls @ [StopIo], a\<lparr>as_stopped := True\<rparr>))"

definition asio_reset :: "asio \<Rightarrow> asio" where
  "asio_reset a = (if as_stopped a then a\<lparr>as_stopped := False\<rparr> else a)"

definition asyncAccept :: "nat \<Rightarrow> asio \<Rightarrow> asio_result" where
  "asyncAccept n a =
     (if as_acceptor a = None \<or> \<not> as_strand a then Inl NullPointer else on_stream n [AcceptOn n] a)"

text \<open>\<open>asyncResolveConnect\<close>, and the handler of the resolver: an error calls nobody.\<close>

definition asyncResolveConnect :: "(endpoint \<Rightarrow> bool) \<Rightarrow> nat \<Rightarrow> asio \<Rightarrow> asio_result" where
  "asyncResolveConnect isIPv6 n a =
     cpp_bind (the_socket n a) (\<lambda>s.
       if \<not> as_resolver a then Inl NullPointer
       else Inr ([ResolveName n (isIPv6 (so_endpoint s)) (fst (so_endpoint s)) (snd (so_endpoint s))], a))"

text \<open>\<open>async_connect\<close> of boost opens the socket first. The results of a resolver are never empty.\<close>

definition onResolved :: "nat \<Rightarrow> string list option \<Rightarrow> asio \<Rightarrow> asio_result" where
  "onResolved n results a =
     (case results of None \<Rightarrow> Inr ([], a)
      | Some [] \<Rightarrow> Inl OutOfBounds
      | Some (target # _) \<Rightarrow>
          cpp_bind (the_socket n a) (\<lambda>s. cpp_bind (socket_ref s) (\<lambda>_.
            Inr ([TcpConnect n target], put_socket n (s\<lparr>so_stream := Some True\<rparr>) a))))"

definition asyncWrite :: "nat \<Rightarrow> bytes \<Rightarrow> asio \<Rightarrow> asio" where
  "asyncWrite n buffer a = a\<lparr>as_jobs := as_jobs a @ [(as_type a, n, buffer)]\<rparr>"

definition write_job :: "int \<Rightarrow> nat \<Rightarrow> bytes \<Rightarrow> asio \<Rightarrow> asio_result" where
  "write_job type n buffer a =
     cpp_bind (the_socket n a) (\<lambda>s. cpp_bind (socket_isConnected s) (\<lambda>connected.
       if connected
       then (if type = TCP_ONLY then on_stream n [TcpWrite n buffer] a
             else if type = SSL then on_stream n [TlsWrite n buffer] a else Inr ([], a))
       else Inr ([], a)))"

definition asyncRead :: "nat \<Rightarrow> nat \<Rightarrow> asio \<Rightarrow> asio_result" where
  "asyncRead n len a =
     (if as_type a = TCP_ONLY then on_stream n [TcpRead n len] a
      else if as_type a = SSL then on_stream n [TlsRead n len] a else Inr ([], a))"

definition asyncReadSome :: "nat \<Rightarrow> nat \<Rightarrow> asio \<Rightarrow> asio_result" where
  "asyncReadSome n len a =
     (if as_type a = TCP_ONLY then on_stream n [TcpReadSome n len] a
      else if as_type a = SSL then on_stream n [TlsReadSome n len] a else Inr ([], a))"

definition asyncHandshake :: "nat \<Rightarrow> bool \<Rightarrow> asio \<Rightarrow> asio_result" where
  "asyncHandshake n server a = on_stream n [TlsHandshake n server] a"

definition asyncWait :: "bool \<Rightarrow> asio_call list" where
  "asyncWait timer = (if timer then [WaitTimer] else [])"

definition setVerifyCallback :: "nat \<Rightarrow> asio \<Rightarrow> asio_result" where
  "setVerifyCallback n a = on_stream n [TlsVerify n] a"

definition strandPost :: "asio \<Rightarrow> asio_result" where
  "strandPost a = (if as_strand a then Inr ([PostStrand], a) else Inl NullPointer)"

section \<open>What the host asks of it\<close>

text \<open>
  The calls that the effects of the host stand for. \<open>asyncConnect\<close> and \<open>startAccept\<close> make the
  socket just before they use it; \<open>tls\<close> says whether its TLS stream could be made. An \<open>init\<close> that
  throws leaves \<open>Host::start\<close> and is not among them.
\<close>

fun host_effect_on :: "(endpoint \<Rightarrow> bool) \<Rightarrow> bool \<Rightarrow> host_effect \<Rightarrow> asio \<Rightarrow> asio_result" where
  "host_effect_on isIPv6 tls (AsyncAccept n) a = asyncAccept n (newSocket n tls ([], 0) a)"
| "host_effect_on isIPv6 tls (ResolveConnect n ep cb) a = asyncResolveConnect isIPv6 n (newSocket n tls ep a)"
| "host_effect_on isIPv6 tls (SetPeerEndpoint n ep) a =
     cpp_bind (the_socket n a) (\<lambda>s. Inr ([], put_socket n (setNodeIPEndpoint ep s) a))"
| "host_effect_on isIPv6 tls (SetVerifyCallback n) a = setVerifyCallback n a"
| "host_effect_on isIPv6 tls (ServerHandshake n) a = asyncHandshake n True a"
| "host_effect_on isIPv6 tls (ClientHandshake n ep cb) a = asyncHandshake n False a"
| "host_effect_on isIPv6 tls (CloseConn n) a = asio_closeSocket n a"
| "host_effect_on isIPv6 tls AsioStop a = Inr (asio_stop a)"
| "host_effect_on isIPv6 tls (AsioInit listen) a = Inr ([], snd (asio_init (\<lambda>_. True) (\<lambda>_. True) listen a))"
| "host_effect_on isIPv6 tls _ a = Inr ([], a)"

fun host_effects_on :: "(endpoint \<Rightarrow> bool) \<Rightarrow> bool \<Rightarrow> host_effect list \<Rightarrow> asio \<Rightarrow> asio_result" where
  "host_effects_on isIPv6 tls [] a = Inr ([], a)"
| "host_effects_on isIPv6 tls (e # es) a =
     cpp_bind (host_effect_on isIPv6 tls e a) (\<lambda>(calls, a).
       cpp_bind (host_effects_on isIPv6 tls es a) (\<lambda>(more, a). Inr (calls @ more, a)))"

end
