(* ===== verification/Host_Specs.thy ===== *)
theory Host_Specs
  imports Host_Model Service_Specs
begin

text \<open>
  The properties of the host: the identity it takes from a certificate chain, what becomes of a
  handshake, and the list of pending connections.
\<close>

section \<open>Names and identities\<close>

lemma contains_intro: "contains p (s @ p @ t)"
proof (induction s)
  case Nil
  have "take (length p) (p @ t) = p" by simp
  then show ?case by (cases "p @ t") (simp_all del: take_append)
qed auto

lemma common_name_skip:
  "list_all (\<lambda>f. \<not> contains ''CN'' f) fs \<Longrightarrow> common_name_of split subject (fs @ f # gs)
     = common_name_of split subject (f # gs)"
  by (induction fs) (simp_all del: contains.simps)

text \<open>A subject as OpenSSL prints it: \<open>/key=value/key=value\<close>.\<close>

definition subject_text :: "string list \<Rightarrow> string" where
  "subject_text rdns = join_with CHR ''/'' ([] # rdns)"

definition rdn :: "string \<Rightarrow> string \<Rightarrow> string" where
  "rdn key val = key @ ''='' @ val"

lemma rdn_split:
  assumes "split_spec split" and "CHR ''='' \<notin> set key" and "CHR ''='' \<notin> set val"
  shows "split CHR ''='' (rdn key val) = [key, val]"
  using split_specD [OF assms(1), of "CHR ''=''" "[key, val]"] assms(2,3) by (simp add: pieces_ok_def rdn_def)

lemma common_name_found:
  assumes split: "split_spec split" and pieces: "pieces_ok CHR ''/'' ([] # fs @ rdn key val # gs)"
    and skip: "list_all (\<lambda>f. \<not> contains ''CN'' f) fs" and found: "contains ''CN'' (rdn key val)"
    and plain: "CHR ''='' \<notin> set key" "CHR ''='' \<notin> set val"
  shows "obtainCommonNameFromSubject split (subject_text (fs @ rdn key val # gs)) = val"
proof -
  have "\<not> contains ''CN'' []" by simp
  then have "common_name_of split s ([] # fs @ rdn key val # gs) = common_name_of split s (rdn key val # gs)" for s
    using common_name_skip [OF skip] by (simp del: contains.simps)
  then show ?thesis
    using split_specD [OF split pieces] found rdn_split [OF split plain]
    by (simp add: obtainCommonNameFromSubject_def subject_text_def del: contains.simps)
qed

lemma contains_CN: "contains ''CN'' (rdn ''CN'' val)" "contains ''CN'' (rdn ''C'' ''CN'')"
  using contains_intro [of "''CN''" "[]" "''='' @ val"] contains_intro [of "''CN''" "''C=''" "[]"]
  by (simp_all add: rdn_def del: contains.simps)

text \<open>
  The common name of a subject \<open>/key=value/...\<close> is the value of its CN field when no
  earlier field contains the letters CN. But any field that contains them is taken: for a subject
  that starts with the country China, \<open>/C=CN/...\<close>, the result is CN whatever the common name is.
\<close>

theorem common_name_first_match:
  assumes "split_spec split"
  shows "(pieces_ok CHR ''/'' ([] # fs @ rdn ''CN'' val # gs) \<and> CHR ''='' \<notin> set val \<and>
      list_all (\<lambda>f. \<not> contains ''CN'' f) fs \<longrightarrow>
      obtainCommonNameFromSubject split (subject_text (fs @ rdn ''CN'' val # gs)) = val) \<and>
    (pieces_ok CHR ''/'' ([] # rdn ''C'' ''CN'' # hs) \<longrightarrow>
      obtainCommonNameFromSubject split (subject_text (rdn ''C'' ''CN'' # hs)) = ''CN'')"
  using common_name_found [OF assms, of fs "''CN''" val gs] common_name_found [OF assms, of "[]" "''C''" "''CN''" hs]
    contains_CN by (simp del: contains.simps)

theorem common_name_first_match_witness:
  "obtainCommonNameFromSubject split_text (subject_text [''O=fisco'', rdn ''CN'' ''agency'', ''OU=x'']) = ''agency'' \<and>
   obtainCommonNameFromSubject split_text (subject_text [rdn ''C'' ''CN'', ''O=fisco'', ''CN=agency'']) = ''CN''"
  using common_name_first_match [OF split_text_spec, of "[''O=fisco'']" "''agency''" "[''OU=x'']" "[''O=fisco'', ''CN=agency'']"]
  by (simp add: pieces_ok_def rdn_def)

text \<open>What a chain leaves in \<open>nodeIDOut\<close>: the callback is called for the certificates in turn.\<close>

definition chain_identity :: "'c x509lib \<Rightarrow> 'c list \<Rightarrow> string" where
  "chain_identity x chain = fold (\<lambda>c out. snd (verify_callback x True True (Some c) out)) chain []"

lemma chain_identity_leaf:
  assumes "x_pubHex x leaf = Some hex" and "x_ca x leaf = Some False"
  shows "chain_identity x (cas @ [leaf]) = hex @ ''#'' @ x_issuer x leaf @ ''#'' @ x_subject x leaf"
  using assms by (simp add: chain_identity_def verify_callback_def)

lemma node_info_leaf:
  assumes "split_spec (x_split x)" and "pieces_ok CHR ''#'' [hex, x_issuer x leaf, x_subject x leaf]"
  shows "obtainNodeInfo (x_split x) empty_info (hex @ ''#'' @ x_issuer x leaf @ ''#'' @ x_subject x leaf) =
      \<lparr>pi_p2pID = hex, pi_agencyName = obtainCommonNameFromSubject (x_split x) (x_issuer x leaf),
       pi_nodeName = obtainCommonNameFromSubject (x_split x) (x_subject x leaf), pi_endpoint = ([], 0)\<rparr>"
  using split_specD [OF assms] by (simp add: obtainNodeInfo_def empty_info_def)

lemma pending_erase: "set (h_pending (erasePendingConns ep h)) = set (h_pending h) - {ep}"
    "distinct (h_pending h) \<Longrightarrow> distinct (h_pending (erasePendingConns ep h))"
  by (auto simp: erasePendingConns_def os_erase_def)

lemma pending_run [simp]: "h_run (erasePendingConns ep h) = h_run h" "h_run (insertPendingConns ep h) = h_run h"
    "h_handler (erasePendingConns ep h) = h_handler h" "h_handler (insertPendingConns ep h) = h_handler h"
  by (simp_all add: erasePendingConns_def insertPendingConns_def)

text \<open>
  Claim C32: who a peer is. When the callbacks have accepted a chain that ends in the peer's own
  certificate (no CA), a handshake without error on a running host, on either side, hands one
  session to the connection handler, under the hex text of the certificate's public key, with the
  common names of issuer and subject. When the handshake fails the socket is closed and nobody is
  told; in every case the endpoint is no longer pending.
\<close>

theorem handshake_identity:
  assumes "split_spec (x_split x)" and "x_pubHex x leaf = Some hex" and "x_ca x leaf = Some False"
    and "pieces_ok CHR ''#'' [hex, x_issuer x leaf, x_subject x leaf]" and "hex \<noteq> []" and "h_run h"
  shows "let key = chain_identity x (cas @ [leaf]);
        info = \<lparr>pi_p2pID = hex, pi_agencyName = obtainCommonNameFromSubject (x_split x) (x_issuer x leaf),
                pi_nodeName = obtainCommonNameFromSubject (x_split x) (x_subject x leaf), pi_endpoint = ([], 0)\<rparr>;
        (client, h') = handshakeClient x failed still_open key sock ep callback h
    in client = CancelConnectTimer sock # (if failed then (if still_open then [CloseConn sock] else [])
         else [EnqueueConnected (h_handler h) info sock]) \<and>
       handshakeServer x failed key sock h
         = (if failed then [CloseConn sock] else [EnqueueConnected (h_handler h) info sock]) \<and>
       ep \<notin> set (h_pending h')"
  using assms chain_identity_leaf [OF assms(2,3), of cas] node_info_leaf [OF assms(1,4)] pending_erase(1) [of ep h]
  by (simp add: handshakeClient_def handshakeServer_def startPeerSession_def Let_def)

definition example_x509 :: "nat x509lib" where
  "example_x509 = \<lparr>x_pubHex = (\<lambda>c. Some (if c = 0 then ''ca'' else ''ab12'')), x_ca = (\<lambda>c. Some (c = 0)),
     x_subject = (\<lambda>c. ''/O=fisco/CN=node0''), x_issuer = (\<lambda>c. ''/O=fisco/CN=agency''), x_split = split_text,
     x_upper = (\<lambda>s. s)\<rparr>"

theorem handshake_identity_witness:
  "handshakeServer example_x509 False (chain_identity example_x509 ([0] @ [1])) 4 (new_host\<lparr>h_run := True\<rparr>)
     = [EnqueueConnected False \<lparr>pi_p2pID = ''ab12'',
          pi_agencyName = obtainCommonNameFromSubject split_text ''/O=fisco/CN=agency'',
          pi_nodeName = obtainCommonNameFromSubject split_text ''/O=fisco/CN=node0'', pi_endpoint = ([], 0)\<rparr> 4]"
  using handshake_identity [of example_x509 1 "''ab12''" "new_host\<lparr>h_run := True\<rparr>" "[0]" False True 4 example_ep 0]
  by (simp add: example_x509_def split_text_spec pieces_ok_def new_host_def Let_def split: prod.splits)

section \<open>Pending connections\<close>

text \<open>
  The host and what is outstanding at the io service: connects that have not completed and client
  handshakes whose handler has not run. The io service runs each handler once; the connect timer
  of a socket can fire at any time.
\<close>

record host_world =
  hw_host :: host
  hw_connects :: "(nat \<times> endpoint \<times> nat) list"
  hw_handshakes :: "(nat \<times> endpoint) list"

fun issued :: "host_effect list \<Rightarrow> host_world \<Rightarrow> host_world" where
  "issued [] w = w"
| "issued (ResolveConnect s ep cb # es) w = issued es (w\<lparr>hw_connects := (s, ep, cb) # hw_connects w\<rparr>)"
| "issued (ClientHandshake s ep cb # es) w = issued es (w\<lparr>hw_handshakes := (s, ep) # hw_handshakes w\<rparr>)"
| "issued (_ # es) w = issued es w"

definition perform :: "host_result \<Rightarrow> host_world \<Rightarrow> host_world" where
  "perform r w = issued (fst r) (w\<lparr>hw_host := snd r\<rparr>)"

inductive host_step :: "'c x509lib \<Rightarrow> host_world \<Rightarrow> host_world \<Rightarrow> bool" for x where
  step_start: "host_step x w (perform (host_start (hw_host w)) w)"
| step_stop: "host_step x w (perform (host_stop joinable pool (hw_host w)) w)"
| step_round: "host_step x w (perform (host_thread_round acceptor (hw_host w)) w)"
| step_accept: "host_step x w (perform (onAccept s ep ec (hw_host w)) w)"
| step_connect: "host_step x w (perform (asyncConnect ep cb (hw_host w)) w)"
| step_connected: "(s, ep, cb) \<in> set (hw_connects w) \<Longrightarrow>
    host_step x w (perform (onResolveConnect ec s ep cb (hw_host w)) (w\<lparr>hw_connects := remove1 (s, ep, cb) (hw_connects w)\<rparr>))"
| step_timer: "host_step x w (perform (onConnectTimer aborted conn s ep (hw_host w)) w)"
| step_handshake: "(s, ep) \<in> set (hw_handshakes w) \<Longrightarrow>
    host_step x w (perform (handshakeClient x error conn key s ep cb (hw_host w))
      (w\<lparr>hw_handshakes := remove1 (s, ep) (hw_handshakes w)\<rparr>))"

inductive host_reachable :: "'c x509lib \<Rightarrow> host_world \<Rightarrow> bool" for x where
  reach_init: "host_reachable x \<lparr>hw_host = new_host, hw_connects = [], hw_handshakes = []\<rparr>"
| reach_step: "host_reachable x w \<Longrightarrow> host_step x w w' \<Longrightarrow> host_reachable x w'"

inductive_cases host_stepE: "host_step x w w'"

definition pending_inv :: "host_world \<Rightarrow> bool" where
  "pending_inv w \<longleftrightarrow> set (h_pending (hw_host w)) \<subseteq> snd ` set (hw_handshakes w) \<and> distinct (h_pending (hw_host w))"

lemma pending_fields [simp]:
  "h_pending (snd (startAccept h)) = h_pending h" "h_pending (snd (host_start h)) = h_pending h"
  "h_pending (snd (host_stop j p h)) = h_pending h" "h_pending (snd (host_thread_round a h)) = h_pending h"
  "h_pending (snd (onAccept s ep ec h)) = h_pending h" "h_pending (snd (asyncConnect ep cb h)) = h_pending h"
  by (simp_all add: startAccept_def host_start_def host_stop_def host_thread_round_def onAccept_def asyncConnect_def)

lemma issued_grows:
  "hw_host (issued es w) = hw_host w" "set (hw_handshakes w) \<subseteq> set (hw_handshakes (issued es w))"
  by (induction es w rule: issued.induct) auto

lemma pending_same:
  assumes "pending_inv w" and "h_pending (snd r) = h_pending (hw_host w)"
  shows "pending_inv (perform r w)"
proof -
  let ?w = "w\<lparr>hw_host := snd r\<rparr>"
  have "snd ` set (hw_handshakes w) \<subseteq> snd ` set (hw_handshakes (issued (fst r) ?w))"
    using issued_grows(2) [where es = "fst r" and w = ?w] by (simp add: image_mono)
  with assms show ?thesis
    using issued_grows(1) [where es = "fst r" and w = ?w] by (simp add: pending_inv_def perform_def) blast
qed

lemma pending_inv_step:
  assumes "pending_inv w" and "host_step x w w'"
  shows "pending_inv w'"
  using assms(2)
proof cases
  case (step_connected s ep cb ec)
  then show ?thesis
    using assms(1) by (auto simp: pending_inv_def perform_def onResolveConnect_def insertPendingConns_def)
next
  case (step_timer aborted conn s ep)
  then show ?thesis
    using assms(1) pending_erase [where ep = ep and h = "hw_host w"]
    by (auto simp: pending_inv_def perform_def onConnectTimer_def)
next
  case (step_handshake s ep error conn key cb)
  have "snd (handshakeClient x error conn key s ep cb (hw_host w)) = erasePendingConns ep (hw_host w)"
    by (simp add: handshakeClient_def Let_def)
  moreover have "p \<in> snd ` set (remove1 (s, ep) (hw_handshakes w))"
    if "p \<noteq> ep" "p \<in> snd ` set (hw_handshakes w)" for p
  proof -
    obtain q where "(q, p) \<in> set (hw_handshakes w)" using \<open>p \<in> snd ` set (hw_handshakes w)\<close> by force
    with \<open>p \<noteq> ep\<close> have "(q, p) \<in> set (remove1 (s, ep) (hw_handshakes w))" by (simp add: in_set_remove1)
    then show ?thesis by force
  qed
  ultimately show ?thesis
    using assms(1) issued_grows pending_erase [where ep = ep and h = "hw_host w"] step_handshake(1)
    unfolding pending_inv_def perform_def by fastforce
qed (simp_all add: pending_same assms(1))

lemma pending_inv_reachable: "host_reachable x w \<Longrightarrow> pending_inv w"
proof (induction rule: host_reachable.induct)
  case reach_init
  then show ?case by (simp add: pending_inv_def new_host_def)
qed (rule pending_inv_step)



end
