(* ===== verification/Asio_Specs.thy ===== *)
theory Asio_Specs
  imports Asio_Model Host_Specs
begin

text \<open>
  What the wrapper of the io service gives: with the type that the factory sets, nothing leaves
  or enters in clear; and how an attempt to connect ends, over the handlers of the host, the
  resolver, the TCP connect, the TLS handshake and the connect timer, in any order.
\<close>

section \<open>Everything is encrypted\<close>

datatype asio_op =
    ASocket nat bool endpoint
  | AClose nat
  | AEndpoint nat endpoint
  | AInit bool bool endpoint
  | AStop
  | AReset
  | AAccept nat
  | AResolve nat
  | AResolved nat "string list option"
  | AWrite nat bytes
  | AJob nat \<comment> \<open>the io service runs a posted write\<close>
  | ARead nat nat
  | AReadSome nat nat
  | AHandshake nat bool
  | AVerify nat
  | AStrandPost

fun asio_do :: "(endpoint \<Rightarrow> bool) \<Rightarrow> asio_op \<Rightarrow> asio \<Rightarrow> asio_result" where
  "asio_do v6 (ASocket n tls ep) a = Inr ([], newSocket n tls ep a)"
| "asio_do v6 (AClose n) a = asio_closeSocket n a"
| "asio_do v6 (AEndpoint n ep) a = cpp_bind (the_socket n a) (\<lambda>s. Inr ([], put_socket n (setNodeIPEndpoint ep s) a))"
| "asio_do v6 (AInit addr can listen) a = Inr ([], snd (asio_init (\<lambda>_. addr) (\<lambda>_. can) listen a))"
| "asio_do v6 AStop a = Inr (asio_stop a)"
| "asio_do v6 AReset a = Inr ([], asio_reset a)"
| "asio_do v6 (AAccept n) a = asyncAccept n a"
| "asio_do v6 (AResolve n) a = asyncResolveConnect v6 n a"
| "asio_do v6 (AResolved n r) a = onResolved n r a"
| "asio_do v6 (AWrite n b) a = Inr ([], asyncWrite n b a)"
| "asio_do v6 (AJob i) a =
     (if i < length (as_jobs a)
      then let (type, n, b) = as_jobs a ! i
           in write_job type n b (a\<lparr>as_jobs := take i (as_jobs a) @ drop (i + 1) (as_jobs a)\<rparr>)
      else Inr ([], a))"
| "asio_do v6 (ARead n len) a = asyncRead n len a"
| "asio_do v6 (AReadSome n len) a = asyncReadSome n len a"
| "asio_do v6 (AHandshake n server) a = asyncHandshake n server a"
| "asio_do v6 (AVerify n) a = setVerifyCallback n a"
| "asio_do v6 AStrandPost a = strandPost a"

fun asio_run :: "(endpoint \<Rightarrow> bool) \<Rightarrow> asio_op list \<Rightarrow> asio \<Rightarrow> asio_result" where
  "asio_run v6 [] a = Inr ([], a)"
| "asio_run v6 (op # ops) a =
     cpp_bind (asio_do v6 op a) (\<lambda>(calls, a). cpp_bind (asio_run v6 ops a) (\<lambda>(more, a). Inr (calls @ more, a)))"

fun in_clear :: "asio_call \<Rightarrow> bool" where
  "in_clear (TcpWrite n b) = True"
| "in_clear (TcpRead n len) = True"
| "in_clear (TcpReadSome n len) = True"
| "in_clear _ = False"

definition encrypts :: "asio \<Rightarrow> bool" where
  "encrypts a \<longleftrightarrow> as_type a = SSL \<and> list_all (\<lambda>(type, n, b). type = SSL) (as_jobs a)"

definition good_result :: "asio_result \<Rightarrow> bool" where
  "good_result r = (case r of Inl u \<Rightarrow> True | Inr (calls, a) \<Rightarrow> list_all (\<lambda>c. \<not> in_clear c) calls \<and> encrypts a)"

lemma good_result_simps [simp]:
  "good_result (Inl u)" "good_result (Inr (calls, a)) \<longleftrightarrow> list_all (\<lambda>c. \<not> in_clear c) calls \<and> encrypts a"
  by (simp_all add: good_result_def)

lemma good_bind: "(\<And>b. f b = Inl u \<or> good_result (f b)) \<Longrightarrow> good_result (cpp_bind x f)"
  by (cases x) (metis cpp_bind_simps(1) good_result_simps(1), metis cpp_bind_simps(2) good_result_simps(1))

lemma good_on_stream: "encrypts a \<Longrightarrow> list_all (\<lambda>c. \<not> in_clear c) calls \<Longrightarrow> good_result (on_stream n calls a)"
  by (simp add: on_stream_def cpp_bind_def split: sum.splits)

lemma encrypts_put [simp]: "encrypts (put_socket n s a) = encrypts a"
  by (simp add: encrypts_def put_socket_def)

lemma SSL_not_TCP [simp]: "SSL \<noteq> TCP_ONLY" by (simp add: SSL_def TCP_ONLY_def)

lemma good_write_job: "encrypts a \<Longrightarrow> type = SSL \<Longrightarrow> good_result (write_job type n b a)"
  by (auto simp: write_job_def cpp_bind_def good_on_stream split: sum.splits)

lemma list_all_nth_drop:
  "list_all P xs \<Longrightarrow> i < length xs \<Longrightarrow> P (xs ! i) \<and> list_all P (take i xs @ drop (i + 1) xs)"
  by (auto simp: list_all_iff dest: in_set_takeD in_set_dropD)

lemma encrypts_fields:
  "encrypts (a\<lparr>as_strand := b\<rparr>) = encrypts a" "encrypts (a\<lparr>as_resolver := b\<rparr>) = encrypts a"
  "encrypts (a\<lparr>as_acceptor := c\<rparr>) = encrypts a" "encrypts (a\<lparr>as_stopped := b\<rparr>) = encrypts a"
  "encrypts (a\<lparr>as_jobs := as_jobs a @ [(SSL, n, d)]\<rparr>) = encrypts a"
  by (auto simp: encrypts_def)

lemmas asio_do_defs = newSocket_def asio_closeSocket_def asio_init_def asio_stop_def asio_reset_def asyncAccept_def
  asyncResolveConnect_def onResolved_def asyncWrite_def asyncRead_def asyncReadSome_def asyncHandshake_def
  setVerifyCallback_def strandPost_def

lemma encrypts_type: "encrypts a \<Longrightarrow> as_type a = SSL"
  by (simp add: encrypts_def)

lemma asio_do_encrypts:
  assumes "encrypts a"
  shows "good_result (asio_do v6 op a)"
proof (cases op)
  case (AJob i)
  obtain type n b where job: "as_jobs a ! i = (type, n, b)" by (cases "as_jobs a ! i") auto
  show ?thesis
  proof (cases "i < length (as_jobs a)")
    case True
    note parts = list_all_nth_drop [OF assms [unfolded encrypts_def, THEN conjunct2] True]
    with assms have "encrypts (a\<lparr>as_jobs := take i (as_jobs a) @ drop (i + 1) (as_jobs a)\<rparr>)"
      by (simp add: encrypts_def)
    with parts show ?thesis by (simp add: AJob job True good_write_job)
  qed (simp add: AJob assms)
qed (use assms in \<open>auto simp: asio_do_defs good_on_stream Let_def cpp_bind_def encrypts_fields encrypts_type
    split: sum.splits option.splits list.splits\<close>)

lemma asio_run_encrypts: "encrypts a \<Longrightarrow> good_result (asio_run v6 ops a)"
proof (induction ops arbitrary: a)
  case (Cons op ops)
  show ?case
  proof (cases "asio_do v6 op a")
    case (Inr r)
    obtain calls a' where r: "r = (calls, a')" by (cases r)
    have "list_all (\<lambda>c. \<not> in_clear c) calls" "encrypts a'"
      using asio_do_encrypts [OF Cons.prems, of v6 op] Inr r by simp_all
    then show ?thesis
      using Cons.IH [of a'] Inr r by (cases "asio_run v6 ops a'") auto
  qed simp
qed simp

text \<open>
  Claim C28: nothing is sent or read in clear. Whatever sequence of operations is run on an
  interface of the type the factory sets, every write and read that reaches the network is one of
  the TLS stream. A buffer given to \<open>asyncWrite\<close> is written there when its job runs and the socket
  is open; when the socket has been closed meanwhile it is lost, and its handler is never called.
\<close>

theorem nothing_in_clear:
  "case asio_run v6 ops gateway_asio of Inl u \<Rightarrow> True
   | Inr (calls, a) \<Rightarrow> list_all (\<lambda>c. \<not> in_clear c) calls \<and>
      (case map_of (as_sockets a) n of None \<Rightarrow> True
       | Some s \<Rightarrow> asio_do v6 (AJob (length (as_jobs a))) (asyncWrite n b a)
           = (case so_stream s of None \<Rightarrow> Inl NullPointer
              | Some opened \<Rightarrow> Inr (if opened then [TlsWrite n b] else [], a)))"
proof -
  have "encrypts gateway_asio" by (simp add: encrypts_def gateway_asio_def asio_setType_def new_asio_def)
  from asio_run_encrypts [OF this, of v6 ops] show ?thesis
    by (auto simp: asyncWrite_def write_job_def the_socket_def on_stream_def socket_ref_def socket_isConnected_def
        encrypts_type split: sum.splits option.splits)
qed

section \<open>How an attempt to connect ends\<close>

text \<open>
  An attempt to connect to \<open>ep\<close> for the caller's \<open>cb\<close> on the socket \<open>n\<close>. The timer of an attempt
  expires at some moment; its handler runs later, and cancelling it after it expired has no
  effect. An operation on a socket that has been closed completes with an error.
\<close>

datatype connect_phase = Resolving | Connecting | Handshaking | Over

datatype timer_phase = TimerArmed | TimerExpired | TimerCancelled | TimerFired

record attempt =
  at_host :: host
  at_asio :: asio
  at_phase :: connect_phase
  at_timer :: timer_phase
  at_effects :: "host_effect list"

datatype attempt_event =
    Resolved "string list option"
  | TcpConnected bool
  | Handshaken bool string
  | TimerExpires
  | TimerHandler
  | HostBecomes host \<comment> \<open>other operations of the host\<close>

definition is_open :: "nat \<Rightarrow> asio \<Rightarrow> bool" where
  "is_open n a = (case the_socket n a of Inl u \<Rightarrow> False | Inr s \<Rightarrow> so_stream s = Some True)"

definition attempt_do :: "(endpoint \<Rightarrow> bool) \<Rightarrow> bool \<Rightarrow> host_result \<Rightarrow> attempt \<Rightarrow> attempt cpp" where
  "attempt_do v6 tls r t =
     cpp_bind (host_effects_on v6 tls (fst r) (at_asio t)) (\<lambda>(calls, a).
       Inr (t\<lparr>at_host := snd r, at_asio := a, at_effects := at_effects t @ fst r\<rparr>))"

definition attempt_start :: "(endpoint \<Rightarrow> bool) \<Rightarrow> bool \<Rightarrow> endpoint \<Rightarrow> nat \<Rightarrow> host \<Rightarrow> asio \<Rightarrow> attempt cpp" where
  "attempt_start v6 tls ep cb h a =
     attempt_do v6 tls (asyncConnect ep cb h)
       \<lparr>at_host = h, at_asio = a, at_phase = Resolving, at_timer = TimerArmed, at_effects = []\<rparr>"

fun attempt_event_on :: "'c x509lib \<Rightarrow> (endpoint \<Rightarrow> bool) \<Rightarrow> nat \<Rightarrow> endpoint \<Rightarrow> nat \<Rightarrow> attempt_event \<Rightarrow> attempt \<Rightarrow> attempt cpp" where
  "attempt_event_on x v6 n ep cb (Resolved results) t =
     (if at_phase t = Resolving
      then cpp_bind (onResolved n results (at_asio t)) (\<lambda>(calls, a).
        Inr (t\<lparr>at_asio := a, at_phase := if results = None then Over else Connecting\<rparr>))
      else Inr t)"
| "attempt_event_on x v6 n ep cb (TcpConnected error) t =
     (if at_phase t = Connecting
      then let ec = error \<or> \<not> is_open n (at_asio t)
           in attempt_do v6 True (onResolveConnect ec n ep cb (at_host t)) (t\<lparr>at_phase := if ec then Over else Handshaking\<rparr>)
      else Inr t)"
| "attempt_event_on x v6 n ep cb (Handshaken error key) t =
     (if at_phase t = Handshaking
      then let opened = is_open n (at_asio t)
           in attempt_do v6 True (handshakeClient x (error \<or> \<not> opened) opened key n ep cb (at_host t))
                (t\<lparr>at_phase := Over, at_timer := if at_timer t = TimerArmed then TimerCancelled else at_timer t\<rparr>)
      else Inr t)"
| "attempt_event_on x v6 n ep cb TimerExpires t =
     Inr (if at_timer t = TimerArmed then t\<lparr>at_timer := TimerExpired\<rparr> else t)"
| "attempt_event_on x v6 n ep cb TimerHandler t =
     (if at_timer t = TimerExpired
      then cpp_bind (the_socket n (at_asio t)) (\<lambda>s. cpp_bind (socket_isConnected s) (\<lambda>opened.
        attempt_do v6 True (onConnectTimer False opened n ep (at_host t)) (t\<lparr>at_timer := TimerFired\<rparr>)))
      else Inr t)"
| "attempt_event_on x v6 n ep cb (HostBecomes h) t = Inr (t\<lparr>at_host := h\<rparr>)"

fun attempt_run :: "'c x509lib \<Rightarrow> (endpoint \<Rightarrow> bool) \<Rightarrow> nat \<Rightarrow> endpoint \<Rightarrow> nat \<Rightarrow> attempt_event list \<Rightarrow> attempt \<Rightarrow> attempt cpp" where
  "attempt_run x v6 n ep cb [] t = Inr t"
| "attempt_run x v6 n ep cb (e # evs) t = cpp_bind (attempt_event_on x v6 n ep cb e t) (attempt_run x v6 n ep cb evs)"

fun tells :: "host_effect \<Rightarrow> bool" where
  "tells (EnqueueConnected b info n) = True"
| "tells (EnqueueConnectFailed cb) = True"
| "tells _ = False"

definition told :: "attempt \<Rightarrow> host_effect list" where
  "told t = filter tells (at_effects t)"

definition stream_is :: "nat \<Rightarrow> asio \<Rightarrow> bool \<Rightarrow> bool" where
  "stream_is n a opened \<longleftrightarrow> (\<exists>s. the_socket n a = Inr s \<and> so_stream s = Some opened)"

lemma stream_is_open: "stream_is n a opened \<Longrightarrow> is_open n a = opened"
  by (auto simp: stream_is_def is_open_def)

lemma the_socket_put [simp]: "the_socket n (put_socket n s a) = Inr s"
  by (simp add: the_socket_def put_socket_def um_simps)

lemma stream_put [simp]: "stream_is n (put_socket n s a) opened \<longleftrightarrow> so_stream s = Some opened"
  by (simp add: stream_is_def)

lemma stream_close:
  assumes "stream_is n a opened"
  obtains a' where "asio_closeSocket n a = Inr ([], a')" "stream_is n a' False"
  using assms that by (auto simp: stream_is_def asio_closeSocket_def socket_close_def socket_isConnected_def)

lemma stream_calls: "stream_is n a opened \<Longrightarrow> on_stream n calls a = Inr (calls, a)"
  by (auto simp: stream_is_def on_stream_def socket_ref_def socket_isConnected_def)

text \<open>What holds of an attempt at every moment; \<open>up\<close> says that the host has been running throughout.\<close>

definition phase_ok :: "nat \<Rightarrow> nat \<Rightarrow> bool \<Rightarrow> connect_phase \<Rightarrow> timer_phase \<Rightarrow> host_effect list \<Rightarrow> bool \<Rightarrow> bool" where
  "phase_ok n cb up phase timer calls opened =
     (case phase of
        Resolving \<Rightarrow> calls = [] \<and> \<not> opened
      | Over \<Rightarrow> calls = [] \<and> (up \<longrightarrow> \<not> opened) \<or> calls = [EnqueueConnectFailed cb] \<and> \<not> opened \<or>
          (\<exists>b info. calls = [EnqueueConnected b info n]) \<and> timer \<noteq> TimerArmed \<and> (opened \<or> timer = TimerFired)
      | _ \<Rightarrow> calls = [])"

definition attempt_ok :: "nat \<Rightarrow> nat \<Rightarrow> bool \<Rightarrow> attempt \<Rightarrow> bool" where
  "attempt_ok n cb up t \<longleftrightarrow> (\<exists>opened. stream_is n (at_asio t) opened \<and> (up \<longrightarrow> h_run (at_host t)) \<and>
     phase_ok n cb up (at_phase t) (at_timer t) (told t) opened)"

lemma phase_ok_expires: "phase_ok n cb up phase TimerArmed calls opened \<Longrightarrow> phase_ok n cb up phase TimerExpired calls opened"
  by (auto simp: phase_ok_def split: connect_phase.splits)

lemma phase_ok_fires:
  "phase_ok n cb up phase TimerExpired calls opened \<Longrightarrow> phase_ok n cb up phase TimerFired calls (opened \<and> c)"
  by (auto simp: phase_ok_def split: connect_phase.splits)

lemma told_update [simp]:
  "told (t\<lparr>at_host := h\<rparr>) = told t" "told (t\<lparr>at_asio := a\<rparr>) = told t" "told (t\<lparr>at_phase := p\<rparr>) = told t"
  "told (t\<lparr>at_timer := m\<rparr>) = told t" "told (t\<lparr>at_effects := at_effects t @ es\<rparr>) = told t @ filter tells es"
  by (simp_all add: told_def)

fun keeps_up :: "bool \<Rightarrow> attempt_event \<Rightarrow> bool" where
  "keeps_up up (HostBecomes h) = (up \<longrightarrow> h_run h)"
| "keeps_up up _ = True"

definition own_effect :: "nat \<Rightarrow> host_effect \<Rightarrow> bool" where
  "own_effect n e \<longleftrightarrow> e \<in> {CloseConn n, CancelConnectTimer n, SetVerifyCallback n} \<or> tells e \<or> (\<exists>ep cb. e = ClientHandshake n ep cb)"

lemma own_effect_on:
  assumes "own_effect n e" and "stream_is n a opened"
  shows "\<exists>calls a'. host_effect_on v6 tls e a = Inr (calls, a') \<and> stream_is n a' (opened \<and> e \<noteq> CloseConn n)"
proof (cases "e = CloseConn n")
  case True
  obtain a' where "asio_closeSocket n a = Inr ([], a')" "stream_is n a' False" by (rule stream_close [OF assms(2)])
  with True show ?thesis by simp
next
  case False
  then consider "tells e \<or> e = CancelConnectTimer n" | "e = SetVerifyCallback n" | ep cb where "e = ClientHandshake n ep cb"
    using assms(1) by (auto simp: own_effect_def)
  then show ?thesis
  proof cases
    case 1
    with assms(2) show ?thesis by (cases e) simp_all
  qed (simp_all add: setVerifyCallback_def asyncHandshake_def stream_calls [OF assms(2)] assms(2))
qed

lemma own_effects_on:
  "list_all (own_effect n) es \<Longrightarrow> stream_is n a opened \<Longrightarrow>
     \<exists>calls a'. host_effects_on v6 tls es a = Inr (calls, a') \<and> stream_is n a' (opened \<and> CloseConn n \<notin> set es)"
proof (induction es arbitrary: a opened)
  case (Cons e es)
  have "own_effect n e" "list_all (own_effect n) es" using Cons.prems(1) by simp_all
  obtain calls a' where step: "host_effect_on v6 tls e a = Inr (calls, a')" "stream_is n a' (opened \<and> e \<noteq> CloseConn n)"
    using own_effect_on [OF \<open>own_effect n e\<close> Cons.prems(2)] by blast
  obtain more a'' where "host_effects_on v6 tls es a' = Inr (more, a'')"
      "stream_is n a'' ((opened \<and> e \<noteq> CloseConn n) \<and> CloseConn n \<notin> set es)"
    using Cons.IH [OF \<open>list_all (own_effect n) es\<close> step(2)] by blast
  moreover have "((opened \<and> e \<noteq> CloseConn n) \<and> CloseConn n \<notin> set es) = (opened \<and> CloseConn n \<notin> set (e # es))" by auto
  ultimately show ?case using step(1) by simp
qed simp

lemma attempt_do_own:
  assumes "list_all (own_effect n) (fst r)" and "stream_is n (at_asio t) opened"
  shows "\<exists>a'. attempt_do v6 tls r t = Inr (t\<lparr>at_host := snd r, at_asio := a', at_effects := at_effects t @ fst r\<rparr>) \<and>
    stream_is n a' (opened \<and> CloseConn n \<notin> set (fst r))"
  using own_effects_on [OF assms, of v6 tls] by (auto simp: attempt_do_def)

lemma own_intro [simp]:
  "own_effect n (CloseConn n)" "own_effect n (CancelConnectTimer n)" "own_effect n (SetVerifyCallback n)"
  "own_effect n (ClientHandshake n ep cb)" "own_effect n (EnqueueConnected b info m)" "own_effect n (EnqueueConnectFailed cb)"
  by (simp_all add: own_effect_def)

lemma attempt_own_handlers:
  "list_all (own_effect n) (fst (onResolveConnect ec n ep cb h))"
  "list_all (own_effect n) (fst (handshakeClient x error opened key n ep cb h))"
  "list_all (own_effect n) (fst (onConnectTimer aborted opened n ep h))"
  "h_run (snd (onResolveConnect ec n ep cb h)) = h_run h" "h_run (snd (handshakeClient x error opened key n ep cb h)) = h_run h"
  "h_run (snd (onConnectTimer aborted opened n ep h)) = h_run h"
  by (simp_all add: onResolveConnect_def handshakeClient_def onConnectTimer_def startPeerSession_def Let_def)

lemma attempt_okI:
  assumes "stream_is n (at_asio t) opened" and "up \<longrightarrow> h_run (at_host t)"
    and "phase_ok n cb up (at_phase t) (at_timer t) (told t) opened"
  shows "attempt_ok n cb up t"
  using assms by (auto simp: attempt_ok_def)

lemma attempt_okE:
  assumes "attempt_ok n cb up t"
  obtains opened where "stream_is n (at_asio t) opened" "up \<longrightarrow> h_run (at_host t)"
    "phase_ok n cb up (at_phase t) (at_timer t) (told t) opened"
  using assms by (auto simp: attempt_ok_def)

lemma attempt_ok_do:
  assumes "stream_is n (at_asio t) opened" and "list_all (own_effect n) (fst r)" and "up \<longrightarrow> h_run (snd r)"
    and "phase_ok n cb up (at_phase t) (at_timer t) (told t @ filter tells (fst r)) (opened \<and> CloseConn n \<notin> set (fst r))"
  shows "\<exists>t'. attempt_do v6 True r t = Inr t' \<and> attempt_ok n cb up t'"
proof -
  obtain a' where did: "attempt_do v6 True r t = Inr (t\<lparr>at_host := snd r, at_asio := a', at_effects := at_effects t @ fst r\<rparr>)"
      "stream_is n a' (opened \<and> CloseConn n \<notin> set (fst r))"
    using attempt_do_own [OF assms(2,1)] by blast
  have "attempt_ok n cb up (t\<lparr>at_host := snd r, at_asio := a', at_effects := at_effects t @ fst r\<rparr>)"
    by (rule attempt_okI [where opened = "opened \<and> CloseConn n \<notin> set (fst r)"]) (use did assms in \<open>simp_all add: told_def\<close>)
  with did(1) show ?thesis by blast
qed

lemma attempt_ok_resolved:
  assumes ok: "attempt_ok n cb up t" and results: "results \<noteq> Some []"
  shows "\<exists>t'. attempt_event_on x v6 n ep cb (Resolved results) t = Inr t' \<and> attempt_ok n cb up t'"
proof (cases "at_phase t = Resolving")
  case True
  obtain s where s: "the_socket n (at_asio t) = Inr s" "so_stream s = Some False" and rest: "up \<longrightarrow> h_run (at_host t)" "told t = []"
    using ok True by (auto simp: attempt_ok_def phase_ok_def stream_is_def)
  show ?thesis
  proof (cases results)
    case None
    then show ?thesis using True s rest by (auto simp: onResolved_def attempt_ok_def phase_ok_def stream_is_def)
  next
    case (Some ts)
    with results obtain target more where "ts = target # more" by (cases ts) auto
    then show ?thesis
      using Some True s rest
      by (auto simp: onResolved_def attempt_ok_def phase_ok_def socket_ref_def socket_isConnected_def)
  qed
qed (use ok in simp)

lemma attempt_ok_connected:
  assumes ok: "attempt_ok n cb up t"
  shows "\<exists>t'. attempt_event_on x v6 n ep cb (TcpConnected error) t = Inr t' \<and> attempt_ok n cb up t'"
proof (cases "at_phase t = Connecting")
  case True
  obtain opened where s: "stream_is n (at_asio t) opened" and up: "up \<longrightarrow> h_run (at_host t)" and quiet: "told t = []"
    using ok True by (auto simp: attempt_ok_def phase_ok_def)
  let ?ec = "error \<or> \<not> opened"
  have "\<exists>t'. attempt_do v6 True (onResolveConnect ?ec n ep cb (at_host t)) (t\<lparr>at_phase := if ?ec then Over else Handshaking\<rparr>)
      = Inr t' \<and> attempt_ok n cb up t'"
    by (rule attempt_ok_do [where opened = opened], use s up quiet in \<open>simp_all add: attempt_own_handlers\<close>)
      (simp add: phase_ok_def onResolveConnect_def)
  then show ?thesis using True stream_is_open [OF s] by (simp add: Let_def)
qed (use ok in simp)

lemma attempt_ok_handshaken:
  assumes ok: "attempt_ok n cb up t"
  shows "\<exists>t'. attempt_event_on x v6 n ep cb (Handshaken error key) t = Inr t' \<and> attempt_ok n cb up t'"
proof (cases "at_phase t = Handshaking")
  case True
  obtain opened where s: "stream_is n (at_asio t) opened" and up: "up \<longrightarrow> h_run (at_host t)" and quiet: "told t = []"
    using ok True by (auto simp: attempt_ok_def phase_ok_def)
  let ?r = "handshakeClient x (error \<or> \<not> opened) opened key n ep cb (at_host t)"
  let ?m = "if at_timer t = TimerArmed then TimerCancelled else at_timer t"
  have "phase_ok n cb up Over ?m (filter tells (fst ?r)) (opened \<and> CloseConn n \<notin> set (fst ?r))"
    using up by (auto simp: phase_ok_def handshakeClient_def startPeerSession_def Let_def)
  then have "\<exists>t'. attempt_do v6 True ?r (t\<lparr>at_phase := Over, at_timer := ?m\<rparr>) = Inr t' \<and> attempt_ok n cb up t'"
    using s up quiet by (intro attempt_ok_do [where opened = opened]) (simp_all add: attempt_own_handlers)
  then show ?thesis using True stream_is_open [OF s] by (simp add: Let_def)
qed (use ok in simp)

lemma attempt_ok_timer:
  assumes ok: "attempt_ok n cb up t"
  shows "\<exists>t'. attempt_event_on x v6 n ep cb TimerHandler t = Inr t' \<and> attempt_ok n cb up t'"
proof (cases "at_timer t = TimerExpired")
  case True
  obtain opened where s: "stream_is n (at_asio t) opened" and up: "up \<longrightarrow> h_run (at_host t)"
      and phase: "phase_ok n cb up (at_phase t) TimerExpired (told t) opened"
    using ok True by (metis attempt_okE)
  let ?r = "onConnectTimer False opened n ep (at_host t)"
  have "filter tells (fst ?r) = []" by (simp add: onConnectTimer_def)
  then have "\<exists>t'. attempt_do v6 True ?r (t\<lparr>at_timer := TimerFired\<rparr>) = Inr t' \<and> attempt_ok n cb up t'"
    using s up phase_ok_fires [OF phase]
    by (intro attempt_ok_do [where opened = opened]) (simp_all add: attempt_own_handlers)
  then show ?thesis using True s by (auto simp: stream_is_def socket_isConnected_def)
qed (use ok in simp)

lemma keeps_up_iff: "keeps_up up e \<longleftrightarrow> (\<forall>h. e = HostBecomes h \<and> up \<longrightarrow> h_run h)"
  by (cases e) auto

lemma attempt_ok_step:
  assumes ok: "attempt_ok n cb up t" and up: "keeps_up up e" and answer: "e \<noteq> Resolved (Some [])"
  shows "\<exists>t'. attempt_event_on x v6 n ep cb e t = Inr t' \<and> attempt_ok n cb up t'"
proof (cases e)
  case (Resolved results)
  then show ?thesis using attempt_ok_resolved [OF ok] answer by blast
next
  case (TcpConnected error)
  then show ?thesis using attempt_ok_connected [OF ok] by blast
next
  case (Handshaken error key)
  then show ?thesis using attempt_ok_handshaken [OF ok] by blast
next
  case TimerExpires
  then show ?thesis using ok phase_ok_expires by (auto simp: attempt_ok_def)
next
  case TimerHandler
  then show ?thesis using attempt_ok_timer [OF ok] by blast
next
  case (HostBecomes h)
  then show ?thesis using ok up by (auto simp: attempt_ok_def)
qed

lemma attempt_run_ok:
  "attempt_ok n cb up t \<Longrightarrow> list_all (keeps_up up) evs \<Longrightarrow> Resolved (Some []) \<notin> set evs \<Longrightarrow>
     \<exists>t'. attempt_run x v6 n ep cb evs t = Inr t' \<and> attempt_ok n cb up t'"
proof (induction evs arbitrary: t)
  case (Cons e evs)
  then obtain t' where "attempt_event_on x v6 n ep cb e t = Inr t'" "attempt_ok n cb up t'"
    using attempt_ok_step [of n cb up t e x v6 ep] by auto
  with Cons show ?case by simp
qed simp

definition attempt_of :: "'c x509lib \<Rightarrow> (endpoint \<Rightarrow> bool) \<Rightarrow> endpoint \<Rightarrow> nat \<Rightarrow> attempt_event list \<Rightarrow> host \<Rightarrow> asio \<Rightarrow> attempt cpp" where
  "attempt_of x v6 ep cb evs h a = cpp_bind (attempt_start v6 True ep cb h a) (attempt_run x v6 (h_next h) ep cb evs)"

lemma attempt_start_ok:
  assumes "h_run h" and "ep \<notin> set (h_pending h)" and "as_resolver a"
  shows "\<exists>t. attempt_start v6 True ep cb h a = Inr t \<and> attempt_ok (h_next h) cb up t \<and> at_phase t = Resolving"
  using assms
  by (auto simp: attempt_start_def attempt_do_def asyncConnect_def asyncResolveConnect_def newSocket_def make_socket_def
      attempt_ok_def phase_ok_def told_def put_socket_def the_socket_def um_simps stream_is_def)

text \<open>An attempt whose socket was never opened, or was closed, and that is over says nothing any more.\<close>

lemma silent_step:
  assumes "at_phase t = Over" and "stream_is n (at_asio t) False"
  shows "\<exists>t'. attempt_event_on x v6 n ep cb e t = Inr t' \<and> at_phase t' = Over \<and> stream_is n (at_asio t') False \<and> told t' = told t"
  using assms
  by (cases e) (auto simp: stream_is_def socket_isConnected_def onConnectTimer_def attempt_do_def told_def)

lemma silent_run:
  "at_phase t = Over \<Longrightarrow> stream_is n (at_asio t) False \<Longrightarrow>
     \<exists>t'. attempt_run x v6 n ep cb evs t = Inr t' \<and> stream_is n (at_asio t') False \<and> told t' = told t"
proof (induction evs arbitrary: t)
  case (Cons e evs)
  from silent_step [OF Cons.prems, of x v6 ep cb e]
  obtain t' where t': "attempt_event_on x v6 n ep cb e t = Inr t'" "at_phase t' = Over" "stream_is n (at_asio t') False" "told t' = told t"
    by blast
  from Cons.IH [OF t'(2,3)] show ?case using t'(1,4) by auto
qed simp

lemma resolve_failure_silent:
  assumes "h_run h" and "ep \<notin> set (h_pending h)" and "as_resolver a"
  shows "\<exists>t. attempt_of x v6 ep cb (Resolved None # evs) h a = Inr t \<and> told t = [] \<and> \<not> is_open (h_next h) (at_asio t)"
proof -
  let ?n = "h_next h"
  obtain t where t: "attempt_start v6 True ep cb h a = Inr t" "attempt_ok ?n cb False t" "at_phase t = Resolving"
    using attempt_start_ok [OF assms] by blast
  then have closed: "stream_is ?n (at_asio t) False" "told t = []" by (auto simp: attempt_ok_def phase_ok_def)
  obtain t' where "attempt_run x v6 ?n ep cb evs (t\<lparr>at_asio := at_asio t, at_phase := Over\<rparr>) = Inr t'"
      "stream_is ?n (at_asio t') False" "told t' = []"
    using silent_run [of "t\<lparr>at_asio := at_asio t, at_phase := Over\<rparr>" ?n x v6 ep cb evs] closed by auto
  then show ?thesis using t stream_is_open by (auto simp: attempt_of_def onResolved_def)
qed


definition example_attempt :: "attempt_event list" where
  "example_attempt = [Resolved (Some [''10.0.0.1'']), TcpConnected False, TimerExpires, Handshaken False ''ab12'', TimerHandler]"

text \<open>A timer that expires just before the handshake completes closes the socket of the new session.\<close>

lemma late_timer_closes:
  "case attempt_of example_x509 (\<lambda>_. False) example_ep 3 example_attempt (new_host\<lparr>h_run := True\<rparr>) (new_asio\<lparr>as_resolver := True\<rparr>) of
     Inl u \<Rightarrow> False
   | Inr t \<Rightarrow> told t = [EnqueueConnected False \<lparr>pi_p2pID = ''ab12'', pi_agencyName = [], pi_nodeName = [], pi_endpoint = ([], 0)\<rparr> 0] \<and>
       \<not> is_open 0 (at_asio t)"
  by code_simp

text \<open>
  The timer runs from the start of the resolver. When it fires before the address is resolved it
  finds the socket closed and does nothing: the connection that is made then has no timer, and a
  handshake that the peer never completes keeps the endpoint pending.
\<close>

lemma slow_resolver_unguarded:
  "case attempt_of example_x509 (\<lambda>_. False) example_ep 3 [TimerExpires, TimerHandler, Resolved (Some [''10.0.0.1'']), TcpConnected False]
     (new_host\<lparr>h_run := True\<rparr>) (new_asio\<lparr>as_resolver := True\<rparr>) of
     Inl u \<Rightarrow> False
   | Inr t \<Rightarrow> at_phase t = Handshaking \<and> at_timer t = TimerFired \<and> is_open 0 (at_asio t) \<and> h_pending (at_host t) = [example_ep]"
  by code_simp


end
