(* ===== verification/Reconnect.thy ===== *)
theory Reconnect
  imports Asio_Specs
begin

text \<open>
  The way back to a peer, over four components: the timer of the service asks the host for a
  connection to each static node that is not connected, the host goes through resolver, TCP
  connect and handshake, and hands the session to the service, which adopts it.
\<close>

lemma p2p_start_static:
  assumes "p2p_start fw wq k a sv = Inr (es, sv')"
  shows "sv_staticNodes sv' = sv_staticNodes sv"
  using assms
  by (auto simp: p2p_start_def p2p_heartBeat_def on_session_def set_ps_run_def sv_bind_Inr cpp_bind_eq_Inr
      split: if_splits option.splits prod.splits)

lemma onConnect_static:
  assumes new: "\<not> isConnected (pi_p2pID info) sv" "pi_p2pID info \<noteq> sv_nodeID sv" and ok: "ne_code e = 0"
    and run: "onConnect fw wq k e info (Some (s, ep)) sv = Inr (es, sv')"
  shows "sv_staticNodes sv' = (if um_has ep (sv_staticNodes sv) then um_put ep (pi_p2pID info) (sv_staticNodes sv)
    else sv_staticNodes sv)"
proof -
  let ?sv1 = "sv\<lparr>sv_store := um_put (sv_next sv) (new_p2p_session s ep info) (sv_store sv), sv_next := sv_next sv + 1\<rparr>"
  obtain sv2 es2 where sv2: "p2p_start fw wq k (sv_next sv) ?sv1 = Inr (es2, sv2)"
      "sv' = (updateStaticNodes ep (pi_p2pID info) sv2)\<lparr>sv_sessions := um_put (pi_p2pID info) (sv_next sv) (sv_sessions sv2)\<rparr>"
    using assms by (auto simp: onConnect_def sv_bind_Inr Let_def)
  then show ?thesis using p2p_start_static [OF sv2(1)] by (simp add: updateStaticNodes_def)
qed

lemma heartBeat_connects:
  "HostConnect ep \<in> set (fst (service_heartBeat sv)) \<longleftrightarrow>
     sv_run sv \<and> (\<exists>nodeID. (ep, nodeID) \<in> set (sv_staticNodes sv) \<and> nodeID \<noteq> sv_nodeID sv \<and>
       \<not> (nodeID \<noteq> [] \<and> isConnected nodeID sv))"
  by (force simp: service_heartBeat_def)

lemma heartBeat_same:
  "sv_staticNodes (snd (service_heartBeat sv)) = sv_staticNodes sv" "isConnected p (snd (service_heartBeat sv)) = isConnected p sv"
  "sv_nodeID (snd (service_heartBeat sv)) = sv_nodeID sv" "sv_run (snd (service_heartBeat sv)) = sv_run sv"
  "sv_next (snd (service_heartBeat sv)) = sv_next sv"
  by (simp_all add: service_heartBeat_def isConnected_def ps_actived_def cong: option.case_cong)

text \<open>An attempt in which nothing goes wrong: the session is handed over on an open socket.\<close>

lemma attempt_succeeds:
  assumes host: "h_run h" "ep \<notin> set (h_pending h)" "as_resolver a" and key: "key \<noteq> []"
  shows "\<exists>t. attempt_of x v6 ep cb [Resolved (Some (addr # addrs)), TcpConnected False, Handshaken False key] h a = Inr t \<and>
    told t = [EnqueueConnected (h_handler h) (obtainNodeInfo (x_split x) empty_info key) (h_next h)] \<and>
    is_open (h_next h) (at_asio t)"
  using assms
  by (simp add: attempt_of_def attempt_start_def attempt_do_def asyncConnect_def asyncResolveConnect_def newSocket_def make_socket_def
      onResolved_def socket_ref_def socket_isConnected_def is_open_def onResolveConnect_def setVerifyCallback_def asyncHandshake_def
      on_stream_def handshakeClient_def startPeerSession_def told_def Let_def put_socket_def the_socket_def um_simps)

text \<open>
  Claim C16: a gateway reconnects. When the timer of its service fires, a running service asks for
  a connection to each static node that is not connected; when the address resolves, the peer
  accepts and its certificate is good, a session for it is handed over on an open socket and
  adopted: it is registered under the identity of the certificate, which is remembered for the
  endpoint, its first packet is a heartbeat with the status sequence, and the next round of the
  timer leaves the endpoint alone.
\<close>

theorem gateway_reconnects:
  fixes sv :: "('q, 'c) service"
  assumes service: "sv_run sv" "um_ok (sv_staticNodes sv)" "(ep, nodeID) \<in> set (sv_staticNodes sv)"
      "nodeID \<noteq> sv_nodeID sv" "nodeID = [] \<or> \<not> isConnected nodeID sv"
    and host: "h_run h" "h_handler h" "ep \<notin> set (h_pending h)" "as_resolver a"
    and cert: "split_spec (x_split x)" "x_pubHex x leaf = Some hex" "x_ca x leaf = Some False"
      "pieces_ok CHR ''#'' [hex, x_issuer x leaf, x_subject x leaf]"
    and peer: "hex \<noteq> []" "hex \<noteq> sv_nodeID sv" "\<not> isConnected hex sv"
    and queue: "fifo_spec wq view" "view q = []"
  shows "HostConnect ep \<in> set (fst (service_heartBeat sv)) \<and>
    (\<exists>t info. attempt_of x v6 ep cb [Resolved (Some (addr # addrs)), TcpConnected False,
         Handshaken False (chain_identity x (cas @ [leaf]))] h a = Inr t \<and>
       told t = [EnqueueConnected True info (h_next h)] \<and> is_open (h_next h) (at_asio t) \<and> pi_p2pID info = hex \<and>
       (\<exists>es sv'. onConnect fw wq k success info (Some (create_session (Some True) True q, ep)) (snd (service_heartBeat sv))
            = Inr (es, sv') \<and>
          SessionDo (sv_next sv) (AsyncWrite (snd (message_encode fw (heartbeat_message fw k)))) \<in> set es \<and>
          isConnected hex sv' \<and> map_of (sv_staticNodes sv') ep = Some hex \<and>
          HostConnect ep \<notin> set (fst (service_heartBeat sv'))))"
proof -
  let ?key = "chain_identity x (cas @ [leaf])" and ?sv = "snd (service_heartBeat sv)"
  let ?info = "obtainNodeInfo (x_split x) empty_info ?key"
  have key: "?key \<noteq> []" and hex: "pi_p2pID ?info = hex"
    using chain_identity_leaf [OF cert(2,3), of cas] node_info_leaf [OF cert(1,4)] peer(1) by simp_all
  obtain t where t: "attempt_of x v6 ep cb [Resolved (Some (addr # addrs)), TcpConnected False, Handshaken False ?key] h a = Inr t"
      "told t = [EnqueueConnected True ?info (h_next h)]" "is_open (h_next h) (at_asio t)"
    using attempt_succeeds [OF host(1,3,4) key, of x v6 cb addr addrs] host(2) by auto
  have new: "\<not> isConnected (pi_p2pID ?info) ?sv" "pi_p2pID ?info \<noteq> sv_nodeID ?sv"
    using peer hex by (simp_all add: heartBeat_same)
  have "sv_run ?sv" using service(1) by (simp add: heartBeat_same)
  from connect_greets [OF queue this new, of fw k ep] obtain es sv'
    where run: "onConnect fw wq k success ?info (Some (create_session (Some True) True q, ep)) ?sv = Inr (es, sv')"
      and greet: "SessionDo (sv_next ?sv) (AsyncWrite (snd (message_encode fw (heartbeat_message fw k)))) \<in> set es"
      and conn: "isConnected (pi_p2pID ?info) sv'"
    by force
  have "sv_nodeID sv' = sv_nodeID sv" using onConnect_nodeID [OF run] by (simp add: heartBeat_same)
  have statics: "sv_staticNodes sv' = um_put ep hex (sv_staticNodes sv)"
    using onConnect_static [OF new _ run] hex service(2,3) by (simp add: heartBeat_same success_def um_has_iff um_mem_iff)
  have "HostConnect ep \<notin> set (fst (service_heartBeat sv'))"
    using conn peer(1) hex service(2) by (simp add: heartBeat_connects statics um_mem_iff um_simps)
  moreover have "map_of (sv_staticNodes sv') ep = Some hex" by (simp add: statics um_simps)
  moreover have "HostConnect ep \<in> set (fst (service_heartBeat sv))"
    using service by (auto simp: heartBeat_connects)
  ultimately show ?thesis using t run greet conn hex by (metis heartBeat_same(5))
qed

definition example_waiting :: "(bytes list, nat) service" where
  "example_waiting = (setStaticNodes [example_ep] (new_service ''me''))\<lparr>sv_run := True\<rparr>"

lemma example_waiting_fields:
  "sv_run example_waiting" "sv_staticNodes example_waiting = [(example_ep, [])]" "sv_nodeID example_waiting = ''me''"
  "\<not> isConnected p example_waiting" "sv_next example_waiting = 0"
  by (simp_all add: example_waiting_def setStaticNodes_def new_service_def um_emplace_def isConnected_def)

theorem gateway_reconnects_witness:
  "\<exists>t info es sv'. attempt_of example_x509 (\<lambda>_. False) example_ep 3 [Resolved (Some [''10.0.0.1'']), TcpConnected False,
       Handshaken False (chain_identity example_x509 ([0] @ [1]))] (new_host\<lparr>h_run := True, h_handler := True\<rparr>)
       (new_asio\<lparr>as_resolver := True\<rparr>) = Inr t \<and>
     told t = [EnqueueConnected True info 0] \<and>
     onConnect example_fw list_queue 7 success info (Some (create_session (Some True) True [], example_ep))
       (snd (service_heartBeat example_waiting)) = Inr (es, sv') \<and>
     isConnected ''ab12'' sv'"
  using gateway_reconnects [of example_waiting example_ep "[]" "new_host\<lparr>h_run := True, h_handler := True\<rparr>"
      "new_asio\<lparr>as_resolver := True\<rparr>" example_x509 1 "''ab12''" list_queue "\<lambda>q. q" "[]" "\<lambda>_. False" 3 "''10.0.0.1''" "[]" "[0]"
      example_fw 7]
  by (auto simp: example_waiting_fields example_x509_def split_text_spec pieces_ok_def new_host_def new_asio_def um_ok_def
      list_queue_fifo)

end
