(* ===== verification/Gateway_Config.thy ===== *)
theory Gateway_Config
  imports Text_Split Json_Lib Service_Core
begin

text \<open>
  \<open>GatewayConfig.h/.cpp\<close>: the configuration of the gateway, read from the ini file and from the
  JSON list of peers. The property tree, the file system, \<open>boost::split\<close>,
  \<open>boost::lexical_cast<int>\<close>, \<open>make_address\<close> and \<open>Json::Value::isArray\<close> are the members of
  \<open>conf_env\<close>. An exception is the value \<open>Inl\<close>; the object is returned beside the result, as an
  exception leaves the members that have been assigned before it.
\<close>

section \<open>Configuration\<close>

record cert_config =
  cc_caCert :: string
  cc_nodeKey :: string
  cc_nodeCert :: string

record sm_cert_config =
  sm_caCert :: string
  sm_nodeCert :: string
  sm_nodeKey :: string
  sm_enNodeCert :: string
  sm_enNodeKey :: string

record gateway_config =
  gc_smSSL :: bool
  gc_listenIP :: string
  gc_listenPort :: u16
  gc_threadPoolSize :: u32
  gc_connectedNodes :: "endpoint list"
  gc_certConfig :: cert_config
  gc_smCertConfig :: sm_cert_config
  gc_certPath :: string
  gc_nodePath :: string
  gc_nodeFileName :: string

text \<open>
  A new object: \<open>m_smSSL\<close> and \<open>m_listenPort\<close> have no initial value in the code, they are arguments.
\<close>

definition new_config :: "bool \<Rightarrow> u16 \<Rightarrow> gateway_config" where
  "new_config smSSL port = \<lparr>gc_smSSL = smSSL, gc_listenIP = [], gc_listenPort = port, gc_threadPoolSize = 16,
     gc_connectedNodes = [], gc_certConfig = \<lparr>cc_caCert = [], cc_nodeKey = [], cc_nodeCert = []\<rparr>,
     gc_smCertConfig = \<lparr>sm_caCert = [], sm_nodeCert = [], sm_nodeKey = [], sm_enNodeCert = [], sm_enNodeKey = []\<rparr>,
     gc_certPath = [], gc_nodePath = [], gc_nodeFileName = []\<rparr>"

datatype conf_error =
    InvalidParameter string
  | StdException \<comment> \<open>thrown by a library, or rethrown as \<open>std::exception\<close>\<close>
  | Undefined \<comment> \<open>a read outside a string or vector\<close>

type_synonym 'a conf = "conf_error + 'a"

definition conf_bind :: "'a conf \<Rightarrow> ('a \<Rightarrow> 'b conf) \<Rightarrow> 'b conf" where
  "conf_bind x f = (case x of Inl e \<Rightarrow> Inl e | Inr a \<Rightarrow> f a)"

lemma conf_bind_simps [simp]: "conf_bind (Inl e) f = Inl e" "conf_bind (Inr a) f = f a"
  by (simp_all add: conf_bind_def)

record 'j conf_env =
  ce_split :: "char \<Rightarrow> string \<Rightarrow> string list"
  ce_castInt :: "string \<Rightarrow> int option"
  ce_address :: "string \<Rightarrow> string option" \<comment> \<open>\<open>make_address\<close>: the address, printed\<close>
  ce_file :: "string \<Rightarrow> string option" \<comment> \<open>\<open>readContentsToString\<close>\<close>
  ce_isArray :: "'j \<Rightarrow> bool"
  ce_cwd :: string
  ce_diagnostic :: "conf_error \<Rightarrow> string"

record ptree =
  pt_bool :: "string \<Rightarrow> bool option" \<comment> \<open>\<open>get_optional<bool>\<close>\<close>
  pt_int :: "string \<Rightarrow> int option"
  pt_string :: "string \<Rightarrow> string option"

definition pt_get :: "(string \<Rightarrow> 'a option) \<Rightarrow> string \<Rightarrow> 'a \<Rightarrow> 'a" where
  "pt_get pt path dflt = (case pt path of None \<Rightarrow> dflt | Some v \<Rightarrow> v)"

section \<open>Endpoints\<close>

definition isValidPort :: "int \<Rightarrow> bool" where
  "isValidPort port = (if port \<le> 1024 \<or> port > 65535 then False else True)"

text \<open>\<open>s.data() + 1\<close> read as a C string: past the end of an empty string.\<close>

definition c_str_from_1 :: "string \<Rightarrow> string conf" where
  "c_str_from_1 s = (if s = [] then Inl Undefined else Inr (takeWhile (\<lambda>c. c \<noteq> CHR 0x00) (tl s)))"

definition at_1 :: "string list \<Rightarrow> string conf" where
  "at_1 v = (if length v < 2 then Inl Undefined else Inr (v ! 1))"

definition cast_int :: "'j conf_env \<Rightarrow> string \<Rightarrow> int conf" where
  "cast_int env s = (case ce_castInt env s of None \<Rightarrow> Inl StdException | Some i \<Rightarrow> Inr i)"

definition host_and_port :: "'j conf_env \<Rightarrow> string \<Rightarrow> (string \<times> u16) conf" where
  "host_and_port env host =
     (let s = ce_split env CHR '']'' host in
      if length s = 2
      then conf_bind (c_str_from_1 (s ! 0)) (\<lambda>ip. conf_bind (c_str_from_1 (s ! 1)) (\<lambda>p.
           conf_bind (cast_int env p) (\<lambda>port. Inr (ip, word_of_int port))))
      else if length s = 1
      then let v = ce_split env CHR '':'' host in
           if v = [] then Inl Undefined
           else conf_bind (at_1 v) (\<lambda>p. conf_bind (cast_int env p) (\<lambda>port. Inr (v ! 0, word_of_int port)))
      else Inl (InvalidParameter (''GatewayConfig: the host is invalid, host='' @ host)))"

definition hostAndPort2Endpoint :: "'j conf_env \<Rightarrow> string \<Rightarrow> endpoint conf" where
  "hostAndPort2Endpoint env host =
     conf_bind (host_and_port env host) (\<lambda>(ip, port).
       if \<not> isValidPort (uint port)
       then Inl (InvalidParameter (''GatewayConfig: the port is invalid, port='' @ to_string_int (uint port)))
       else case ce_address env ip of
         None \<Rightarrow> Inl (InvalidParameter (''GatewayConfig: the host is invalid make_address error, host='' @ host))
       | Some address \<Rightarrow> Inr (address, port))"

text \<open>The set of endpoints, in the order of insertion.\<close>

definition endpoint_insert :: "endpoint \<Rightarrow> endpoint list \<Rightarrow> endpoint list" where
  "endpoint_insert ep s = (if ep \<in> set s then s else s @ [ep])"

fun parse_nodes :: "'j conf_env \<Rightarrow> 'j jsonlib \<Rightarrow> 'j \<Rightarrow> nat list \<Rightarrow> endpoint list \<Rightarrow> endpoint list conf" where
  "parse_nodes env jl jNodes [] eps = Inr eps"
| "parse_nodes env jl jNodes (i # is) eps =
     (case jl_index jl jNodes i of None \<Rightarrow> Inl StdException
      | Some v \<Rightarrow> (case jl_asString jl v of None \<Rightarrow> Inl StdException
        | Some host \<Rightarrow> conf_bind (hostAndPort2Endpoint env host) (\<lambda>ep.
            parse_nodes env jl jNodes is (endpoint_insert ep eps))))"

text \<open>Every \<open>std::exception\<close> is caught and thrown again as a plain one.\<close>

fun rethrown :: "'a conf \<Rightarrow> 'a conf" where
  "rethrown (Inl (InvalidParameter t)) = Inl StdException"
| "rethrown r = r"

definition parseConnectedJson :: "'j conf_env \<Rightarrow> 'j jsonlib \<Rightarrow> string \<Rightarrow> endpoint list \<Rightarrow> endpoint list conf" where
  "parseConnectedJson env jl json eps =
     rethrown (case jl_parse jl json of
       None \<Rightarrow> Inl (InvalidParameter ''GatewayConfig: unable to parse p2p connected nodes json'')
     | Some root \<Rightarrow> (case jl_member jl root ''nodes'' of None \<Rightarrow> Inl StdException
       | Some jNodes \<Rightarrow> if ce_isArray env jNodes
                        then parse_nodes env jl jNodes [0..<jl_size jl jNodes] eps else Inr eps))"

section \<open>Loading\<close>

definition initP2PConfig :: "ptree \<Rightarrow> gateway_config \<Rightarrow> unit conf \<times> gateway_config" where
  "initP2PConfig pt c =
     (let smSSL = pt_get (pt_bool pt) ''p2p.sm_ssl'' False;
          listenIP = pt_get (pt_string pt) ''p2p.listen_ip'' ''0.0.0.0'';
          listenPort = pt_get (pt_int pt) ''p2p.listen_port'' 30300
      in if \<not> isValidPort listenPort
         then (Inl (InvalidParameter (''initP2PConfig: invalid listen port, port='' @ to_string_int listenPort)), c)
         else let c = (if gc_nodePath c = [] then c\<lparr>gc_nodePath := pt_get (pt_string pt) ''p2p.nodes_path'' ''./''\<rparr> else c)
              in (Inr (), c\<lparr>gc_nodeFileName := pt_get (pt_string pt) ''p2p.nodes_file'' ''nodes.json'',
                            gc_smSSL := smSSL, gc_listenIP := listenIP, gc_listenPort := word_of_int listenPort\<rparr>))"

definition loadP2pConnectedNodes :: "'j conf_env \<Rightarrow> 'j jsonlib \<Rightarrow> gateway_config \<Rightarrow> unit conf \<times> gateway_config" where
  "loadP2pConnectedNodes env jl c =
     (let nodeFilePath = gc_nodePath c @ ''/'' @ gc_nodeFileName c in
      case ce_file env nodeFilePath of
        None \<Rightarrow> (Inl (InvalidParameter (''initP2PConfig: unable to read nodes json file, path='' @ nodeFilePath)), c)
      | Some jsonContent \<Rightarrow>
          if jsonContent = []
          then (Inl (InvalidParameter (''initP2PConfig: unable to read nodes json file, path='' @ nodeFilePath)), c)
          else (case parseConnectedJson env jl jsonContent [] of
              Inl e \<Rightarrow> (Inl e, c) | Inr nodes \<Rightarrow> (Inr (), c\<lparr>gc_connectedNodes := nodes\<rparr>)))"

definition checkFileExist :: "'j conf_env \<Rightarrow> string \<Rightarrow> unit conf" where
  "checkFileExist env path =
     (let missing = Inl (InvalidParameter (''checkFileExist: unable to load file content  maybe file not exist, path: '' @ path))
      in case ce_file env path of None \<Rightarrow> missing | Some t \<Rightarrow> if t = [] then missing else Inr ())"

fun checkFiles :: "'j conf_env \<Rightarrow> string list \<Rightarrow> unit conf" where
  "checkFiles env [] = Inr ()"
| "checkFiles env (p # ps) = conf_bind (checkFileExist env p) (\<lambda>u. checkFiles env ps)"

text \<open>A certificate path that has been set is kept.\<close>

definition with_certPath :: "ptree \<Rightarrow> gateway_config \<Rightarrow> gateway_config" where
  "with_certPath pt c = (if gc_certPath c = [] then c\<lparr>gc_certPath := pt_get (pt_string pt) ''cert.ca_path'' ''./''\<rparr> else c)"

definition initCertConfig :: "'j conf_env \<Rightarrow> ptree \<Rightarrow> gateway_config \<Rightarrow> unit conf \<times> gateway_config" where
  "initCertConfig env pt c =
     (let c = with_certPath pt c;
          caCertFile = gc_certPath c @ ''/'' @ pt_get (pt_string pt) ''cert.ca_cert'' ''ca.crt'';
          nodeCertFile = gc_certPath c @ ''/'' @ pt_get (pt_string pt) ''cert.node_cert'' ''ssl.crt'';
          nodeKeyFile = gc_certPath c @ ''/'' @ pt_get (pt_string pt) ''cert.node_key'' ''ssl.key''
      in case checkFiles env [caCertFile, nodeCertFile, nodeKeyFile] of
           Inl e \<Rightarrow> (Inl e, c)
         | Inr u \<Rightarrow> (Inr (), c\<lparr>gc_certConfig := \<lparr>cc_caCert = caCertFile, cc_nodeKey = nodeKeyFile, cc_nodeCert = nodeCertFile\<rparr>\<rparr>))"

definition initSMCertConfig :: "'j conf_env \<Rightarrow> ptree \<Rightarrow> gateway_config \<Rightarrow> unit conf \<times> gateway_config" where
  "initSMCertConfig env pt c =
     (let c = with_certPath pt c;
          smCaCertFile = gc_certPath c @ ''/'' @ pt_get (pt_string pt) ''cert.sm_ca_cert'' ''sm_ca.crt'';
          smNodeCertFile = gc_certPath c @ ''/'' @ pt_get (pt_string pt) ''cert.sm_node_cert'' ''sm_ssl.crt'';
          smNodeKeyFile = gc_certPath c @ ''/'' @ pt_get (pt_string pt) ''cert.sm_node_key'' ''sm_ssl.key'';
          smEnNodeCertFile = gc_certPath c @ ''/'' @ pt_get (pt_string pt) ''cert.sm_ennode_cert'' ''sm_enssl.crt'';
          smEnNodeKeyFile = gc_certPath c @ ''/'' @ pt_get (pt_string pt) ''cert.sm_ennode_key'' ''sm_enssl.key''
      in case checkFiles env [smCaCertFile, smNodeCertFile, smNodeKeyFile, smEnNodeCertFile, smEnNodeKeyFile] of
           Inl e \<Rightarrow> (Inl e, c)
         | Inr u \<Rightarrow> (Inr (), c\<lparr>gc_smCertConfig := \<lparr>sm_caCert = smCaCertFile, sm_nodeCert = smNodeCertFile,
             sm_nodeKey = smNodeKeyFile, sm_enNodeCert = smEnNodeCertFile, sm_enNodeKey = smEnNodeKeyFile\<rparr>\<rparr>))"

text \<open>\<open>ini\<close> is what \<open>read_ini\<close> reads from the file, \<open>None\<close> when it throws.\<close>

definition initConfig :: "'j conf_env \<Rightarrow> ptree option \<Rightarrow> gateway_config \<Rightarrow> unit conf \<times> gateway_config" where
  "initConfig env ini c =
     (let (r, c) = (case ini of None \<Rightarrow> (Inl StdException, c)
            | Some pt \<Rightarrow> (case initP2PConfig pt c of
                (Inl e, c) \<Rightarrow> (Inl e, c)
              | (Inr u, c) \<Rightarrow> if gc_smSSL c then initSMCertConfig env pt c else initCertConfig env pt c))
      in (case r of Inl Undefined \<Rightarrow> Inl Undefined
          | Inl e \<Rightarrow> Inl (InvalidParameter (''initConfig: currentPath:'' @ ce_cwd env @ '' ,error:'' @ ce_diagnostic env e))
          | Inr u \<Rightarrow> Inr (), c))"

text \<open>The configuration a gateway is built from: \<open>GatewayFactory::buildGateway(path)\<close>.\<close>

definition load_config :: "'j conf_env \<Rightarrow> 'j jsonlib \<Rightarrow> ptree option \<Rightarrow> gateway_config \<Rightarrow> unit conf \<times> gateway_config" where
  "load_config env jl ini c =
     (case initConfig env ini c of (Inl e, c) \<Rightarrow> (Inl e, c) | (Inr u, c) \<Rightarrow> loadP2pConnectedNodes env jl c)"

end
