(* ===== verification/Config_Specs.thy ===== *)
theory Config_Specs
  imports Gateway_Config Service_Specs
begin

text \<open>
  The properties of the configuration: which endpoint a text stands for, and what holds of a
  configuration that has been loaded.
\<close>

section \<open>Endpoints\<close>

lemma to_string_nat_digits: "c \<in> set (to_string_nat n) \<Longrightarrow> 48 \<le> (of_char c :: nat) \<and> (of_char c :: nat) \<le> 57"
proof (induction n rule: to_string_nat.induct)
  case (1 n)
  then show ?case by (subst (asm) (2) to_string_nat.simps) (auto split: if_splits)
qed

lemma digits_exclude: "(of_char d :: nat) < 48 \<or> 57 < (of_char d :: nat) \<Longrightarrow> d \<notin> set (to_string_nat n)"
  using to_string_nat_digits [of d n] by auto

lemma to_string_nat_no_nul: "takeWhile (\<lambda>c. c \<noteq> CHR 0x00) (to_string_nat n) = to_string_nat n"
  using to_string_nat_digits [of "CHR 0x00" n] by (auto simp: takeWhile_eq_all_conv)

definition reads_ports :: "'j conf_env \<Rightarrow> bool" where
  "reads_ports env \<longleftrightarrow> (\<forall>n < 2 ^ 31. ce_castInt env (to_string_nat n) = Some (int n))"

definition v4_text :: "string \<Rightarrow> nat \<Rightarrow> string" where
  "v4_text ip n = ip @ '':'' @ to_string_nat n"

definition v6_text :: "string \<Rightarrow> nat \<Rightarrow> string" where
  "v6_text ip n = ''['' @ ip @ '']:'' @ to_string_nat n"

definition endpoint_of :: "'j conf_env \<Rightarrow> string \<Rightarrow> string \<Rightarrow> nat \<Rightarrow> endpoint conf" where
  "endpoint_of env host ip n =
     (if n mod 65536 \<le> 1024
      then Inl (InvalidParameter (''GatewayConfig: the port is invalid, port='' @ to_string_nat (n mod 65536)))
      else case ce_address env ip of
        None \<Rightarrow> Inl (InvalidParameter (''GatewayConfig: the host is invalid make_address error, host='' @ host))
      | Some a \<Rightarrow> Inr (a, word_of_nat n))"

lemma endpoint_of_read:
  assumes "host_and_port env host = Inr (ip, word_of_int (int n))"
  shows "hostAndPort2Endpoint env host = endpoint_of env host ip n"
proof -
  have "uint (word_of_int (int n) :: u16) = int (n mod 65536)"
    using uint_word_of_int [of "int n", where 'a = 16] by (simp add: zmod_int)
  moreover have "n mod 65536 < 65536" by simp
  ultimately show ?thesis
    using assms by (auto simp: hostAndPort2Endpoint_def endpoint_of_def isValidPort_def to_string_int_def split: option.split)
qed

lemma read_v4:
  assumes "split_spec (ce_split env)" and "reads_ports env" and "CHR '':'' \<notin> set ip" and "CHR '']'' \<notin> set ip" and "n < 2 ^ 31"
  shows "host_and_port env (v4_text ip n) = Inr (ip, word_of_int (int n))"
proof -
  have "CHR '']'' \<notin> set (v4_text ip n)" using assms(4) by (simp add: v4_text_def digits_exclude)
  then have "ce_split env CHR '']'' (v4_text ip n) = [v4_text ip n]"
    using split_specD [OF assms(1), of "CHR '']''" "[v4_text ip n]"] by (simp add: pieces_ok_def)
  moreover have "ce_split env CHR '':'' (v4_text ip n) = [ip, to_string_nat n]"
    using split_specD [OF assms(1), of "CHR '':''" "[ip, to_string_nat n]"] assms(3)
    by (simp add: pieces_ok_def v4_text_def digits_exclude)
  ultimately show ?thesis
    using assms(2,5) by (simp add: host_and_port_def at_1_def cast_int_def reads_ports_def)
qed

lemma read_v6:
  assumes "split_spec (ce_split env)" and "reads_ports env" and "CHR 0x00 \<notin> set ip" and "CHR '']'' \<notin> set ip" and "n < 2 ^ 31"
  shows "host_and_port env (v6_text ip n) = Inr (ip, word_of_int (int n))"
proof -
  have "ce_split env CHR '']'' (v6_text ip n) = [''['' @ ip, '':'' @ to_string_nat n]"
    using split_specD [OF assms(1), of "CHR '']''" "[''['' @ ip, '':'' @ to_string_nat n]"] assms(4)
    by (simp add: pieces_ok_def v6_text_def digits_exclude)
  moreover have "takeWhile (\<lambda>c. c \<noteq> CHR 0x00) ip = ip" using assms(3) by (auto simp: takeWhile_eq_all_conv)
  ultimately show ?thesis
    using assms(2,5)
    by (simp add: host_and_port_def c_str_from_1_def cast_int_def reads_ports_def to_string_nat_no_nul)
qed

text \<open>
  Claim C39: the endpoint of a text \<open>address:port\<close> or \<open>[address]:port\<close>. The port is cut to 16 bits
  before it is checked, so a text is rejected exactly when the port modulo 65536 is at most 1024 or
  the address is not one, and a port between 1025 and 65535 is read back; but a larger one is not
  rejected: it stands for its remainder.
\<close>

theorem endpoint_text:
  assumes "split_spec (ce_split env)" and "reads_ports env" and "n < 2 ^ 31" and "CHR '']'' \<notin> set ip"
  shows "(CHR '':'' \<notin> set ip \<longrightarrow> hostAndPort2Endpoint env (v4_text ip n) = endpoint_of env (v4_text ip n) ip n) \<and>
    (CHR 0x00 \<notin> set ip \<longrightarrow> hostAndPort2Endpoint env (v6_text ip n) = endpoint_of env (v6_text ip n) ip n)"
  using endpoint_of_read [OF read_v4 [OF assms(1,2) _ assms(4,3)]] endpoint_of_read [OF read_v6 [OF assms(1,2) _ assms(4,3)]]
  by blast

definition example_env :: "jv conf_env" where
  "example_env = \<lparr>ce_split = split_text, ce_castInt = (\<lambda>s. map_option int (read_dec 0 s)), ce_address = Some,
     ce_file = (\<lambda>p. Some (jv_write (VObject [(''nodes'', VArray [VString (v4_text ''127.0.0.1'' 30301), VString (v6_text ''::1'' 30302)])]))),
     ce_isArray = (\<lambda>v. case v of VArray vs \<Rightarrow> True | _ \<Rightarrow> False), ce_cwd = ''/'', ce_diagnostic = (\<lambda>e. [])\<rparr>"

lemma example_env_ports: "split_spec (ce_split example_env)" "reads_ports example_env"
  by (simp_all add: example_env_def split_text_spec reads_ports_def read_dec_to_string)

theorem endpoint_text_witness:
  "hostAndPort2Endpoint example_env (v4_text ''127.0.0.1'' 95836) = Inr (''127.0.0.1'', 30300) \<and>
   hostAndPort2Endpoint example_env (v6_text ''::1'' 30300) = Inr (''::1'', 30300)"
  using endpoint_text [OF example_env_ports, of 95836 "''127.0.0.1''"] endpoint_text [OF example_env_ports, of 30300 "''::1''"]
  by (simp add: endpoint_of_def example_env_def)

section \<open>A loaded configuration\<close>

definition cert_files :: "gateway_config \<Rightarrow> string list" where
  "cert_files c = (if gc_smSSL c
     then [sm_caCert (gc_smCertConfig c), sm_nodeCert (gc_smCertConfig c), sm_nodeKey (gc_smCertConfig c),
           sm_enNodeCert (gc_smCertConfig c), sm_enNodeKey (gc_smCertConfig c)]
     else [cc_caCert (gc_certConfig c), cc_nodeCert (gc_certConfig c), cc_nodeKey (gc_certConfig c)])"

definition readable :: "'j conf_env \<Rightarrow> string \<Rightarrow> bool" where
  "readable env p = (case ce_file env p of None \<Rightarrow> False | Some t \<Rightarrow> t \<noteq> [])"

definition usable_endpoint :: "endpoint \<Rightarrow> bool" where
  "usable_endpoint ep \<longleftrightarrow> 1024 < uint (snd ep)"

lemma checkFileExist_iff: "checkFileExist env p = Inr u \<longleftrightarrow> readable env p"
  by (simp add: checkFileExist_def readable_def Let_def split: option.split)

lemma checkFiles_iff: "checkFiles env ps = Inr u \<longleftrightarrow> list_all (readable env) ps"
proof (induction ps)
  case (Cons p ps)
  then show ?case
    using checkFileExist_iff [of env p "()"] by (cases "checkFileExist env p") auto
qed simp

lemma hostAndPort2Endpoint_usable: "hostAndPort2Endpoint env host = Inr ep \<Longrightarrow> usable_endpoint ep"
  by (cases "host_and_port env host")
    (auto simp: hostAndPort2Endpoint_def isValidPort_def usable_endpoint_def split: if_splits option.splits)

lemma parse_nodes_usable:
  "parse_nodes env jl jNodes is eps = Inr eps' \<Longrightarrow> list_all usable_endpoint eps \<Longrightarrow> distinct eps \<Longrightarrow>
   list_all usable_endpoint eps' \<and> distinct eps'"
proof (induction "is" arbitrary: eps)
  case (Cons i "is")
  from Cons.prems(1) obtain host ep where ep: "hostAndPort2Endpoint env host = Inr ep"
      "parse_nodes env jl jNodes is (endpoint_insert ep eps) = Inr eps'"
    by (auto simp: conf_bind_def split: option.splits sum.splits)
  from Cons.IH [OF ep(2)] Cons.prems(2,3) hostAndPort2Endpoint_usable [OF ep(1)]
  show ?case by (simp add: endpoint_insert_def)
qed simp

lemma rethrown_Inr [simp]: "rethrown r = Inr x \<longleftrightarrow> r = Inr x"
  by (cases r rule: rethrown.cases) auto

lemma parseConnectedJson_usable:
  "parseConnectedJson env jl json [] = Inr eps \<Longrightarrow> list_all usable_endpoint eps \<and> distinct eps"
  by (auto simp: parseConnectedJson_def split: option.splits if_splits dest: parse_nodes_usable)

lemma initP2PConfig_ok:
  assumes "initP2PConfig pt c = (Inr u, c')"
  shows "1024 < uint (gc_listenPort c') \<and> gc_connectedNodes c' = gc_connectedNodes c"
proof -
  let ?p = "pt_get (pt_int pt) ''p2p.listen_port'' 30300"
  have p: "1024 < ?p" "?p \<le> 65535" and c': "gc_listenPort c' = word_of_int ?p" "gc_connectedNodes c' = gc_connectedNodes c"
    using assms by (auto simp: initP2PConfig_def Let_def isValidPort_def split: if_splits)
  from p have "uint (word_of_int ?p :: u16) = ?p" by (simp add: uint_word_of_int)
  with p c' show ?thesis by simp
qed

lemma initP2PConfig_fail: "initP2PConfig pt c = (Inl e, c') \<Longrightarrow> c' = c"
  by (auto simp: initP2PConfig_def Let_def split: if_splits)

lemma with_certPath_fields [simp]:
  "gc_listenPort (with_certPath pt c) = gc_listenPort c" "gc_connectedNodes (with_certPath pt c) = gc_connectedNodes c"
  "gc_smSSL (with_certPath pt c) = gc_smSSL c"
  by (simp_all add: with_certPath_def)

lemma initCertConfig_ok:
  assumes "initCertConfig env pt c = (r, c')"
  shows "gc_listenPort c' = gc_listenPort c \<and> gc_connectedNodes c' = gc_connectedNodes c \<and> gc_smSSL c' = gc_smSSL c"
    and "r = Inr u \<Longrightarrow> \<not> gc_smSSL c \<Longrightarrow> list_all (readable env) (cert_files c')"
  using assms
  by (auto simp: initCertConfig_def Let_def cert_files_def checkFiles_iff split: sum.splits simp del: checkFiles.simps)

lemma initSMCertConfig_ok:
  assumes "initSMCertConfig env pt c = (r, c')"
  shows "gc_listenPort c' = gc_listenPort c \<and> gc_connectedNodes c' = gc_connectedNodes c \<and> gc_smSSL c' = gc_smSSL c"
    and "r = Inr u \<Longrightarrow> gc_smSSL c \<Longrightarrow> list_all (readable env) (cert_files c')"
  using assms
  by (auto simp: initSMCertConfig_def Let_def cert_files_def checkFiles_iff split: sum.splits simp del: checkFiles.simps)

definition init_parts :: "'j conf_env \<Rightarrow> ptree option \<Rightarrow> gateway_config \<Rightarrow> unit conf \<times> gateway_config" where
  "init_parts env ini c = (case ini of None \<Rightarrow> (Inl StdException, c)
     | Some pt \<Rightarrow> (case initP2PConfig pt c of (Inl e, c) \<Rightarrow> (Inl e, c)
         | (Inr u, c) \<Rightarrow> if gc_smSSL c then initSMCertConfig env pt c else initCertConfig env pt c))"

lemma initConfig_parts:
  assumes "init_parts env ini c = (r, c')"
  shows "snd (initConfig env ini c) = c'" and "fst (initConfig env ini c) = Inr u \<longleftrightarrow> r = Inr ()"
  using assms by (auto simp: initConfig_def init_parts_def Let_def split: sum.splits conf_error.splits prod.splits)

lemma init_parts_ok:
  assumes "init_parts env ini c = (r, c')"
  shows "gc_connectedNodes c' = gc_connectedNodes c"
    and "r = Inr u \<Longrightarrow> 1024 < uint (gc_listenPort c') \<and> list_all (readable env) (cert_files c')"
proof -
  have "gc_connectedNodes c' = gc_connectedNodes c \<and>
      (\<forall>u. r = Inr u \<longrightarrow> 1024 < uint (gc_listenPort c') \<and> list_all (readable env) (cert_files c'))"
  proof (cases ini)
    case None
    with assms show ?thesis by (auto simp: init_parts_def)
  next
    case (Some pt)
    obtain r1 c1 where p2p: "initP2PConfig pt c = (r1, c1)" by fastforce
    show ?thesis
    proof (cases r1)
      case (Inl e)
      with assms Some p2p initP2PConfig_fail [of pt c e c1] show ?thesis by (auto simp: init_parts_def)
    next
      case (Inr v)
      have "(if gc_smSSL c1 then initSMCertConfig env pt c1 else initCertConfig env pt c1) = (r, c')"
        using assms Some p2p Inr by (simp add: init_parts_def)
      moreover note initP2PConfig_ok [OF p2p [unfolded Inr]]
      ultimately show ?thesis
        using initCertConfig_ok [of env pt c1 r c'] initSMCertConfig_ok [of env pt c1 r c'] by (simp split: if_splits)
    qed
  qed
  then show "gc_connectedNodes c' = gc_connectedNodes c"
    and "r = Inr u \<Longrightarrow> 1024 < uint (gc_listenPort c') \<and> list_all (readable env) (cert_files c')" by blast+
qed

lemma loadP2pConnectedNodes_ok:
  assumes "loadP2pConnectedNodes env jl c = (r, c')"
  shows "(case r of Inl e \<Rightarrow> c' = c | Inr u \<Rightarrow> \<exists>eps. c' = c\<lparr>gc_connectedNodes := eps\<rparr> \<and> list_all usable_endpoint eps \<and> distinct eps)"
  using assms by (auto simp: loadP2pConnectedNodes_def Let_def split: option.splits if_splits sum.splits dest: parseConnectedJson_usable)

lemma load_config_ok:
  "case load_config env jl ini (new_config b p) of
     (Inl e, c) \<Rightarrow> gc_connectedNodes c = []
   | (Inr u, c) \<Rightarrow> 1024 < uint (gc_listenPort c) \<and> list_all usable_endpoint (gc_connectedNodes c) \<and>
       distinct (gc_connectedNodes c) \<and> list_all (readable env) (cert_files c)"
proof -
  let ?c0 = "new_config b p"
  obtain r1 c1 where parts: "init_parts env ini ?c0 = (r1, c1)" by fastforce
  obtain r2 c2 where init: "initConfig env ini ?c0 = (r2, c2)" by fastforce
  note same = initConfig_parts [OF parts, unfolded init, simplified]
  note ok = init_parts_ok [OF parts]
  have empty: "gc_connectedNodes ?c0 = []" by (simp add: new_config_def)
  show ?thesis
  proof (cases r2)
    case (Inl e)
    with init same ok(1) empty show ?thesis by (simp add: load_config_def)
  next
    case (Inr u)
    then have usable: "1024 < uint (gc_listenPort c2)" "list_all (readable env) (cert_files c2)"
      using same ok(2) by auto
    obtain r3 c3 where nodes: "loadP2pConnectedNodes env jl c2 = (r3, c3)" by fastforce
    have run: "load_config env jl ini ?c0 = (r3, c3)" using init Inr nodes by (simp add: load_config_def)
    show ?thesis
      using loadP2pConnectedNodes_ok [OF nodes] usable same(1) ok(1) empty
      by (cases r3) (auto simp: run cert_files_def)
  qed
qed

text \<open>
  Claim C40: a configuration that loads is usable: the port it listens on and those of all the
  peers are above 1024, no peer is listed twice, and every certificate file it names for its mode
  (three, or five for SM) exists and is not empty. When loading fails the list of peers is empty.
\<close>

theorem config_load_ok:
  "case load_config env jl ini (new_config b p) of
     (Inl e, c) \<Rightarrow> gc_connectedNodes c = []
   | (Inr u, c) \<Rightarrow> 1024 < uint (gc_listenPort c) \<and> list_all usable_endpoint (gc_connectedNodes c) \<and>
       distinct (gc_connectedNodes c) \<and> list_all (readable env) (cert_files c)"
  by (rule load_config_ok)

text \<open>Loading can succeed: the defaults and a list of two peers.\<close>

lemma example_nodes:
  "hostAndPort2Endpoint example_env (v4_text ''127.0.0.1'' 30301) = Inr (''127.0.0.1'', 30301)"
  "hostAndPort2Endpoint example_env (v6_text ''::1'' 30302) = Inr (''::1'', 30302)"
proof -
  show "hostAndPort2Endpoint example_env (v4_text ''127.0.0.1'' 30301) = Inr (''127.0.0.1'', 30301)"
    using endpoint_of_read [OF read_v4 [OF example_env_ports, of "''127.0.0.1''" 30301]]
    by (simp add: endpoint_of_def example_env_def)
  show "hostAndPort2Endpoint example_env (v6_text ''::1'' 30302) = Inr (''::1'', 30302)"
    using endpoint_of_read [OF read_v6 [OF example_env_ports, of "''::1''" 30302]]
    by (simp add: endpoint_of_def example_env_def)
qed

lemma example_file: "ce_file example_env p
    = Some (jv_write (VObject [(''nodes'', VArray [VString (v4_text ''127.0.0.1'' 30301), VString (v6_text ''::1'' 30302)])]))"
  by (simp add: example_env_def)

lemma example_connected:
  "parseConnectedJson example_env jv_lib (the (ce_file example_env p)) [] = Inr [(''127.0.0.1'', 30301), (''::1'', 30302)]"
proof -
  have "jl_index jv_lib (VArray vs) i = Some (if i < length vs then vs ! i else VNull)"
    "jl_asString jv_lib (VString t) = Some t" "jl_size jv_lib (VArray vs) = length vs" "ce_isArray example_env (VArray vs)"
    "jl_member jv_lib (VObject kvs) k = Some (case map_of kvs k of None \<Rightarrow> VNull | Some x \<Rightarrow> x)" for vs i t kvs k
    by (simp_all add: jv_lib_def example_env_def)
  then show ?thesis
    by (simp add: parseConnectedJson_def example_file jv_parse_write upt_rec example_nodes endpoint_insert_def
        del: jv_write.simps)
qed

lemma example_load:
  "\<exists>c. load_config example_env jv_lib (Some \<lparr>pt_bool = \<lambda>_. None, pt_int = \<lambda>_. None, pt_string = \<lambda>_. None\<rparr>)
      (new_config False 0) = (Inr (), c) \<and>
    gc_listenPort c = 30300 \<and> gc_connectedNodes c = [(''127.0.0.1'', 30301), (''::1'', 30302)]"
  using example_connected
  by (simp add: load_config_def initConfig_def initP2PConfig_def isValidPort_def new_config_def initCertConfig_def
      checkFileExist_def example_file pt_get_def loadP2pConnectedNodes_def Let_def del: jv_write.simps)

end
