(* ===== verification/Gateway_Factory.thy ===== *)
theory Gateway_Factory
  imports Config_Specs Host_Model Gateway_Node
begin

text \<open>
  \<open>GatewayFactory.cpp\<close>: the identity of the gateway from its certificate, the two TLS contexts and
  the assembly of host, service, node manager, topic manager and gateway from a configuration.
  What OpenSSL and boost make of the contents of a file are the members of \<open>ssl_env\<close>.
\<close>

section \<open>Certificates and contexts\<close>

record ssl_env =
  sl_pem :: "string \<Rightarrow> nat option" \<comment> \<open>\<open>PEM_read_bio_X509\<close>: a certificate\<close>
  sl_pubkey :: "nat \<Rightarrow> bytes option" \<comment> \<open>\<open>X509_get0_pubkey_bitstr\<close>\<close>
  sl_toHex :: "bytes \<Rightarrow> string"
  sl_bio :: bool \<comment> \<open>\<open>BIO_new\<close> succeeds\<close>
  sl_private_key :: "string \<Rightarrow> bool" \<comment> \<open>\<open>use_private_key\<close> does not throw\<close>
  sl_chain_file :: "string \<Rightarrow> bool" \<comment> \<open>\<open>use_certificate_chain_file\<close> does not throw\<close>
  sl_authority :: "string \<Rightarrow> bool" \<comment> \<open>\<open>add_certificate_authority\<close> does not throw\<close>
  sl_enc_key_file :: "string \<Rightarrow> bool" \<comment> \<open>\<open>SSL_CTX_use_enc_PrivateKey_file\<close> returns a positive number\<close>

text \<open>The handlers of \<open>initSSLContextPubHexHandler\<close> and \<open>initCert2PubHexHandler\<close>; \<open>None\<close> is \<open>false\<close>.\<close>

definition sslContextPubHandler :: "ssl_env \<Rightarrow> nat \<Rightarrow> string option" where
  "sslContextPubHandler ssl x509 = (case sl_pubkey ssl x509 of None \<Rightarrow> None | Some key \<Rightarrow> Some (sl_toHex ssl key))"

definition certPubHexHandler :: "ssl_env \<Rightarrow> (string \<Rightarrow> string option) \<Rightarrow> string \<Rightarrow> string option" where
  "certPubHexHandler ssl file cert =
     (case file cert of None \<Rightarrow> None
      | Some certContent \<Rightarrow>
          if certContent = [] then None
          else if \<not> sl_bio ssl then None
          else (case sl_pem ssl certContent of None \<Rightarrow> None
            | Some x509 \<Rightarrow> (case sl_pubkey ssl x509 of None \<Rightarrow> None | Some key \<Rightarrow> Some (sl_toHex ssl key))))"

datatype verify_mode = VerifyNone | VerifyPeerRequired

record ssl_context =
  sc_key :: string
  sc_chain :: string
  sc_authority :: string
  sc_verify :: verify_mode
  sc_enc :: "(string \<times> string) option" \<comment> \<open>the SM encryption certificate and key\<close>

definition buildSSLContext :: "ssl_env \<Rightarrow> (string \<Rightarrow> string option) \<Rightarrow> cert_config \<Rightarrow> ssl_context conf" where
  "buildSSLContext ssl file cc =
     (let no_key = Inl (InvalidParameter (''buildSSLContext: unable read content of key: '' @ cc_nodeKey cc));
          no_ca = Inl (InvalidParameter (''buildSSLContext: unable read content of ca: '' @ cc_caCert cc))
      in case file (cc_nodeKey cc) of None \<Rightarrow> no_key
      | Some keyContent \<Rightarrow>
        if keyContent = [] then no_key
        else if \<not> sl_private_key ssl keyContent then Inl StdException
        else if \<not> sl_chain_file ssl (cc_nodeCert cc) then Inl StdException
        else (case file (cc_caCert cc) of None \<Rightarrow> no_ca
          | Some caCertContent \<Rightarrow>
            if caCertContent = [] then no_ca
            else if \<not> sl_authority ssl caCertContent then Inl StdException
            else Inr \<lparr>sc_key = keyContent, sc_chain = cc_nodeCert cc, sc_authority = caCertContent,
                      sc_verify = VerifyPeerRequired, sc_enc = None\<rparr>))"

text \<open>The SM builder does not look whether the files could be read.\<close>

definition buildSMSSLContext :: "ssl_env \<Rightarrow> (string \<Rightarrow> string option) \<Rightarrow> sm_cert_config \<Rightarrow> ssl_context conf" where
  "buildSMSSLContext ssl file sm =
     (case file (sm_nodeKey sm) of None \<Rightarrow> Inl Undefined
      | Some keyContent \<Rightarrow>
        if \<not> sl_private_key ssl keyContent then Inl StdException
        else if \<not> sl_enc_key_file ssl (sm_enNodeKey sm)
        then Inl (InvalidParameter ''GatewayFactory::buildSSLContext SSL_CTX_use_enc_PrivateKey_file error'')
        else if \<not> sl_chain_file ssl (sm_nodeCert sm) then Inl StdException
        else (case file (sm_caCert sm) of None \<Rightarrow> Inl Undefined
          | Some caContent \<Rightarrow>
            if \<not> sl_authority ssl caContent then Inl StdException
            else Inr \<lparr>sc_key = keyContent, sc_chain = sm_nodeCert sm, sc_authority = caContent,
                      sc_verify = VerifyPeerRequired, sc_enc = Some (sm_enNodeCert sm, sm_enNodeKey sm)\<rparr>))"

section \<open>Assembly\<close>

text \<open>
  \<open>buildGateway\<close> from a configuration. \<open>rpc\<close> says which topic manager is built: \<open>None\<close> for the
  one of the pro mode, the rpc client for the local one.
\<close>

definition buildGateway :: "('key, 'more) bcos_fw_scheme \<Rightarrow> ssl_env \<Rightarrow> 'j conf_env \<Rightarrow> nat option option \<Rightarrow> gateway_config \<Rightarrow>
    (ssl_context \<times> host \<times> 'q gateway) conf" where
  "buildGateway fw ssl env rpc c =
     rethrown (
       let nodeCert = (if gc_smSSL c then sm_nodeCert (gc_smCertConfig c) else cc_nodeCert (gc_certConfig c))
       in case certPubHexHandler ssl (ce_file env) nodeCert of
         None \<Rightarrow> Inl (InvalidParameter ''GatewayFactory::init unable parse myself pub id'')
       | Some pubHex \<Rightarrow>
         conf_bind (if gc_smSSL c then buildSMSSLContext ssl (ce_file env) (gc_smCertConfig c)
                    else buildSSLContext ssl (ce_file env) (gc_certConfig c)) (\<lambda>ctx.
           Inr (ctx, setHostPort (gc_listenIP c) (gc_listenPort c) new_host,
                build_gateway fw pubHex (gc_connectedNodes c) rpc)))"

definition buildGateway_from :: "('key, 'more) bcos_fw_scheme \<Rightarrow> ssl_env \<Rightarrow> 'j conf_env \<Rightarrow> 'j jsonlib \<Rightarrow> nat option option \<Rightarrow>
    ptree option \<Rightarrow> gateway_config \<Rightarrow> (ssl_context \<times> host \<times> 'q gateway) conf" where
  "buildGateway_from fw ssl env jl rpc ini c0 =
     (case load_config env jl ini c0 of (Inl e, c) \<Rightarrow> Inl e | (Inr u, c) \<Rightarrow> buildGateway fw ssl env rpc c)"

section \<open>Properties\<close>

lemma readable_Some: "readable env p \<Longrightarrow> ce_file env p \<noteq> None"
  by (auto simp: readable_def split: option.splits)

lemma rethrown_Undefined [simp]: "rethrown r = Inl Undefined \<longleftrightarrow> r = Inl Undefined"
  by (cases r rule: rethrown.cases) auto

lemma buildGateway_defined:
  assumes "list_all (readable env) (cert_files c)"
  shows "buildGateway fw ssl env rpc c \<noteq> Inl Undefined"
  using assms
  by (auto simp: buildGateway_def Let_def cert_files_def buildSSLContext_def buildSMSSLContext_def conf_bind_def
      dest: readable_Some split: option.splits if_splits sum.splits)

lemma buildGateway_parts:
  assumes "buildGateway fw ssl env rpc c = Inr (ctx, host, gw)"
  shows "sc_verify ctx = VerifyPeerRequired"
    and "\<exists>pubHex. host = setHostPort (gc_listenIP c) (gc_listenPort c) new_host \<and>
      gw = build_gateway fw pubHex (gc_connectedNodes c) rpc"
  using assms
  by (auto simp: buildGateway_def Let_def buildSSLContext_def buildSMSSLContext_def conf_bind_def
      split: option.splits if_splits sum.splits)

lemma static_nodes: "fst ` set (sv_staticNodes (setStaticNodes eps sv)) = fst ` set (sv_staticNodes sv) \<union> set eps"
proof -
  have keys: "fst ` set (um_emplace ep v m) = insert ep (fst ` set m)" for ep and v :: p2p_id and m
    unfolding dom_map_of_conv_image_fst [symmetric] by (auto simp: um_find_emplace dom_def)
  have "fst ` set (fold (\<lambda>ep. um_emplace ep v) eps m) = fst ` set m \<union> set eps" for v :: p2p_id and m
    by (induction eps arbitrary: m) (simp_all add: keys)
  then show ?thesis by (simp add: setStaticNodes_def)
qed

lemma build_gateway_parts:
  "fst ` set (sv_staticNodes (gw_service (build_gateway fw pubHex eps rpc))) = set eps"
  "svc_inv (gw_service (build_gateway fw pubHex eps rpc))" "nm_inv (gw_nm (build_gateway fw pubHex eps rpc))"
  "getMessageHandlerByMsgType t (gw_service (build_gateway fw pubHex eps rpc)) = (if t = mtAMOPMessageType fw then Some 0 else None)"
  "sv_disconnectHandlers (gw_service (build_gateway fw pubHex eps rpc)) = [0]"
  "sv_nodeID (gw_service (build_gateway fw pubHex eps rpc)) = pubHex"
  "m_p2pNodeID (gw_nm (build_gateway fw pubHex eps rpc)) = pubHex"
proof -
  note defs = build_gateway_eq registerDisconnectHandler_def registerHandlerByMsgType_def setStaticNodes_def
    new_service_def um_has_def
  show "fst ` set (sv_staticNodes (gw_service (build_gateway fw pubHex eps rpc))) = set eps"
    using static_nodes [of eps "new_service pubHex"]
    by (simp add: build_gateway_eq registerDisconnectHandler_def registerHandlerByMsgType_def new_service_def)
  show "svc_inv (gw_service (build_gateway fw pubHex eps rpc))"
    by (rule svc_inv_same [OF svc_inv_new [of pubHex]]) (simp_all add: defs ps_view_def fun_eq_iff)
  show "nm_inv (gw_nm (build_gateway fw pubHex eps rpc))" by (simp add: build_gateway_eq nm_inv_new)
  show "getMessageHandlerByMsgType t (gw_service (build_gateway fw pubHex eps rpc)) = (if t = mtAMOPMessageType fw then Some 0 else None)"
    by (simp add: defs getMessageHandlerByMsgType_def um_simps)
  show "sv_disconnectHandlers (gw_service (build_gateway fw pubHex eps rpc)) = [0]"
    "sv_nodeID (gw_service (build_gateway fw pubHex eps rpc)) = pubHex"
    "m_p2pNodeID (gw_nm (build_gateway fw pubHex eps rpc)) = pubHex"
    by (simp_all add: defs new_node_manager_def)
qed

text \<open>
  Claim C34: a gateway that the factory builds from a configuration file asks every peer for a
  certificate, listens on a port above 1024, knows exactly the configured peers, all with ports
  above 1024, uses one identity in its service and its node manager, starts with both tables
  consistent, and has a handler of its own for the AMOP packets only. Building reads through no
  null pointer unless the list of peers has a malformed entry: the files the SM context needs were
  found when the configuration was loaded.
\<close>

theorem factory_gateway:
  "let c0 = new_config b p; loaded = load_config env jl ini c0 in
   case buildGateway_from fw ssl env jl rpc ini c0 :: (ssl_context \<times> host \<times> 'q gateway) conf of
     Inl e \<Rightarrow> (e = Undefined) = (fst loaded = Inl Undefined)
   | Inr (ctx, host, gw) \<Rightarrow>
       sc_verify ctx = VerifyPeerRequired \<and> 1024 < uint (snd (h_listen host)) \<and>
       fst ` set (sv_staticNodes (gw_service gw)) = set (gc_connectedNodes (snd loaded)) \<and>
       list_all usable_endpoint (gc_connectedNodes (snd loaded)) \<and>
       sv_nodeID (gw_service gw) = m_p2pNodeID (gw_nm gw) \<and> svc_inv (gw_service gw) \<and> nm_inv (gw_nm gw) \<and>
       (getMessageHandlerByMsgType t (gw_service gw) = None) = (t \<noteq> mtAMOPMessageType fw)"
proof -
  obtain r c where loaded: "load_config env jl ini (new_config b p) = (r, c)" by fastforce
  show ?thesis
  proof (cases r)
    case (Inl e)
    with loaded show ?thesis by (simp add: buildGateway_from_def Let_def)
  next
    case (Inr u)
    note ok = load_config_ok [of env jl ini b p, unfolded loaded Inr, simplified]
    have from_config: "(buildGateway_from fw ssl env jl rpc ini (new_config b p) :: (ssl_context \<times> host \<times> 'q gateway) conf) = buildGateway fw ssl env rpc c"
      using loaded Inr by (simp add: buildGateway_from_def)
    show ?thesis
    proof (cases "buildGateway fw ssl env rpc c :: (ssl_context \<times> host \<times> 'q gateway) conf")
      case (Inl e)
      then show ?thesis
        using buildGateway_defined [of env c fw ssl rpc, where 'b = 'q] ok loaded Inr from_config by (auto simp: Let_def)
    next
      case built: (Inr res)
      obtain ctx host gw where res: "res = (ctx, host, gw)" by (cases res) auto
      obtain pubHex where "host = setHostPort (gc_listenIP c) (gc_listenPort c) new_host"
          "gw = build_gateway fw pubHex (gc_connectedNodes c) rpc"
        using buildGateway_parts(2) built res by blast
      then show ?thesis
        using buildGateway_parts(1) [of fw ssl env rpc c ctx host gw] built res from_config loaded ok
        by (simp add: Let_def build_gateway_parts setHostPort_def)
    qed
  qed
qed

end
