(* ===== verification/Spec2Isabelle.thy ===== *)
theory Spec2Isabelle
  imports Session_Sync Node_Defined Topic_Network Amop_World Reconnect Gateway_Factory
begin

text \<open>
  bcos-gateway, the network module of FISCO BCOS: the root of its verification library.

  The program. A gateway connects the nodes of a blockchain organisation to those of the others.
  The host (\<open>libnetwork/Host\<close>) makes and accepts TLS connections and takes a peer's identity from
  its certificate; a session (\<open>libnetwork/Session\<close>) is one such connection: a queue of buffers to
  write, a receive loop that cuts the stream into messages, and callbacks stored by sequence
  number; the service (\<open>libp2p/Service\<close>, \<open>P2PSession\<close>) keeps one running session per peer,
  greets peers with heartbeats and dispatches the packets; the node manager
  (\<open>GatewayNodeManager\<close>, \<open>DynamicGatewayNodeManager\<close>) keeps the local front services and, by
  gossip, through which peer each remote node is reached; AMOP (\<open>libamop\<close>) does the same for the
  topics of application clients and carries their messages; the gateway (\<open>Gateway\<close>) sends messages
  of the local nodes to the peers of their receivers, with retry, and gives arriving ones to the
  local front services. \<open>GatewayConfig\<close> and \<open>GatewayFactory\<close> read the configuration and build it
  all. The packets are those of \<open>P2PMessage\<close> and \<open>AMOPMessage\<close>.

  How the code is modelled. A class is a record of its members, an operation a function on it that
  returns the new state and, where it starts something outside (an asynchronous operation, a job
  for the thread pool, a call of a front service, a timer), a list of effects; the completion of
  such an operation is another function, which the runs and step relations apply in any order.
  Closures handed out are data: what they capture. Integers have their width (\<open>u16\<close>, \<open>u32\<close>), so
  counters wrap. A read outside a buffer or through a null pointer is the value \<open>Inl\<close> of \<open>'a cpp\<close>;
  the exceptions of the configuration are \<open>'a conf\<close>. \<open>unordered_map\<close> and \<open>map\<close> are association
  lists in their order of iteration, which no theorem fixes. Objects that are shared by pointer
  and compared by it (the P2P sessions) are in a store by address. What is not in the repository
  is an argument: \<open>bcos_fw\<close> (bcos-framework: constants, keys, hex text, casts), \<open>jsonlib\<close>
  (jsoncpp), \<open>write_queue\<close> (boost's heap as the session uses it), \<open>x509lib\<close> and \<open>ssl_env\<close> (OpenSSL),
  \<open>conf_env\<close> and \<open>ptree\<close> (boost, files), random numbers and the state of tars proxies. What a
  theorem needs of them is a named hypothesis (\<open>crop_spec\<close>, \<open>types_spec\<close>, \<open>decimal_spec\<close>,
  \<open>key_spec\<close>, \<open>json_spec\<close>, \<open>fifo_spec\<close>, \<open>split_spec\<close>, \<open>reads_ports\<close>), and \<open>example_fw\<close>,
  \<open>jv_lib\<close>, \<open>list_queue\<close>, \<open>split_text\<close>, \<open>example_x509\<close>, \<open>example_env\<close> are instances on which the
  theorems with hypotheses are applied.

  The theories.
  \<^item> \<open>Gw_Prelude\<close>: bytes, words in network order, undefined behaviour, maps and sets;
    \<open>Net_Common\<close>: \<open>libnetwork/Common.h\<close>, \<open>Message.h\<close>, and \<open>bcos_fw\<close>; \<open>Json_Lib\<close>: jsoncpp;
    \<open>Text_Split\<close>: \<open>boost::split\<close>; \<open>Retry_Loop\<close>: \<open>std::shuffle\<close> and the contracts of a sender
    that retries (locales \<open>retry_loop\<close>, \<open>retry_exhaustive\<close>); \<open>Seq_Gossip\<close>: the contracts of gossip
    by sequence number (locales \<open>versioned\<close>, \<open>seq_cache\<close>, \<open>forgetting_cache\<close>); \<open>Gossip_Net\<close>: a network
    of any number of parties that gossip so, over a wire that loses, repeats and reorders (locale
    \<open>gossip_protocol\<close>).
  \<^item> \<open>P2P_Message\<close>, \<open>AMOP_Message\<close>: the codecs, with round trips, every error branch, safety of the
    decoder on arbitrary bytes. \<open>Message_Framing\<close>: the receive loop, for any framed codec (locale
    \<open>framed_codec\<close>, interpreted on \<open>P2PMessage\<close>): however the stream is cut, the messages sent are
    the messages delivered.
  \<^item> \<open>Session_Model\<close>: \<open>Session.cpp\<close>; \<open>Session_World\<close>: a session with its outstanding operations as
    a step relation, and what holds in every reachable state: writes in order, no stall, no
    callback lost - and a run in which one is called twice. \<open>Session_Link\<close>: two sessions and the
    stream of bytes from one to the other: nothing is lost, invented or reordered.
  \<^item> \<open>Node_Manager\<close>, \<open>Node_Routes\<close>, \<open>Node_Gossip\<close>, \<open>Node_Specs\<close>: the node managers, their
    invariant, the gossip contracts interpreted on them, the refinement of an abstract registry,
    exactness of the queries, and that equal sequence numbers mean equal tables. \<open>Node_Network\<close>:
    the node managers of any number of gateways as a network, in step and able to get in step.
  \<^item> \<open>Session_Network\<close>: any number of gateways that gossip over sessions, with their queues, buffers,
    partial reads, broken and new connections; \<open>Session_Gossip\<close>: every such run is one of the packet
    network, by simulation, so what holds there holds here; \<open>Session_Sync\<close>: from any state a
    connection whose sessions are active gets its gateways in step.
  \<^item> \<open>Topic_Manager\<close>, \<open>Topic_Gossip\<close>, \<open>AMOP_Impl\<close>, \<open>AMOP_Specs\<close>: the same for topics; AMOP's
    dispatcher, requests, broadcasts and retry. \<open>Topic_Network\<close>: the topic managers as a network;
    \<open>Amop_World\<close>: a message by topic from the sender to a client of the receiver and back.
  \<^item> \<open>Service_Core\<close>, \<open>Service_Inv\<close>, \<open>Service_Specs\<close>: the P2P service; its table of sessions keeps
    at most one running session per peer in every run.
  \<^item> \<open>Gateway_Model\<close>: \<open>Gateway.cpp\<close>; \<open>Gateway_Node\<close>: \<open>Service::onMessage\<close>, which ties service,
    node manager and gateway together, AMOP over the service, start, stop and the timers;
    \<open>Node_Run\<close>: everything that can happen to one gateway, and the invariant of its three tables;
    \<open>Node_Defined\<close>: on which events such a run is free of undefined behaviour, and which packets of
    a peer are not; \<open>Gateway_Specs\<close>: retry, and a message with its answer from end to end; \<open>Gateway_World\<close>: two gateways and the bytes between
    them: gossip packet by packet, loss of a session, unicast routes, broadcasts.
  \<^item> \<open>Host_Model\<close>, \<open>Host_Specs\<close>: \<open>Host.cpp\<close>: identities, handshakes and pending connections;
    \<open>Asio_Model\<close>, \<open>Asio_Specs\<close>: \<open>ASIOInterface\<close> and \<open>Socket\<close>: nothing goes out in clear, and how an
    attempt to connect ends over host, resolver, socket and timer; \<open>Reconnect\<close>: from the timer of
    the service to the adopted session.
    \<open>Gateway_Config\<close>, \<open>Config_Specs\<close>: \<open>GatewayConfig.cpp\<close>; \<open>Gateway_Factory\<close>:
    \<open>GatewayFactory.cpp\<close>.

  Termination and bounds. No definition of the model needs fuel: the receive loop and both
  retrying senders are recursive functions with measures (the buffer, the peers left), and their
  termination is part of what is proved. That equal sequence numbers mean equal tables needs that a
  table changes less than 2^32 times, since the numbers wrap;
  round trips need the size of a message below 2^32, the range of its length field.

  Not modelled. What boost::asio does with the calls of \<open>ASIOInterface\<close> and the timers of the
  framework with theirs (the calls are effects, the completions events), logging, locks and threads
  as such (an operation that holds its lock is one step; the jobs of the thread pool are steps of
  their own), getters and setters. Exceptions thrown inside
  bcos-framework, jsoncpp or the memory allocator are not modelled where the code only logs them,
  and keys are made by a total function. Tests, tools and build files are left out.
\<close>

end
